(* ===== verification/Prelude.thy ===== *)
theory Prelude
  imports Main "HOL-Library.Word"
begin

text \<open>
  Shared material of the development: the machine integers of the firmware, fixed C++ arrays as
  lists with a block copy (\<open>blit\<close>, the model of \<open>std::copy_n\<close> and \<open>std::memcpy\<close> into an
  array), NUL-terminated C strings, and the generic list and word lemmas the components share.
  Sizes and indices (\<open>std::size_t\<close>) are \<open>nat\<close>; the components prove the bounds that make the
  \<open>size_t\<close> subtractions of the code exact. Byte, id and time values keep their width as words.
\<close>

unbundle bit_operations_syntax

type_synonym u8 = "8 word"
type_synonym u16 = "16 word"
type_synonym u32 = "32 word"
type_synonym u64 = "64 word"
type_synonym bytes = "u8 list"

named_theorems op_defs \<open>definitions of the operations, unfolded in one step\<close>
named_theorems array_simps \<open>rewriting of fixed arrays and block copies\<close>

section \<open>Block copies into fixed arrays\<close>

definition blit :: "'a list \<Rightarrow> nat \<Rightarrow> 'a list \<Rightarrow> 'a list" where
  "blit dst off src = take off dst @ src @ drop (off + length src) dst"

lemma length_blit [simp, array_simps]:
  "off + length src \<le> length dst \<Longrightarrow> length (blit dst off src) = length dst"
  by (simp add: blit_def)

lemma blit_zero [array_simps]: "blit dst 0 src = src @ drop (length src) dst"
  by (simp add: blit_def)

lemma take_blit_prefix [array_simps]:
  "off \<le> length dst \<Longrightarrow> take (off + length src) (blit dst off src) = take off dst @ src"
  by (simp add: blit_def)

lemma take_blit_below: "n \<le> off \<Longrightarrow> off \<le> length dst \<Longrightarrow> take n (blit dst off src) = take n dst"
  by (simp add: blit_def min_def)

lemma take_drop_append_step:
  "take n xs @ take m (drop n xs) = take (n + m) xs"
  by (simp add: take_add)

lemma map_nth_upt: "n \<le> length xs \<Longrightarrow> map ((!) xs) [0..<n] = take n xs"
  by (induction n) (simp_all add: take_Suc_conv_app_nth)

text \<open>The loop \<open>for (i = 0; i < n; ++i) a[i] = f(i)\<close>.\<close>

lemma fold_update_upt [array_simps]:
  "n \<le> length v \<Longrightarrow> fold (\<lambda>i v. v[i := f i]) [0..<n] v = map f [0..<n] @ drop n v"
proof (induction n)
  case (Suc n)
  then have "drop n v = v ! n # drop (Suc n) v" by (simp add: Cons_nth_drop_Suc)
  with Suc show ?case by (simp add: list_update_append)
qed simp

lemma map_nth_shift: "k + n \<le> length xs \<Longrightarrow> map (\<lambda>i. xs ! (i + k)) [0..<n] = take n (drop k xs)"
  by (rule nth_equalityI) (auto simp: add.commute)

section \<open>Big-endian values\<close>

definition be_value :: "bytes \<Rightarrow> 'a :: len word" where
  "be_value bs = fold (\<lambda>b acc. push_bit 8 acc OR ucast b) bs 0"

section \<open>C strings\<close>

text \<open>A pointer to characters is the memory it points at; the string ends before the first NUL.\<close>

definition c_string :: "bytes \<Rightarrow> bytes" where
  "c_string mem = takeWhile (\<lambda>b. b \<noteq> 0) mem"

definition nul_free :: "bytes \<Rightarrow> bool" where
  "nul_free bs \<longleftrightarrow> list_all (\<lambda>b. b \<noteq> 0) bs"

lemma c_string_terminated [simp]: "nul_free bs \<Longrightarrow> c_string (bs @ 0 # rest) = bs"
  by (auto simp: c_string_def nul_free_def list_all_iff takeWhile_append)

lemma c_string_padded: "nul_free bs \<Longrightarrow> 0 < n \<Longrightarrow> c_string (bs @ replicate n 0) = bs"
  by (cases n) simp_all

lemma nul_free_c_string [simp]: "nul_free (c_string mem)"
  by (auto simp: c_string_def nul_free_def list_all_iff dest: set_takeWhileD)

lemma nul_free_append [simp]: "nul_free (xs @ ys) \<longleftrightarrow> nul_free xs \<and> nul_free ys"
  by (simp add: nul_free_def)

section \<open>Words\<close>

lemma and_15_nat: "(n::nat) AND 15 = n mod 16"
  using take_bit_eq_mask [of 4 n] by (simp add: take_bit_eq_mod mask_eq_exp_minus_1)

lemma unat_and_15: "unat (b AND 15 :: u8) = unat b mod 16"
  by (simp add: unsigned_and_eq and_15_nat)

lemma unat_shift_4: "unat (drop_bit 4 (b :: u8)) = unat b div 16"
  by (simp add: unsigned_drop_bit_eq drop_bit_eq_div take_bit_eq_mod unat_div)

lemma u8_less_256 [simp]: "unat (b :: u8) < 256"
  using unsigned_less [of b] by simp

lemma shift_4_and_15: "drop_bit 4 (b :: u8) AND 15 = drop_bit 4 b"
proof -
  have "unat b div 16 < 16" using u8_less_256 [of b] by linarith
  then show ?thesis
    by (intro word_unat_eq_iff [THEN iffD2]) (simp add: unat_and_15 unat_shift_4)
qed

lemma u8_of_nat_nibble: "x < 16 \<Longrightarrow> drop_bit 4 (of_nat x :: u8) = 0"
  by (intro word_unat_eq_iff [THEN iffD2]) (simp add: unat_shift_4 unat_of_nat take_bit_eq_mod)

lemma high_nibble_or: "x < 16 \<Longrightarrow> drop_bit 4 ((h :: u8) OR of_nat x) = drop_bit 4 h"
  by (simp only: drop_bit_or u8_of_nat_nibble or.right_neutral)

lemma low_nibble_or:
  assumes "x < 16" and "h AND 15 = (0 :: u8)" shows "(h OR of_nat x) AND 15 = of_nat x"
proof -
  have "(of_nat x :: u8) AND 15 = of_nat x"
    using assms(1) by (intro word_unat_eq_iff [THEN iffD2])
      (simp add: unat_and_15 unat_of_nat take_bit_eq_mod)
  then show ?thesis by (simp add: bit.conj_disj_distrib2 assms(2))
qed

lemma u8_of_nat_eq: "n < 256 \<Longrightarrow> unat (of_nat n :: u8) = n"
  by (simp add: unat_of_nat take_bit_eq_mod)

lemma unat_inc_below: "(a :: u8) < b \<Longrightarrow> unat (a + 1) = Suc (unat a)"
proof -
  assume "a < b"
  then have "Suc (unat a) < 256" using u8_less_256 [of b] unfolding word_less_nat_alt by linarith
  then show ?thesis by (simp add: unat_word_ariths)
qed

end
