(* ===== verification/Can_Types.thy ===== *)
theory Can_Types
  imports Prelude
begin

text \<open>
  The classic CAN data model (\<open>core/can_types.h\<close>), the hardware abstraction layer
  (\<open>hal/can_hal.h\<close>), the clock (\<open>core/clock.h\<close>), the board and hardware settings and the
  status codes of the diagnostic transport (\<open>protocol/diagnostic_transport.h\<close>). The two virtual
  classes \<open>CanHal\<close> and \<open>Clock\<close> are records of functions over an arbitrary world \<open>'w\<close>: every
  call takes the world and returns it, so a back end may do anything between two calls, and the
  clock may advance at every reading.
\<close>

datatype CanFrameFormat = Standard | Extended | OtherFormat u8

datatype CanStatus =
    CanOk
  | CanNotInitialized
  | CanInvalidConfig
  | CanNoData
  | CanTxBusy
  | CanTxFailed
  | CanDriverError
  | CanRxOverflow
  | CanBusOff

record CanFrame =
  cf_id :: u32
  cf_format :: CanFrameFormat
  cf_length :: u8
  cf_payload :: bytes
  cf_timestamp :: u64

definition kClassicCanMaxPayload :: u8 where
  "kClassicCanMaxPayload = 8"

definition CanFrame_default :: CanFrame where
  "CanFrame_default =
     \<lparr>cf_id = 0, cf_format = Standard, cf_length = 0, cf_payload = replicate 8 0,
      cf_timestamp = 0\<rparr>"

definition CanFrame_isValid :: "CanFrame \<Rightarrow> bool" where
  "CanFrame_isValid f =
     (if kClassicCanMaxPayload < cf_length f then False
      else if cf_format f = Standard then cf_id f \<le> 0x7FF
      else cf_format f = Extended \<and> cf_id f \<le> 0x1FFFFFFF)"

record BoardProfile =
  bp_name :: string
  bp_canTxGpio :: "16 word"
  bp_canRxGpio :: "16 word"
  bp_canBitrate :: u32

text \<open>Not configured: the GPIO value \<open>-1\<close> and the bit rate \<open>0\<close>.\<close>

definition BoardProfile_default :: BoardProfile where
  "BoardProfile_default =
     \<lparr>bp_name = ''generic-development'', bp_canTxGpio = - 1, bp_canRxGpio = - 1, bp_canBitrate = 0\<rparr>"

record HardwareConfig =
  hc_canTxGpio :: "16 word"
  hc_canRxGpio :: "16 word"
  hc_canBitrate :: u32

definition HardwareConfig_default :: HardwareConfig where
  "HardwareConfig_default = \<lparr>hc_canTxGpio = - 1, hc_canRxGpio = - 1, hc_canBitrate = 0\<rparr>"

definition HardwareConfig_fromBoardProfile :: "BoardProfile \<Rightarrow> HardwareConfig" where
  "HardwareConfig_fromBoardProfile p =
     \<lparr>hc_canTxGpio = bp_canTxGpio p, hc_canRxGpio = bp_canRxGpio p,
      hc_canBitrate = bp_canBitrate p\<rparr>"

text \<open>The virtual class \<open>CanHal\<close>: \<open>receive\<close> also returns the frame it leaves in its argument.\<close>

record 'w CanHal =
  hal_initialize :: "HardwareConfig \<Rightarrow> 'w \<Rightarrow> CanStatus \<times> 'w"
  hal_stop :: "'w \<Rightarrow> CanStatus \<times> 'w"
  hal_send :: "CanFrame \<Rightarrow> 'w \<Rightarrow> CanStatus \<times> 'w"
  hal_receive :: "CanFrame \<Rightarrow> 'w \<Rightarrow> CanStatus \<times> CanFrame \<times> 'w"

type_synonym 'w Clock = "'w \<Rightarrow> u64 \<times> 'w"

text \<open>The back end and the clock a component refers to, over their joint state.\<close>

record 'w env =
  env_can :: "'w CanHal"
  env_clock :: "'w Clock"

datatype TransportStatus =
    TsIdle
  | TsInProgress
  | TsComplete
  | TsMessageReady
  | TsNoData
  | TsIgnored
  | TsBusy
  | TsInvalidArgument
  | TsInvalidFrame
  | TsUnexpectedFrame
  | TsOverflow
  | TsSequenceError
  | TsTimeout
  | TsWaitLimitExceeded
  | TsFlowControlOverflow
  | TsTxBusy
  | TsTxFailed
  | TsBusOff
  | TsNotInitialized
  | TsCanError

text \<open>
  The virtual class \<open>DiagnosticTransport\<close> over the transport's own world \<open>'t\<close>. A payload pointer
  is \<open>None\<close> for \<open>nullptr\<close> and otherwise the memory it points at; \<open>receive\<close> returns the length it
  reports and the caller's buffer after the call.
\<close>

record 't DiagnosticTransport =
  dt_startSend :: "bytes option \<Rightarrow> nat \<Rightarrow> 't \<Rightarrow> TransportStatus \<times> 't"
  dt_poll :: "'t \<Rightarrow> TransportStatus \<times> 't"
  dt_receive :: "bytes option \<Rightarrow> nat \<Rightarrow> 't \<Rightarrow> TransportStatus \<times> nat \<times> bytes option \<times> 't"
  dt_discardPendingMessage :: "'t \<Rightarrow> 't"

lemma CanFrame_default_simps [simp]:
  "cf_length CanFrame_default = 0" "cf_format CanFrame_default = Standard"
  "cf_id CanFrame_default = 0" "cf_timestamp CanFrame_default = 0"
  "length (cf_payload CanFrame_default) = 8"
  by (simp_all add: CanFrame_default_def)

lemma isValid_id_bound: "CanFrame_isValid f \<Longrightarrow> cf_id f \<le> 0x1FFFFFFF"
  by (auto simp: CanFrame_isValid_def split: if_splits intro: order_trans)

lemma isValid_length_bound: "CanFrame_isValid f \<Longrightarrow> cf_length f \<le> 8"
  by (auto simp: CanFrame_isValid_def kClassicCanMaxPayload_def split: if_splits)

end
