(* ===== verification/IsoTp.thy ===== *)
theory IsoTp
  imports Can_Types
begin

text \<open>
  The ISO-TP transport (\<open>protocol/isotp_transport.h\<close>, class \<open>IsoTpTransport\<close>): its configuration,
  its state and every operation, translated branch by branch. An environment \<open>'w env\<close> bundles the
  CAN back end and the clock the object refers to; \<open>'w\<close> is their joint state. A handler returns
  the transport status, the new transport state and the new world.
\<close>

section \<open>Configuration and state\<close>

datatype RxState = RxIdle | RxReceiving
datatype TxState = TxIdle | TxWaitFlowControl | TxSending

record IsoTpConfig =
  txId :: u32
  rxId :: u32
  frameFormat :: CanFrameFormat
  maxPayload :: nat
  flowControlTimeoutMs :: u32
  consecutiveFrameTimeoutMs :: u32
  maxWaitFrames :: u8
  rxBlockSize :: u8
  rxStMin :: u8

definition IsoTpConfig_default :: IsoTpConfig where
  "IsoTpConfig_default =
     \<lparr>txId = 0, rxId = 0, frameFormat = Standard, maxPayload = 4095,
      flowControlTimeoutMs = 1000, consecutiveFrameTimeoutMs = 1000,
      maxWaitFrames = 3, rxBlockSize = 0, rxStMin = 0\<rparr>"

definition kMaxPayload :: nat where
  "kMaxPayload = 4095"

record IsoTp =
  config :: IsoTpConfig
  rxPayload :: bytes
  txPayload :: bytes
  rxState :: RxState
  txState :: TxState
  rxExpectedLength :: nat
  rxOffset :: nat
  rxMessageLength :: nat
  txLength :: nat
  txOffset :: nat
  rxExpectedSequence :: u8
  rxBlockCount :: u8
  txSequence :: u8
  txBlockSize :: u8
  txBlockRemaining :: u8
  txWaitCount :: u8
  txSeparationMs :: u32
  rxDeadlineMs :: u64
  txDeadlineMs :: u64
  txNextSendMs :: u64
  txLastCfMs :: u64
  txHasLastCf :: bool
  rxMessageReady :: bool

definition IsoTp_init :: "IsoTpConfig \<Rightarrow> IsoTp" where
  "IsoTp_init cfg =
     \<lparr>config = cfg, rxPayload = replicate kMaxPayload 0, txPayload = replicate kMaxPayload 0,
      rxState = RxIdle, txState = TxIdle, rxExpectedLength = 0, rxOffset = 0,
      rxMessageLength = 0, txLength = 0, txOffset = 0, rxExpectedSequence = 1,
      rxBlockCount = 0, txSequence = 1, txBlockSize = 0, txBlockRemaining = 0,
      txWaitCount = 0, txSeparationMs = 0, rxDeadlineMs = 0, txDeadlineMs = 0,
      txNextSendMs = 0, txLastCfMs = 0, txHasLastCf = False, rxMessageReady = False\<rparr>"

section \<open>Helpers\<close>

definition isStMinCodeValid :: "u8 \<Rightarrow> bool" where
  "isStMinCodeValid v \<longleftrightarrow> v \<le> 0x7F \<or> (0xF1 \<le> v \<and> v \<le> 0xF9)"

definition decodeStMinMs :: "u8 \<Rightarrow> u32 option" where
  "decodeStMinMs v =
     (if v \<le> 0x7F then Some (ucast v)
      else if 0xF1 \<le> v \<and> v \<le> 0xF9 then Some 1
      else None)"

definition makeTxFrame :: "IsoTp \<Rightarrow> CanFrame" where
  "makeTxFrame s =
     CanFrame_default\<lparr>cf_id := txId (config s), cf_format := frameFormat (config s)\<rparr>"

definition isConfigValid :: "IsoTp \<Rightarrow> bool" where
  "isConfigValid s =
     (let tx = makeTxFrame s;
          rx = CanFrame_default\<lparr>cf_id := rxId (config s), cf_format := frameFormat (config s)\<rparr>
      in CanFrame_isValid tx \<and> CanFrame_isValid rx \<and> 0 < maxPayload (config s) \<and>
         maxPayload (config s) \<le> kMaxPayload \<and> 0 < flowControlTimeoutMs (config s) \<and>
         0 < consecutiveFrameTimeoutMs (config s) \<and> isStMinCodeValid (rxStMin (config s)))"

fun mapCanStatus :: "CanStatus \<Rightarrow> TransportStatus" where
  "mapCanStatus CanOk = TsComplete"
| "mapCanStatus CanTxBusy = TsTxBusy"
| "mapCanStatus CanTxFailed = TsTxFailed"
| "mapCanStatus CanBusOff = TsBusOff"
| "mapCanStatus CanNotInitialized = TsNotInitialized"
| "mapCanStatus CanInvalidConfig = TsInvalidArgument"
| "mapCanStatus CanNoData = TsCanError"
| "mapCanStatus CanDriverError = TsCanError"
| "mapCanStatus CanRxOverflow = TsCanError"

definition sendFrame :: "'w env \<Rightarrow> CanFrame \<Rightarrow> 'w \<Rightarrow> TransportStatus \<times> 'w" where
  "sendFrame E f w = (case hal_send (env_can E) f w of (st, w1) \<Rightarrow> (mapCanStatus st, w1))"

definition resetRxAssembly :: "IsoTp \<Rightarrow> IsoTp" where
  "resetRxAssembly s =
     s\<lparr>rxState := RxIdle, rxExpectedLength := 0, rxOffset := 0, rxExpectedSequence := 1,
       rxBlockCount := 0, rxDeadlineMs := 0\<rparr>"

definition resetTx :: "IsoTp \<Rightarrow> IsoTp" where
  "resetTx s =
     s\<lparr>txState := TxIdle, txLength := 0, txOffset := 0, txSequence := 1, txBlockSize := 0,
       txBlockRemaining := 0, txWaitCount := 0, txSeparationMs := 0, txDeadlineMs := 0,
       txNextSendMs := 0, txLastCfMs := 0, txHasLastCf := False\<rparr>"

section \<open>Sending\<close>

text \<open>The frames of the four kinds, as the code fills them in.\<close>

definition makeSingleFrame :: "IsoTp \<Rightarrow> bytes \<Rightarrow> nat \<Rightarrow> CanFrame" where
  "makeSingleFrame s p len =
     (let f = makeTxFrame s
      in f\<lparr>cf_length := of_nat (len + 1),
           cf_payload := blit ((cf_payload f)[0 := of_nat len]) 1 (take len p)\<rparr>)"

definition makeFirstFrame :: "IsoTp \<Rightarrow> bytes \<Rightarrow> nat \<Rightarrow> CanFrame" where
  "makeFirstFrame s p len =
     (let f = makeTxFrame s
      in f\<lparr>cf_length := kClassicCanMaxPayload,
           cf_payload :=
             blit ((cf_payload f)
                     [0 := 0x10 OR of_nat (drop_bit 8 len AND 0x0F),
                      1 := of_nat (len AND 0xFF)]) 2 (take 6 p)\<rparr>)"

definition makeConsecutiveFrame :: "IsoTp \<Rightarrow> nat \<Rightarrow> CanFrame" where
  "makeConsecutiveFrame s copyLength =
     (let f = makeTxFrame s
      in f\<lparr>cf_length := of_nat (copyLength + 1),
           cf_payload := blit ((cf_payload f)[0 := 0x20 OR txSequence s]) 1
                           (take copyLength (drop (txOffset s) (txPayload s)))\<rparr>)"

definition makeFlowControlFrame :: "IsoTp \<Rightarrow> u8 \<Rightarrow> CanFrame" where
  "makeFlowControlFrame s flowStatus =
     (let f = makeTxFrame s
      in f\<lparr>cf_length := 3,
           cf_payload := (cf_payload f)
             [0 := 0x30 OR flowStatus, 1 := rxBlockSize (config s), 2 := rxStMin (config s)]\<rparr>)"

definition stageTx :: "bytes \<Rightarrow> nat \<Rightarrow> IsoTp \<Rightarrow> IsoTp" where
  "stageTx p len s =
     s\<lparr>txPayload := blit (txPayload s) 0 (take len p), txLength := len, txOffset := 6,
       txSequence := 1, txWaitCount := 0\<rparr>"

definition IsoTp_startSend ::
    "'w env \<Rightarrow> bytes option \<Rightarrow> nat \<Rightarrow> IsoTp \<Rightarrow> 'w \<Rightarrow> TransportStatus \<times> IsoTp \<times> 'w" where
  "IsoTp_startSend E payload len s w =
     (case payload of
        None \<Rightarrow> (TsInvalidArgument, s, w)
      | Some p \<Rightarrow>
         if \<not> isConfigValid s \<or> len = 0 \<or> maxPayload (config s) < len \<or> kMaxPayload < len
         then (TsInvalidArgument, s, w)
         else if txState s \<noteq> TxIdle then (TsBusy, s, w)
         else if len \<le> 7 then
           (let (status, w1) = sendFrame E (makeSingleFrame s p len) w in (status, s, w1))
         else
           (let s1 = stageTx p len s;
                (status, w1) = sendFrame E (makeFirstFrame s1 p len) w
            in if status \<noteq> TsComplete then (status, resetTx s1, w1)
               else (let (now, w2) = env_clock E w1
                     in (TsInProgress,
                         s1\<lparr>txState := TxWaitFlowControl,
                            txDeadlineMs := now + ucast (flowControlTimeoutMs (config s1))\<rparr>,
                         w2))))"

definition sendFlowControl :: "'w env \<Rightarrow> u8 \<Rightarrow> IsoTp \<Rightarrow> 'w \<Rightarrow> TransportStatus \<times> 'w" where
  "sendFlowControl E flowStatus s w = sendFrame E (makeFlowControlFrame s flowStatus) w"

text \<open>The bookkeeping after the back end accepted a consecutive frame of \<open>copyLength\<close> bytes.\<close>

definition acceptConsecutiveFrame :: "u64 \<Rightarrow> nat \<Rightarrow> IsoTp \<Rightarrow> IsoTp" where
  "acceptConsecutiveFrame acceptedAt copyLength s =
     s\<lparr>txLastCfMs := acceptedAt, txHasLastCf := True, txOffset := txOffset s + copyLength,
       txSequence := (txSequence s + 1) AND 0x0F\<rparr>"

definition sendNextConsecutiveFrame ::
    "'w env \<Rightarrow> IsoTp \<Rightarrow> 'w \<Rightarrow> TransportStatus \<times> IsoTp \<times> 'w" where
  "sendNextConsecutiveFrame E s w =
     (let remaining = txLength s - txOffset s;
          copyLength = min 7 remaining;
          (status, w1) = sendFrame E (makeConsecutiveFrame s copyLength) w
      in if status = TsTxBusy then (status, s, w1)
         else if status \<noteq> TsComplete then (status, resetTx s, w1)
         else
           (let (acceptedAt, w2) = env_clock E w1;
                s1 = acceptConsecutiveFrame acceptedAt copyLength s
            in if txOffset s1 = txLength s1 then (TsComplete, resetTx s1, w2)
               else if txBlockSize s1 \<noteq> 0 then
                 (let s2 = s1\<lparr>txBlockRemaining := txBlockRemaining s1 - 1\<rparr>
                  in if txBlockRemaining s2 = 0 then
                       (TsInProgress,
                        s2\<lparr>txState := TxWaitFlowControl,
                           txDeadlineMs := acceptedAt + ucast (flowControlTimeoutMs (config s2))\<rparr>,
                        w2)
                     else (TsInProgress,
                           s2\<lparr>txNextSendMs := acceptedAt + ucast (txSeparationMs s2)\<rparr>, w2))
               else (TsInProgress,
                     s1\<lparr>txNextSendMs := acceptedAt + ucast (txSeparationMs s1)\<rparr>, w2)))"

definition IsoTp_poll :: "'w env \<Rightarrow> IsoTp \<Rightarrow> 'w \<Rightarrow> TransportStatus \<times> IsoTp \<times> 'w" where
  "IsoTp_poll E s w =
     (if \<not> isConfigValid s then (TsInvalidArgument, s, w)
      else
        (let (now, w1) = env_clock E w
         in if rxState s = RxReceiving \<and> rxDeadlineMs s \<le> now
            then (TsTimeout, resetRxAssembly s, w1)
            else if txState s = TxWaitFlowControl \<and> txDeadlineMs s \<le> now
            then (TsTimeout, resetTx s, w1)
            else if txState s = TxSending \<and> txNextSendMs s \<le> now
            then sendNextConsecutiveFrame E s w1
            else (if txState s = TxIdle then TsIdle else TsInProgress, s, w1)))"

section \<open>Receiving\<close>

definition IsoTp_receive ::
    "bytes option \<Rightarrow> nat \<Rightarrow> IsoTp \<Rightarrow> TransportStatus \<times> nat \<times> bytes option \<times> IsoTp" where
  "IsoTp_receive payload capacity s =
     (let len = rxMessageLength s
      in if \<not> rxMessageReady s then (TsNoData, len, payload, s)
         else case payload of
                None \<Rightarrow> (TsOverflow, len, payload, s)
              | Some buf \<Rightarrow>
                  if capacity < rxMessageLength s then (TsOverflow, len, payload, s)
                  else (TsComplete, len,
                        Some (blit buf 0 (take (rxMessageLength s) (rxPayload s))),
                        s\<lparr>rxMessageReady := False, rxMessageLength := 0\<rparr>))"

definition IsoTp_discardPendingMessage :: "IsoTp \<Rightarrow> IsoTp" where
  "IsoTp_discardPendingMessage s = s\<lparr>rxMessageReady := False, rxMessageLength := 0\<rparr>"

definition handleSingleFrame :: "CanFrame \<Rightarrow> IsoTp \<Rightarrow> TransportStatus \<times> IsoTp" where
  "handleSingleFrame f s =
     (if rxState s \<noteq> RxIdle \<or> rxMessageReady s then (TsBusy, s)
      else
        (let len = unat ((cf_payload f ! 0) AND 0x0F)
         in if len = 0 \<or> 7 < len \<or> unat (cf_length f) < len + 1 \<or> maxPayload (config s) < len
            then (TsInvalidFrame, s)
            else (TsMessageReady,
                  s\<lparr>rxPayload := blit (rxPayload s) 0 (take len (drop 1 (cf_payload f))),
                    rxMessageLength := len, rxMessageReady := True\<rparr>)))"

definition firstFrameLength :: "CanFrame \<Rightarrow> nat" where
  "firstFrameLength f =
     push_bit 8 (unat ((cf_payload f ! 0) AND 0x0F)) OR unat (cf_payload f ! 1)"

text \<open>The receive state after an accepted first frame, and after a consecutive frame.\<close>

definition stageRx :: "CanFrame \<Rightarrow> u64 \<Rightarrow> nat \<Rightarrow> IsoTp \<Rightarrow> IsoTp" where
  "stageRx f now declaredLength s =
     (let off = min (unat (cf_length f) - 2) declaredLength
      in s\<lparr>rxExpectedLength := declaredLength, rxOffset := off,
           rxPayload := blit (rxPayload s) 0 (take off (drop 2 (cf_payload f))),
           rxExpectedSequence := 1, rxBlockCount := 0, rxState := RxReceiving,
           rxDeadlineMs := now + ucast (consecutiveFrameTimeoutMs (config s))\<rparr>)"

definition appendConsecutiveFrame :: "CanFrame \<Rightarrow> IsoTp \<Rightarrow> IsoTp" where
  "appendConsecutiveFrame f s =
     (let sequence = (cf_payload f ! 0) AND 0x0F;
          remaining = rxExpectedLength s - rxOffset s;
          copyLength = min (unat (cf_length f) - 1) remaining
      in s\<lparr>rxPayload := blit (rxPayload s) (rxOffset s)
                          (take copyLength (drop 1 (cf_payload f))),
           rxOffset := rxOffset s + copyLength,
           rxExpectedSequence := (sequence + 1) AND 0x0F,
           rxBlockCount := rxBlockCount s + 1\<rparr>)"

definition handleFirstFrame ::
    "'w env \<Rightarrow> CanFrame \<Rightarrow> u64 \<Rightarrow> IsoTp \<Rightarrow> 'w \<Rightarrow> TransportStatus \<times> IsoTp \<times> 'w" where
  "handleFirstFrame E f now s w =
     (if rxState s \<noteq> RxIdle \<or> rxMessageReady s then (TsBusy, s, w)
      else if cf_length f \<noteq> kClassicCanMaxPayload then (TsInvalidFrame, s, w)
      else
        (let declaredLength = firstFrameLength f
         in if declaredLength \<le> 7 \<or> kMaxPayload < declaredLength then (TsInvalidFrame, s, w)
            else if maxPayload (config s) < declaredLength then
              (let (status, w1) = sendFlowControl E 0x2 s w
               in (if status = TsComplete then TsOverflow else status, s, w1))
            else
              (let s1 = stageRx f now declaredLength s;
                   (status, w1) = sendFlowControl E 0x0 s1 w
               in if status \<noteq> TsComplete then (status, resetRxAssembly s1, w1)
                  else (TsInProgress, s1, w1))))"

definition handleConsecutiveFrame ::
    "'w env \<Rightarrow> CanFrame \<Rightarrow> u64 \<Rightarrow> IsoTp \<Rightarrow> 'w \<Rightarrow> TransportStatus \<times> IsoTp \<times> 'w" where
  "handleConsecutiveFrame E f now s w =
     (if rxState s \<noteq> RxReceiving then (TsUnexpectedFrame, s, w)
      else if cf_length f < 2 then (TsInvalidFrame, resetRxAssembly s, w)
      else
        (let sequence = (cf_payload f ! 0) AND 0x0F
         in if sequence \<noteq> rxExpectedSequence s then (TsSequenceError, resetRxAssembly s, w)
            else
              (let s1 = appendConsecutiveFrame f s
               in if rxOffset s1 = rxExpectedLength s1 then
                    (TsMessageReady,
                     resetRxAssembly (s1\<lparr>rxMessageLength := rxExpectedLength s1,
                                         rxMessageReady := True\<rparr>), w)
                  else
                    (let s2 = s1\<lparr>rxDeadlineMs :=
                                   now + ucast (consecutiveFrameTimeoutMs (config s1))\<rparr>
                     in if rxBlockSize (config s2) \<noteq> 0 \<and> rxBlockSize (config s2) \<le> rxBlockCount s2
                        then
                          (let s3 = s2\<lparr>rxBlockCount := 0\<rparr>;
                               (status, w1) = sendFlowControl E 0x0 s3 w
                           in if status \<noteq> TsComplete then (status, resetRxAssembly s3, w1)
                              else (TsInProgress, s3, w1))
                        else (TsInProgress, s2, w)))))"

definition applyContinueToSend :: "u8 \<Rightarrow> u32 \<Rightarrow> u64 \<Rightarrow> IsoTp \<Rightarrow> IsoTp" where
  "applyContinueToSend blockSize separationMs now s =
     s\<lparr>txBlockSize := blockSize, txBlockRemaining := blockSize, txSeparationMs := separationMs,
       txNextSendMs := (if txHasLastCf s then max now (txLastCfMs s + ucast separationMs)
                        else now),
       txState := TxSending\<rparr>"

definition handleFlowControl :: "CanFrame \<Rightarrow> u64 \<Rightarrow> IsoTp \<Rightarrow> TransportStatus \<times> IsoTp" where
  "handleFlowControl f now s =
     (if txState s \<noteq> TxWaitFlowControl then (TsUnexpectedFrame, s)
      else if cf_length f < 3 then (TsInvalidFrame, resetTx s)
      else
        (let flowStatus = (cf_payload f ! 0) AND 0x0F
         in if flowStatus = 0x0 then
              (case decodeStMinMs (cf_payload f ! 2) of
                 None \<Rightarrow> (TsInvalidFrame, resetTx s)
               | Some separationMs \<Rightarrow>
                   (TsInProgress, applyContinueToSend (cf_payload f ! 1) separationMs now s))
            else if flowStatus = 0x1 then
              (if maxWaitFrames (config s) \<le> txWaitCount s
               then (TsWaitLimitExceeded, resetTx s)
               else (TsInProgress,
                     s\<lparr>txWaitCount := txWaitCount s + 1,
                       txDeadlineMs := now + ucast (flowControlTimeoutMs (config s))\<rparr>))
            else if flowStatus = 0x2 then (TsFlowControlOverflow, resetTx s)
            else (TsInvalidFrame, resetTx s)))"

definition IsoTp_onCanFrame ::
    "'w env \<Rightarrow> CanFrame \<Rightarrow> IsoTp \<Rightarrow> 'w \<Rightarrow> TransportStatus \<times> IsoTp \<times> 'w" where
  "IsoTp_onCanFrame E f s w =
     (if \<not> isConfigValid s then (TsInvalidArgument, s, w)
      else if cf_id f \<noteq> rxId (config s) \<or> cf_format f \<noteq> frameFormat (config s)
      then (TsIgnored, s, w)
      else if \<not> CanFrame_isValid f \<or> cf_length f = 0 then (TsInvalidFrame, s, w)
      else
        (let (now, w1) = env_clock E w
         in if rxState s = RxReceiving \<and> rxDeadlineMs s \<le> now
            then (TsTimeout, resetRxAssembly s, w1)
            else if txState s = TxWaitFlowControl \<and> txDeadlineMs s \<le> now
            then (TsTimeout, resetTx s, w1)
            else
              (let pci = drop_bit 4 (cf_payload f ! 0) AND 0x0F
               in if pci = 0x0 then
                    (case handleSingleFrame f s of (st, s1) \<Rightarrow> (st, s1, w1))
                  else if pci = 0x1 then handleFirstFrame E f now s w1
                  else if pci = 0x2 then handleConsecutiveFrame E f now s w1
                  else if pci = 0x3 then
                    (case handleFlowControl f now s of (st, s1) \<Rightarrow> (st, s1, w1))
                  else (TsInvalidFrame, s, w1))))"

section \<open>The transport as a \<open>DiagnosticTransport\<close>\<close>

definition IsoTp_transport :: "'w env \<Rightarrow> (IsoTp \<times> 'w) DiagnosticTransport" where
  "IsoTp_transport E =
     \<lparr>dt_startSend = (\<lambda>payload len (s, w). IsoTp_startSend E payload len s w),
      dt_poll = (\<lambda>(s, w). IsoTp_poll E s w),
      dt_receive = (\<lambda>payload capacity (s, w).
         case IsoTp_receive payload capacity s of (st, len, buf, s1) \<Rightarrow> (st, len, buf, s1, w)),
      dt_discardPendingMessage = (\<lambda>(s, w). (IsoTp_discardPendingMessage s, w))\<rparr>"

end
