(* ===== verification/IsoTp_Invariant.thy ===== *)
theory IsoTp_Invariant
  imports IsoTp
begin

text \<open>
  The transport as a state machine over its public operations, and its invariant: array sizes,
  offsets within the expected lengths, sequence counters, block counters and the wait-frame count.
  Every operation keeps it, for any CAN back end, any clock and any frame. The invariant makes the
  \<open>size_t\<close> subtractions \<open>rxExpectedLength_ - rxOffset_\<close> and \<open>txLength_ - txOffset_\<close> exact and every
  \<open>copy_n\<close> of the code stay inside its array.
\<close>

section \<open>Runs\<close>

datatype 'w isotp_event =
    EvStartSend "bytes option" nat
  | EvPoll
  | EvReceive "bytes option" nat
  | EvDiscard
  | EvCanFrame CanFrame
  | EvWorld "'w \<Rightarrow> 'w"

text \<open>
  One call of the public interface, or a change of the world behind the transport
  (\<open>EvWorld\<close>: time passes, the back end changes state). The status is \<open>None\<close> for calls that
  return none.
\<close>

fun isotp_step ::
    "'w env \<Rightarrow> 'w isotp_event \<Rightarrow> IsoTp \<times> 'w \<Rightarrow> TransportStatus option \<times> IsoTp \<times> 'w" where
  "isotp_step E (EvStartSend p n) (s, w) =
     (case IsoTp_startSend E p n s w of (st, s1, w1) \<Rightarrow> (Some st, s1, w1))"
| "isotp_step E EvPoll (s, w) =
     (case IsoTp_poll E s w of (st, s1, w1) \<Rightarrow> (Some st, s1, w1))"
| "isotp_step E (EvReceive b c) (s, w) =
     (case IsoTp_receive b c s of (st, n, b1, s1) \<Rightarrow> (Some st, s1, w))"
| "isotp_step E EvDiscard (s, w) = (None, IsoTp_discardPendingMessage s, w)"
| "isotp_step E (EvCanFrame f) (s, w) =
     (case IsoTp_onCanFrame E f s w of (st, s1, w1) \<Rightarrow> (Some st, s1, w1))"
| "isotp_step E (EvWorld g) (s, w) = (None, s, g w)"

fun isotp_run :: "'w env \<Rightarrow> 'w isotp_event list \<Rightarrow> IsoTp \<times> 'w \<Rightarrow> IsoTp \<times> 'w" where
  "isotp_run E [] x = x"
| "isotp_run E (e # es) x = isotp_run E es (snd (isotp_step E e x))"

section \<open>The invariant\<close>

definition rx_inv :: "IsoTp \<Rightarrow> bool" where
  "rx_inv s \<longleftrightarrow>
     length (rxPayload s) = kMaxPayload \<and>
     (rxMessageReady s \<longrightarrow> isConfigValid s \<and> rxState s = RxIdle \<and> 0 < rxMessageLength s \<and>
        rxMessageLength s \<le> maxPayload (config s)) \<and>
     (\<not> rxMessageReady s \<longrightarrow> rxMessageLength s = 0) \<and>
     (rxState s = RxIdle \<longrightarrow> rxExpectedLength s = 0 \<and> rxOffset s = 0 \<and>
        rxExpectedSequence s = 1 \<and> rxBlockCount s = 0 \<and> rxDeadlineMs s = 0) \<and>
     (rxState s = RxReceiving \<longrightarrow> isConfigValid s \<and> 8 \<le> rxExpectedLength s \<and>
        rxExpectedLength s \<le> maxPayload (config s) \<and> 6 \<le> rxOffset s \<and>
        rxOffset s < rxExpectedLength s \<and> unat (rxExpectedSequence s) < 16 \<and>
        (rxBlockSize (config s) \<noteq> 0 \<longrightarrow> rxBlockCount s < rxBlockSize (config s)))"

definition tx_cleared :: "IsoTp \<Rightarrow> bool" where
  "tx_cleared s \<longleftrightarrow>
     txLength s = 0 \<and> txOffset s = 0 \<and> txSequence s = 1 \<and> txBlockSize s = 0 \<and>
     txBlockRemaining s = 0 \<and> txWaitCount s = 0 \<and> txSeparationMs s = 0 \<and>
     txDeadlineMs s = 0 \<and> txNextSendMs s = 0 \<and> txLastCfMs s = 0 \<and> \<not> txHasLastCf s"

text \<open>The number of consecutive frames the back end has accepted for the current message.\<close>

definition tx_sent :: "IsoTp \<Rightarrow> nat" where
  "tx_sent s = (txOffset s - 6) div 7"

lemma tx_sent_eq: "txOffset s = 6 + 7 * k \<Longrightarrow> tx_sent s = k"
  by (simp add: tx_sent_def)

definition tx_inv :: "IsoTp \<Rightarrow> bool" where
  "tx_inv s \<longleftrightarrow>
     length (txPayload s) = kMaxPayload \<and>
     (txState s = TxIdle \<longrightarrow> tx_cleared s) \<and>
     (txState s \<noteq> TxIdle \<longrightarrow> isConfigValid s \<and> 8 \<le> txLength s \<and>
        txLength s \<le> maxPayload (config s) \<and> txOffset s = 6 + 7 * tx_sent s \<and>
        txOffset s < txLength s \<and> txSequence s = of_nat (Suc (tx_sent s) mod 16) \<and>
        txWaitCount s \<le> maxWaitFrames (config s)) \<and>
     (txState s = TxSending \<longrightarrow> txBlockRemaining s \<le> txBlockSize s \<and>
        (txBlockSize s \<noteq> 0 \<longrightarrow> txBlockRemaining s \<noteq> 0))"

definition isotp_inv :: "IsoTp \<Rightarrow> bool" where
  "isotp_inv s \<longleftrightarrow> rx_inv s \<and> tx_inv s"

lemma isConfigValid_config_cong:
  "config s1 = config s \<Longrightarrow> isConfigValid s1 = isConfigValid s"
  by (simp add: isConfigValid_def makeTxFrame_def)

lemma isConfigValid_updates [simp]:
  "isConfigValid (s\<lparr>rxPayload := x0\<rparr>) = isConfigValid s"
  "isConfigValid (s\<lparr>rxState := x1\<rparr>) = isConfigValid s"
  "isConfigValid (s\<lparr>rxExpectedLength := x2\<rparr>) = isConfigValid s"
  "isConfigValid (s\<lparr>rxOffset := x3\<rparr>) = isConfigValid s"
  "isConfigValid (s\<lparr>rxMessageLength := x4\<rparr>) = isConfigValid s"
  "isConfigValid (s\<lparr>rxExpectedSequence := x5\<rparr>) = isConfigValid s"
  "isConfigValid (s\<lparr>rxBlockCount := x6\<rparr>) = isConfigValid s"
  "isConfigValid (s\<lparr>rxDeadlineMs := x7\<rparr>) = isConfigValid s"
  "isConfigValid (s\<lparr>rxMessageReady := x8\<rparr>) = isConfigValid s"
  "isConfigValid (s\<lparr>txPayload := x9\<rparr>) = isConfigValid s"
  "isConfigValid (s\<lparr>txState := x10\<rparr>) = isConfigValid s"
  "isConfigValid (s\<lparr>txLength := x11\<rparr>) = isConfigValid s"
  "isConfigValid (s\<lparr>txOffset := x12\<rparr>) = isConfigValid s"
  "isConfigValid (s\<lparr>txSequence := x13\<rparr>) = isConfigValid s"
  "isConfigValid (s\<lparr>txBlockSize := x14\<rparr>) = isConfigValid s"
  "isConfigValid (s\<lparr>txBlockRemaining := x15\<rparr>) = isConfigValid s"
  "isConfigValid (s\<lparr>txWaitCount := x16\<rparr>) = isConfigValid s"
  "isConfigValid (s\<lparr>txSeparationMs := x17\<rparr>) = isConfigValid s"
  "isConfigValid (s\<lparr>txDeadlineMs := x18\<rparr>) = isConfigValid s"
  "isConfigValid (s\<lparr>txNextSendMs := x19\<rparr>) = isConfigValid s"
  "isConfigValid (s\<lparr>txLastCfMs := x20\<rparr>) = isConfigValid s"
  "isConfigValid (s\<lparr>txHasLastCf := x21\<rparr>) = isConfigValid s"
  by (simp_all add: isConfigValid_def makeTxFrame_def)

lemma isConfigValid_bounds:
  "isConfigValid s \<Longrightarrow> 0 < maxPayload (config s) \<and> maxPayload (config s) \<le> kMaxPayload"
  by (simp add: isConfigValid_def Let_def)

lemma isotp_inv_init: "isotp_inv (IsoTp_init cfg)"
  by (simp add: isotp_inv_def rx_inv_def tx_inv_def tx_cleared_def IsoTp_init_def)

subsection \<open>The halves do not see each other's fields\<close>

lemma tx_sent_updates [simp]:
  "tx_sent (s\<lparr>rxPayload := x0\<rparr>) = tx_sent s"
  "tx_sent (s\<lparr>rxState := x1\<rparr>) = tx_sent s"
  "tx_sent (s\<lparr>rxExpectedLength := x2\<rparr>) = tx_sent s"
  "tx_sent (s\<lparr>rxOffset := x3\<rparr>) = tx_sent s"
  "tx_sent (s\<lparr>rxMessageLength := x4\<rparr>) = tx_sent s"
  "tx_sent (s\<lparr>rxExpectedSequence := x5\<rparr>) = tx_sent s"
  "tx_sent (s\<lparr>rxBlockCount := x6\<rparr>) = tx_sent s"
  "tx_sent (s\<lparr>rxDeadlineMs := x7\<rparr>) = tx_sent s"
  "tx_sent (s\<lparr>rxMessageReady := x8\<rparr>) = tx_sent s"
  "tx_sent (s\<lparr>txPayload := x9\<rparr>) = tx_sent s"
  "tx_sent (s\<lparr>txState := x10\<rparr>) = tx_sent s"
  "tx_sent (s\<lparr>txLength := x11\<rparr>) = tx_sent s"
  "tx_sent (s\<lparr>txSequence := x12\<rparr>) = tx_sent s"
  "tx_sent (s\<lparr>txBlockSize := x13\<rparr>) = tx_sent s"
  "tx_sent (s\<lparr>txBlockRemaining := x14\<rparr>) = tx_sent s"
  "tx_sent (s\<lparr>txWaitCount := x15\<rparr>) = tx_sent s"
  "tx_sent (s\<lparr>txSeparationMs := x16\<rparr>) = tx_sent s"
  "tx_sent (s\<lparr>txDeadlineMs := x17\<rparr>) = tx_sent s"
  "tx_sent (s\<lparr>txNextSendMs := x18\<rparr>) = tx_sent s"
  "tx_sent (s\<lparr>txLastCfMs := x19\<rparr>) = tx_sent s"
  "tx_sent (s\<lparr>txHasLastCf := x20\<rparr>) = tx_sent s"
  by (simp_all add: tx_sent_def)

lemma rx_inv_tx_updates [simp]:
  "rx_inv (s\<lparr>txPayload := x0\<rparr>) = rx_inv s"
  "rx_inv (s\<lparr>txState := x1\<rparr>) = rx_inv s"
  "rx_inv (s\<lparr>txLength := x2\<rparr>) = rx_inv s"
  "rx_inv (s\<lparr>txOffset := x3\<rparr>) = rx_inv s"
  "rx_inv (s\<lparr>txSequence := x4\<rparr>) = rx_inv s"
  "rx_inv (s\<lparr>txBlockSize := x5\<rparr>) = rx_inv s"
  "rx_inv (s\<lparr>txBlockRemaining := x6\<rparr>) = rx_inv s"
  "rx_inv (s\<lparr>txWaitCount := x7\<rparr>) = rx_inv s"
  "rx_inv (s\<lparr>txSeparationMs := x8\<rparr>) = rx_inv s"
  "rx_inv (s\<lparr>txDeadlineMs := x9\<rparr>) = rx_inv s"
  "rx_inv (s\<lparr>txNextSendMs := x10\<rparr>) = rx_inv s"
  "rx_inv (s\<lparr>txLastCfMs := x11\<rparr>) = rx_inv s"
  "rx_inv (s\<lparr>txHasLastCf := x12\<rparr>) = rx_inv s"
  by (simp_all add: rx_inv_def)

lemma tx_inv_rx_updates [simp]:
  "tx_inv (s\<lparr>rxPayload := x0\<rparr>) = tx_inv s"
  "tx_inv (s\<lparr>rxState := x1\<rparr>) = tx_inv s"
  "tx_inv (s\<lparr>rxExpectedLength := x2\<rparr>) = tx_inv s"
  "tx_inv (s\<lparr>rxOffset := x3\<rparr>) = tx_inv s"
  "tx_inv (s\<lparr>rxMessageLength := x4\<rparr>) = tx_inv s"
  "tx_inv (s\<lparr>rxExpectedSequence := x5\<rparr>) = tx_inv s"
  "tx_inv (s\<lparr>rxBlockCount := x6\<rparr>) = tx_inv s"
  "tx_inv (s\<lparr>rxDeadlineMs := x7\<rparr>) = tx_inv s"
  "tx_inv (s\<lparr>rxMessageReady := x8\<rparr>) = tx_inv s"
  by (simp_all add: tx_inv_def tx_cleared_def tx_sent_def)

subsection \<open>The two resets\<close>

lemma resetRx_rx_inv: "length (rxPayload s) = kMaxPayload \<Longrightarrow>
    (rxMessageReady s \<longrightarrow> isConfigValid s \<and> 0 < rxMessageLength s \<and>
       rxMessageLength s \<le> maxPayload (config s)) \<Longrightarrow>
    (\<not> rxMessageReady s \<longrightarrow> rxMessageLength s = 0) \<Longrightarrow> rx_inv (resetRxAssembly s)"
  by (simp add: rx_inv_def resetRxAssembly_def)

lemma resetRx_inv: "rx_inv s \<Longrightarrow> rx_inv (resetRxAssembly s)"
  by (rule resetRx_rx_inv) (simp_all add: rx_inv_def)

lemma resetTx_tx_inv: "length (txPayload s) = kMaxPayload \<Longrightarrow> tx_inv (resetTx s)"
  by (simp add: tx_inv_def resetTx_def tx_cleared_def)

lemma resetTx_inv: "tx_inv s \<Longrightarrow> tx_inv (resetTx s)"
  by (rule resetTx_tx_inv) (simp add: tx_inv_def)

lemma resetRx_keeps_tx [simp]: "tx_inv (resetRxAssembly s) = tx_inv s"
  by (simp add: tx_inv_def tx_cleared_def tx_sent_def resetRxAssembly_def)

lemma resetTx_keeps_rx [simp]: "rx_inv (resetTx s) = rx_inv s"
  by (simp add: rx_inv_def resetTx_def)

lemma reset_config [simp]: "config (resetTx s) = config s" "config (resetRxAssembly s) = config s"
  by (simp_all add: resetTx_def resetRxAssembly_def)

section \<open>Every operation keeps the invariant\<close>

lemma sequence_step: "(of_nat (n mod 16) + 1 :: u8) AND 15 = of_nat (Suc n mod 16)"
proof (rule word_unat_eq_iff [THEN iffD2])
  have n: "n mod 16 < 16" by simp
  then have "unat (of_nat (n mod 16) + 1 :: u8) = n mod 16 + 1"
    by (simp add: unat_word_ariths u8_of_nat_eq)
  then show "unat ((of_nat (n mod 16) + 1 :: u8) AND 15) = unat (of_nat (Suc n mod 16) :: u8)"
    by (simp add: unat_and_15 u8_of_nat_eq mod_Suc_eq)
qed

lemma stageTx_rx [simp]: "rx_inv (stageTx p n s) = rx_inv s"
  by (simp add: stageTx_def)

lemma stageTx_config [simp]: "config (stageTx p n s) = config s"
  by (simp add: stageTx_def)

lemma length_stageTx [simp]:
  "n \<le> kMaxPayload \<Longrightarrow> length (txPayload s) = kMaxPayload \<Longrightarrow>
     length (txPayload (stageTx p n s)) = kMaxPayload"
  by (simp add: stageTx_def)

lemma stageTx_tx_inv:
  assumes "tx_inv s" and "isConfigValid s" and "txState s = TxIdle" and "7 < n"
    and "n \<le> maxPayload (config s)" and "n \<le> kMaxPayload"
  shows "tx_inv ((stageTx p n s)\<lparr>txState := TxWaitFlowControl, txDeadlineMs := d\<rparr>)"
  using assms by (simp add: tx_inv_def stageTx_def tx_sent_def)

lemma startSend_inv:
  assumes "isotp_inv s" and "IsoTp_startSend E p n s w = (st, s1, w1)"
  shows "isotp_inv s1"
proof -
  have len: "length (txPayload s) = kMaxPayload"
    using assms(1) by (simp add: isotp_inv_def tx_inv_def)
  from assms show ?thesis
    by (auto simp: IsoTp_startSend_def Let_def isotp_inv_def len
          split: option.splits if_splits prod.splits intro!: resetTx_tx_inv stageTx_tx_inv)
qed

lemma acceptConsecutiveFrame_rx [simp]: "rx_inv (acceptConsecutiveFrame t n s) = rx_inv s"
  by (simp add: acceptConsecutiveFrame_def)

lemma acceptConsecutiveFrame_simps [simp]:
  "config (acceptConsecutiveFrame t n s) = config s"
  "txPayload (acceptConsecutiveFrame t n s) = txPayload s"
  "txLength (acceptConsecutiveFrame t n s) = txLength s"
  "txOffset (acceptConsecutiveFrame t n s) = txOffset s + n"
  "txBlockSize (acceptConsecutiveFrame t n s) = txBlockSize s"
  "txBlockRemaining (acceptConsecutiveFrame t n s) = txBlockRemaining s"
  "txSeparationMs (acceptConsecutiveFrame t n s) = txSeparationMs s"
  by (simp_all add: acceptConsecutiveFrame_def)

text \<open>A frame that is not the last carries exactly seven bytes.\<close>

lemma not_last_copy:
  "tx_inv s \<Longrightarrow> txState s \<noteq> TxIdle \<Longrightarrow> txOffset s + min 7 (txLength s - txOffset s) \<noteq> txLength s \<Longrightarrow>
     txOffset s + 7 < txLength s \<and> min 7 (txLength s - txOffset s) = 7"
  by (auto simp: tx_inv_def min_def split: if_splits)

lemma accept_inv:
  assumes "tx_inv s" and "txState s = TxSending" and "txOffset s + 7 < txLength s"
  shows "tx_inv (acceptConsecutiveFrame t 7 s)" and
    "txState (acceptConsecutiveFrame t 7 s) = TxSending"
proof -
  let ?s = "acceptConsecutiveFrame t 7 s"
  show q: "txState ?s = TxSending" using assms(2) by (simp add: acceptConsecutiveFrame_def)
  from assms(1,2) have off: "txOffset s = 6 + 7 * tx_sent s"
    and seq: "txSequence s = of_nat (Suc (tx_sent s) mod 16)" by (simp_all add: tx_inv_def)
  have sent: "tx_sent ?s = Suc (tx_sent s)"
    using off by (simp add: tx_sent_def)
  have "txSequence ?s = of_nat (Suc (tx_sent ?s) mod 16)"
    by (simp only: sent) (simp add: acceptConsecutiveFrame_def seq sequence_step)
  moreover have "isConfigValid ?s = isConfigValid s"
    by (rule isConfigValid_config_cong) simp
  ultimately show "tx_inv ?s"
    using assms off sent q unfolding tx_inv_def
    by (simp add: acceptConsecutiveFrame_def)
qed

lemma tx_inv_nextSend: "tx_inv s \<Longrightarrow> txState s \<noteq> TxIdle \<Longrightarrow> tx_inv (s\<lparr>txNextSendMs := e\<rparr>)"
  by (simp add: tx_inv_def)

lemma tx_inv_wait:
  "tx_inv s \<Longrightarrow> txState s \<noteq> TxIdle \<Longrightarrow>
     tx_inv (s\<lparr>txBlockRemaining := b, txState := TxWaitFlowControl, txDeadlineMs := d\<rparr>)"
  by (simp add: tx_inv_def)

lemma tx_inv_block:
  "tx_inv s \<Longrightarrow> txState s = TxSending \<Longrightarrow> b \<le> txBlockSize s \<Longrightarrow> b \<noteq> 0 \<Longrightarrow>
     tx_inv (s\<lparr>txBlockRemaining := b, txNextSendMs := e\<rparr>)"
  by (simp add: tx_inv_def)

lemma block_countdown:
  fixes b c :: u8 shows "b \<le> c \<Longrightarrow> b \<noteq> 0 \<Longrightarrow> b - 1 \<le> c"
  by (simp add: word_le_nat_alt unat_minus_one)

lemma sendNext_inv:
  assumes inv: "isotp_inv s" and q: "txState s = TxSending"
    and run: "sendNextConsecutiveFrame E s w = (st, s1, w1)"
  shows "isotp_inv s1"
proof -
  from inv have tx: "tx_inv s" and rx: "rx_inv s" by (auto simp: isotp_inv_def)
  let ?n = "min 7 (txLength s - txOffset s)"
  obtain r u where r: "sendFrame E (makeConsecutiveFrame s ?n) w = (r, u)" by fastforce
  obtain t v where t: "env_clock E u = (t, v)" by fastforce
  consider "r \<noteq> TsComplete" | "r = TsComplete" "txOffset s + ?n = txLength s"
    | "r = TsComplete" "txOffset s + ?n \<noteq> txLength s" by blast
  then show ?thesis
  proof cases
    case 1
    with run r tx rx show ?thesis
      by (auto simp: sendNextConsecutiveFrame_def Let_def isotp_inv_def resetTx_inv split: if_splits)
  next
    case 2
    from tx have "length (txPayload s) = kMaxPayload" by (simp add: tx_inv_def)
    with 2 run r t rx show ?thesis
      by (auto simp: sendNextConsecutiveFrame_def Let_def isotp_inv_def intro!: resetTx_tx_inv)
  next
    case 3
    with not_last_copy [OF tx] q have more: "txOffset s + 7 < txLength s" and n7: "?n = 7" by auto
    note acc = accept_inv [OF tx q more]
    have "txBlockSize s \<noteq> 0 \<Longrightarrow> txBlockRemaining s - 1 \<le> txBlockSize s"
      using tx q by (auto simp: tx_inv_def intro: block_countdown)
    with 3 run r t rx acc [of t] n7 show ?thesis
      by (auto simp: sendNextConsecutiveFrame_def Let_def isotp_inv_def
            intro: tx_inv_nextSend tx_inv_wait tx_inv_block split: if_splits)
  qed
qed

lemma poll_inv:
  assumes "isotp_inv s" and "IsoTp_poll E s w = (st, s1, w1)"
  shows "isotp_inv s1"
  using assms
  by (auto simp: IsoTp_poll_def isotp_inv_def resetRx_inv resetTx_inv split: if_splits prod.splits
        dest: sendNext_inv [unfolded isotp_inv_def, rotated 2])

lemma receive_inv:
  assumes "isotp_inv s" and "IsoTp_receive b c s = (st, n, b1, s1)"
  shows "isotp_inv s1"
proof -
  have "rx_inv s \<Longrightarrow> rx_inv (s\<lparr>rxMessageReady := False, rxMessageLength := 0\<rparr>)"
    by (simp add: rx_inv_def)
  with assms show ?thesis
    by (auto simp: IsoTp_receive_def Let_def isotp_inv_def split: if_splits option.splits)
qed

lemma discard_inv: "isotp_inv s \<Longrightarrow> isotp_inv (IsoTp_discardPendingMessage s)"
  by (auto simp: IsoTp_discardPendingMessage_def isotp_inv_def rx_inv_def)

lemma handleSingle_inv:
  assumes "isotp_inv s" and "isConfigValid s" and "handleSingleFrame f s = (st, s1)"
  shows "isotp_inv s1"
proof -
  have "rx_inv s \<Longrightarrow> rxState s = RxIdle \<Longrightarrow> 0 < n \<Longrightarrow> n \<le> 7 \<Longrightarrow> n \<le> maxPayload (config s) \<Longrightarrow>
      rx_inv (s\<lparr>rxPayload := blit (rxPayload s) 0 (take n p), rxMessageLength := n,
                rxMessageReady := True\<rparr>)" for n p
    using assms(2) by (simp add: rx_inv_def kMaxPayload_def)
  with assms show ?thesis
    by (auto simp: handleSingleFrame_def Let_def isotp_inv_def split: if_splits)
qed

lemma stageRx_tx [simp]: "tx_inv (stageRx f t n s) = tx_inv s"
  by (simp add: stageRx_def Let_def)

lemma stageRx_simps [simp]:
  "config (stageRx f t n s) = config s"
  "rxState (stageRx f t n s) = RxReceiving"
  "rxMessageReady (stageRx f t n s) = rxMessageReady s"
  by (simp_all add: stageRx_def Let_def)

lemma stageRx_inv:
  assumes "rx_inv s" and "isConfigValid s" and "cf_length f = kClassicCanMaxPayload"
    and "7 < n" and "n \<le> maxPayload (config s)" and "\<not> rxMessageReady s"
  shows "rx_inv (stageRx f t n s)"
proof -
  have "unat (cf_length f) - 2 = 6" using assms(3) by (simp add: kClassicCanMaxPayload_def)
  moreover have "rxBlockSize (config s) \<noteq> 0 \<Longrightarrow> 0 < rxBlockSize (config s)"
    by (simp add: word_neq_0_conv)
  ultimately show ?thesis
    using assms isConfigValid_bounds [OF assms(2)]
    by (simp add: rx_inv_def stageRx_def kMaxPayload_def)
qed

lemma handleFirst_inv:
  assumes "isotp_inv s" and "isConfigValid s" and "handleFirstFrame E f t s w = (st, s1, w1)"
  shows "isotp_inv s1"
  using assms
  by (auto simp: handleFirstFrame_def Let_def isotp_inv_def split: if_splits prod.splits
        intro!: stageRx_inv resetRx_inv)

lemma appendCF_tx [simp]: "tx_inv (appendConsecutiveFrame f s) = tx_inv s"
  by (simp add: appendConsecutiveFrame_def Let_def)

lemma appendCF_simps [simp]:
  "config (appendConsecutiveFrame f s) = config s"
  "rxState (appendConsecutiveFrame f s) = rxState s"
  "rxExpectedLength (appendConsecutiveFrame f s) = rxExpectedLength s"
  "rxMessageReady (appendConsecutiveFrame f s) = rxMessageReady s"
  "rxMessageLength (appendConsecutiveFrame f s) = rxMessageLength s"
  "rxBlockCount (appendConsecutiveFrame f s) = rxBlockCount s + 1"
  "rxOffset (appendConsecutiveFrame f s) =
     rxOffset s + min (unat (cf_length f) - 1) (rxExpectedLength s - rxOffset s)"
  by (simp_all add: appendConsecutiveFrame_def Let_def)

lemma length_appendCF:
  "rx_inv s \<Longrightarrow> rxState s = RxReceiving \<Longrightarrow>
     length (rxPayload (appendConsecutiveFrame f s)) = kMaxPayload"
  using isConfigValid_bounds [of s]
  by (auto simp: appendConsecutiveFrame_def Let_def rx_inv_def)

lemma appendCF_more_inv:
  assumes "rx_inv s" and "rxState s = RxReceiving" and "2 \<le> cf_length f"
    and "rxOffset (appendConsecutiveFrame f s) \<noteq> rxExpectedLength s"
    and "rxBlockSize (config s) \<noteq> 0 \<Longrightarrow> b < rxBlockSize (config s)"
  shows "rx_inv ((appendConsecutiveFrame f s)\<lparr>rxDeadlineMs := d, rxBlockCount := b\<rparr>)"
    and "rx_inv ((appendConsecutiveFrame f s)\<lparr>rxBlockCount := b, rxDeadlineMs := d\<rparr>)"
proof -
  let ?s = "appendConsecutiveFrame f s"
  have bounds: "rxOffset s < rxExpectedLength s" "6 \<le> rxOffset s" "isConfigValid s"
    using assms(1,2) by (auto simp: rx_inv_def)
  have "rxOffset ?s < rxExpectedLength s"
    using bounds assms(4) by (auto simp: min_def split: if_splits)
  moreover have "6 \<le> rxOffset ?s" using bounds by simp
  moreover have "unat (rxExpectedSequence ?s) < 16"
    by (simp add: appendConsecutiveFrame_def Let_def unat_and_15)
  moreover have "isConfigValid ?s" using bounds(3) isConfigValid_config_cong [of ?s s] by simp
  ultimately show "rx_inv (?s\<lparr>rxDeadlineMs := d, rxBlockCount := b\<rparr>)"
    and "rx_inv (?s\<lparr>rxBlockCount := b, rxDeadlineMs := d\<rparr>)"
    using assms length_appendCF [OF assms(1,2), of f]
    unfolding rx_inv_def by simp_all
qed

lemma appendCF_done_inv:
  assumes "rx_inv s" and "rxState s = RxReceiving"
  shows "rx_inv (resetRxAssembly ((appendConsecutiveFrame f s)
           \<lparr>rxMessageLength := rxExpectedLength s, rxMessageReady := True\<rparr>))"
proof (rule resetRx_rx_inv)
  let ?s = "(appendConsecutiveFrame f s)
           \<lparr>rxMessageLength := rxExpectedLength s, rxMessageReady := True\<rparr>"
  show "length (rxPayload ?s) = kMaxPayload" using length_appendCF [OF assms, of f] by simp
  have "isConfigValid ?s"
    using assms isConfigValid_config_cong [of ?s s] by (simp add: rx_inv_def)
  then show "rxMessageReady ?s \<longrightarrow> isConfigValid ?s \<and> 0 < rxMessageLength ?s \<and>
      rxMessageLength ?s \<le> maxPayload (config ?s)"
    using assms by (auto simp: rx_inv_def)
qed simp

lemma block_not_full:
  fixes b c :: u8 shows "b < c \<Longrightarrow> \<not> c \<le> b + 1 \<Longrightarrow> b + 1 < c"
  by simp

lemma handleConsecutive_inv:
  assumes "isotp_inv s" and "handleConsecutiveFrame E f t s w = (st, s1, w1)"
  shows "isotp_inv s1"
proof (cases "rxState s = RxReceiving \<and> 2 \<le> cf_length f \<and>
    (cf_payload f ! 0) AND 15 = rxExpectedSequence s")
  case False
  with assms show ?thesis
    by (auto simp: handleConsecutiveFrame_def isotp_inv_def resetRx_inv not_less split: if_splits)
next
  case True
  from assms(1) have rx: "rx_inv s" and tx: "tx_inv s" by (auto simp: isotp_inv_def)
  let ?a = "appendConsecutiveFrame f s"
  show ?thesis
  proof (cases "rxOffset ?a = rxExpectedLength s")
    case all: True
    then show ?thesis
      using assms(2) True tx appendCF_done_inv [OF rx, of f]
      by (auto simp: handleConsecutiveFrame_def Let_def isotp_inv_def not_less
            simp del: appendCF_simps(7) split: if_splits)
  next
    case more: False
    have zero: "rxBlockSize (config s) \<noteq> 0 \<Longrightarrow> 0 < rxBlockSize (config s)"
      by (simp add: word_neq_0_conv)
    have i0: "rx_inv (?a\<lparr>rxDeadlineMs := d, rxBlockCount := 0\<rparr>)" for d
      by (rule appendCF_more_inv) (use rx True more zero in auto)
    have i1: "rx_inv (?a\<lparr>rxDeadlineMs := d\<rparr>)"
      if "rxBlockSize (config s) = 0 \<or> \<not> rxBlockSize (config s) \<le> rxBlockCount s + 1" for d
    proof -
      have "rx_inv (?a\<lparr>rxBlockCount := rxBlockCount s + 1, rxDeadlineMs := d\<rparr>)"
        by (rule appendCF_more_inv) (use rx True more that in auto)
      then show ?thesis by (simp add: appendConsecutiveFrame_def Let_def)
    qed
    show ?thesis
      using assms(2) True more tx i0 i1
      by (auto simp: handleConsecutiveFrame_def Let_def isotp_inv_def not_less resetRx_inv
            simp del: appendCF_simps(7) split: if_splits prod.splits)
  qed
qed

lemma handleFlow_inv:
  assumes "isotp_inv s" and "handleFlowControl f t s = (st, s1)"
  shows "isotp_inv s1"
proof -
  from assms(1) have tx: "tx_inv s" and rx: "rx_inv s" by (auto simp: isotp_inv_def)
  have "rx_inv (applyContinueToSend b m t s)" for b m
    using rx by (simp add: applyContinueToSend_def)
  moreover have "txState s = TxWaitFlowControl \<Longrightarrow> tx_inv (applyContinueToSend b m t s)" for b m
    using tx by (simp add: applyContinueToSend_def tx_inv_def)
  moreover have "txState s = TxWaitFlowControl \<Longrightarrow> txWaitCount s < maxWaitFrames (config s) \<Longrightarrow>
      tx_inv (s\<lparr>txWaitCount := txWaitCount s + 1, txDeadlineMs := d\<rparr>)" for d
    using tx by (simp add: tx_inv_def inc_le)
  ultimately show ?thesis
    using assms rx tx
    by (auto simp: handleFlowControl_def Let_def isotp_inv_def resetTx_inv not_le
          split: if_splits option.splits)
qed

lemma onCanFrame_inv:
  assumes "isotp_inv s" and "IsoTp_onCanFrame E f s w = (st, s1, w1)"
  shows "isotp_inv s1"
  using assms
  by (auto simp: IsoTp_onCanFrame_def Let_def split: if_splits prod.splits
        dest: handleSingle_inv handleFirst_inv handleConsecutive_inv handleFlow_inv)
    (auto simp: isotp_inv_def resetRx_inv resetTx_inv)

lemma isotp_step_inv: "isotp_inv (fst x) \<Longrightarrow> isotp_inv (fst (snd (isotp_step E e x)))"
  by (cases x; cases e)
    (auto split: prod.splits dest: startSend_inv poll_inv receive_inv discard_inv onCanFrame_inv)

lemma isotp_run_inv: "isotp_inv (fst x) \<Longrightarrow> isotp_inv (fst (isotp_run E es x))"
  by (induction es arbitrary: x) (simp_all add: isotp_step_inv)

section \<open>The configuration never changes\<close>

lemma handleSingle_config: "handleSingleFrame f s = (st, s1) \<Longrightarrow> config s1 = config s"
  by (auto simp: handleSingleFrame_def Let_def split: if_splits prod.splits option.splits)

lemma handleFirst_config: "handleFirstFrame E f t s w = (st, s1, w1) \<Longrightarrow> config s1 = config s"
  by (auto simp: handleFirstFrame_def Let_def split: if_splits prod.splits option.splits)

lemma handleConsecutive_config: "handleConsecutiveFrame E f t s w = (st, s1, w1) \<Longrightarrow> config s1 = config s"
  by (auto simp: handleConsecutiveFrame_def Let_def split: if_splits prod.splits option.splits)

lemma handleFlow_config: "handleFlowControl f t s = (st, s1) \<Longrightarrow> config s1 = config s"
  by (auto simp: handleFlowControl_def applyContinueToSend_def Let_def split: if_splits prod.splits option.splits)

lemma sendNext_config: "sendNextConsecutiveFrame E s w = (st, s1, w1) \<Longrightarrow> config s1 = config s"
  by (auto simp: sendNextConsecutiveFrame_def Let_def split: if_splits prod.splits option.splits)

lemma startSend_config: "IsoTp_startSend E p n s w = (st, s1, w1) \<Longrightarrow> config s1 = config s"
  by (auto simp: IsoTp_startSend_def Let_def split: if_splits prod.splits option.splits)

lemma receive_config: "IsoTp_receive b c s = (st, n, b1, s1) \<Longrightarrow> config s1 = config s"
  by (auto simp: IsoTp_receive_def Let_def split: if_splits prod.splits option.splits)

lemmas handle_config =
  handleSingle_config handleFirst_config handleConsecutive_config handleFlow_config
  sendNext_config startSend_config receive_config

lemma poll_config: "IsoTp_poll E s w = (st, s1, w1) \<Longrightarrow> config s1 = config s"
  by (auto simp: IsoTp_poll_def split: if_splits prod.splits dest: sendNext_config)

lemma onCanFrame_config: "IsoTp_onCanFrame E f s w = (st, s1, w1) \<Longrightarrow> config s1 = config s"
  by (auto simp: IsoTp_onCanFrame_def Let_def split: if_splits prod.splits
      dest: handleSingle_config handleFirst_config handleConsecutive_config handleFlow_config)

lemma isotp_step_config: "config (fst (snd (isotp_step E e x))) = config (fst x)"
proof (cases x)
  case (Pair s w)
  then show ?thesis
  proof (cases e)
    case (EvStartSend p n)
    with Pair show ?thesis by (auto split: prod.splits dest: startSend_config)
  next
    case EvPoll
    with Pair show ?thesis by (auto split: prod.splits dest: poll_config)
  next
    case (EvReceive b c)
    with Pair show ?thesis by (auto split: prod.splits dest: receive_config)
  next
    case EvDiscard
    with Pair show ?thesis by (simp add: IsoTp_discardPendingMessage_def)
  next
    case (EvCanFrame f)
    with Pair show ?thesis by (auto split: prod.splits dest: onCanFrame_config)
  qed (use Pair in simp)
qed

lemma isotp_run_config: "config (fst (isotp_run E es x)) = config (fst x)"
  by (induction es arbitrary: x) (simp_all add: isotp_step_config)

end
