(* ===== verification/IsoTp_Segmentation.thy ===== *)
theory IsoTp_Segmentation
  imports IsoTp_Invariant
begin

text \<open>
  The abstract segmentation of a payload into ISO-TP protocol data units, and the proof that the
  frames the transport builds (\<open>makeSingleFrame\<close>, \<open>makeFirstFrame\<close>, \<open>makeConsecutiveFrame\<close>) are
  exactly its units, one after the other. A log of the frames a CAN back end accepted then states
  what the sender puts on the bus over a whole run.
\<close>

section \<open>The abstract segmentation\<close>

function cf_pdus :: "nat \<Rightarrow> bytes \<Rightarrow> bytes list" where
  "cf_pdus k xs =
     (if xs = [] then [] else ((0x20 OR of_nat (k mod 16)) # take 7 xs) # cf_pdus (Suc k) (drop 7 xs))"
  by pat_completeness auto
termination
  by (relation "measure (\<lambda>(k, xs). length xs)") auto

declare cf_pdus.simps [simp del]

definition segment :: "bytes \<Rightarrow> bytes list" where
  "segment p =
     (if length p \<le> 7 then [of_nat (length p) # p]
      else ((0x10 OR of_nat (length p div 256)) # of_nat (length p mod 256) # take 6 p)
             # cf_pdus 1 (drop 6 p))"

text \<open>A unit in a CAN frame: the bytes, the length byte and zero padding of the data field.\<close>

definition pdu_frame :: "u32 \<Rightarrow> CanFrameFormat \<Rightarrow> bytes \<Rightarrow> CanFrame" where
  "pdu_frame i fmt bs =
     \<lparr>cf_id = i, cf_format = fmt, cf_length = of_nat (length bs),
      cf_payload = bs @ replicate (8 - length bs) 0, cf_timestamp = 0\<rparr>"

abbreviation tx_frame :: "IsoTpConfig \<Rightarrow> bytes \<Rightarrow> CanFrame" where
  "tx_frame cfg bs \<equiv> pdu_frame (txId cfg) (frameFormat cfg) bs"

lemma cf_pdus_Nil [simp]: "cf_pdus k [] = []"
  by (simp add: cf_pdus.simps)

lemma ceil_step:
  assumes "0 < n" shows "Suc ((n - 7 + 6) div 7) = (n + 6) div (7 :: nat)"
proof (cases "n \<le> 7")
  case True
  with assms have "(n + 6) div 7 = 1" by presburger
  with True show ?thesis by simp
next
  case False
  then have "n + 6 = (n - 7 + 6) + 7" by simp
  then have "(n + 6) div 7 = (n - 7 + 6) div 7 + 1" by (metis div_add_self2 zero_neq_numeral)
  then show ?thesis by simp
qed

lemma length_cf_pdus: "length (cf_pdus k xs) = (length xs + 6) div 7"
proof (induction k xs rule: cf_pdus.induct)
  case (1 k xs)
  show ?case
  proof (cases "xs = []")
    case False
    then have "length (cf_pdus k xs) = Suc ((length (drop 7 xs) + 6) div 7)"
      using 1 by (subst cf_pdus.simps) simp
    moreover have "0 < length xs" using False by simp
    ultimately show ?thesis by (simp add: ceil_step)
  qed simp
qed

lemma nth_cf_pdus:
  "7 * j < length xs \<Longrightarrow>
     cf_pdus k xs ! j = (0x20 OR of_nat ((k + j) mod 16)) # take 7 (drop (7 * j) xs)"
proof (induction k xs arbitrary: j rule: cf_pdus.induct)
  case (1 k xs)
  then have ne: "xs \<noteq> []" by auto
  show ?case
  proof (cases j)
    case 0
    with ne show ?thesis by (subst cf_pdus.simps) simp
  next
    case (Suc i)
    with 1(2) have "7 * i < length (drop 7 xs)" by simp
    with ne Suc 1(1) show ?thesis
      by (subst cf_pdus.simps) (simp add: add.commute)
  qed
qed

lemma length_segment: "length (segment p) = (if length p \<le> 7 then 1 else Suc (length p div 7))"
  by (simp add: segment_def length_cf_pdus)

lemma nth_segment_Suc:
  assumes "7 < length p" and "6 + 7 * k < length p"
  shows "segment p ! Suc k =
     (0x20 OR of_nat (Suc k mod 16)) # take 7 (drop (6 + 7 * k) p)"
  using assms by (simp add: segment_def nth_cf_pdus add.commute)

section \<open>The frames of the code are the units of the segmentation\<close>

lemma CanFrame_default_payload: "cf_payload CanFrame_default = replicate 8 0"
  by (simp add: CanFrame_default_def)

lemma header_bytes:
  assumes "n \<le> 4095"
  shows "(of_nat (drop_bit 8 n AND 15) :: u8) = of_nat (n div 256)"
    and "(of_nat (n AND 255) :: u8) = of_nat (n mod 256)"
proof -
  have "n div 256 < 16" using assms by simp
  then show "(of_nat (drop_bit 8 n AND 15) :: u8) = of_nat (n div 256)"
    by (simp add: and_15_nat drop_bit_eq_div)
  have "n AND 255 = n mod 256"
    using take_bit_eq_mask [of 8 n] by (simp add: take_bit_eq_mod mask_eq_exp_minus_1)
  then show "(of_nat (n AND 255) :: u8) = of_nat (n mod 256)" by simp
qed

text \<open>Filling the eight data bytes of a fresh frame.\<close>

lemma payload_head1:
  assumes "length bs \<le> 7"
  shows "blit ((replicate 8 (0 :: u8))[0 := h]) 1 bs = (h # bs) @ replicate (8 - length (h # bs)) 0"
proof -
  have "(replicate 8 (0 :: u8))[0 := h] = h # replicate 7 0"
    by (simp add: numeral_eq_Suc)
  then show ?thesis
    using assms by (simp add: blit_def drop_replicate)
qed

lemma payload_head2:
  assumes "length bs = 6"
  shows "blit ((replicate 8 (0 :: u8))[0 := a, 1 := b]) 2 bs = a # b # bs"
proof -
  have "(replicate 8 (0 :: u8))[0 := a, 1 := b] = a # b # replicate 6 0"
    by (simp add: numeral_eq_Suc)
  then show ?thesis using assms by (simp add: blit_def)
qed

lemma makeSingleFrame_segment:
  assumes "n \<le> 7" and "n \<le> length p"
  shows "makeSingleFrame s p n = tx_frame (config s) (hd (segment (take n p)))"
  using assms payload_head1 [of "take n p" "of_nat n"]
  by (simp add: makeSingleFrame_def makeTxFrame_def pdu_frame_def segment_def
      CanFrame_default_def)

lemma makeFirstFrame_segment:
  assumes "7 < n" and "n \<le> length p" and "n \<le> 4095"
  shows "makeFirstFrame s p n = tx_frame (config s) (hd (segment (take n p)))"
  using assms payload_head2 [of "take 6 p"] header_bytes [OF assms(3)]
  by (simp add: makeFirstFrame_def makeTxFrame_def pdu_frame_def segment_def
      CanFrame_default_def kClassicCanMaxPayload_def min_def)

lemma makeConsecutiveFrame_bytes:
  assumes "length (take n (drop (txOffset s) (txPayload s))) = n" and "n \<le> 7"
  shows "makeConsecutiveFrame s n =
    tx_frame (config s) ((0x20 OR txSequence s) # take n (drop (txOffset s) (txPayload s)))"
proof -
  let ?d = "take n (drop (txOffset s) (txPayload s))"
  have "length ?d \<le> 7" using assms by simp
  from payload_head1 [OF this, of "0x20 OR txSequence s"] assms(1) show ?thesis
    by (simp add: makeConsecutiveFrame_def makeTxFrame_def pdu_frame_def
        CanFrame_default_def del: length_take length_drop)
qed

lemma makeConsecutiveFrame_segment:
  assumes inv: "tx_inv s" and q: "txState s \<noteq> TxIdle"
  defines "p \<equiv> take (txLength s) (txPayload s)"
  shows "makeConsecutiveFrame s (min 7 (txLength s - txOffset s)) =
    tx_frame (config s) (segment p ! Suc (tx_sent s))"
proof -
  let ?n = "min 7 (txLength s - txOffset s)"
  from inv q have b: "8 \<le> txLength s" "txOffset s < txLength s" "txLength s \<le> kMaxPayload"
    "txOffset s = 6 + 7 * tx_sent s" "txSequence s = of_nat (Suc (tx_sent s) mod 16)"
    "length (txPayload s) = kMaxPayload"
    using isConfigValid_bounds [of s] by (auto simp: tx_inv_def)
  then have len: "length p = txLength s" by (simp add: p_def)
  let ?d = "take ?n (drop (txOffset s) (txPayload s))"
  have d: "?d = take 7 (drop (txOffset s) p)"
    by (simp add: p_def drop_take min_def)
  have ld: "length ?d = ?n" using b by simp
  have "segment p ! Suc (tx_sent s) = (0x20 OR txSequence s) # ?d"
    unfolding d using b len by (subst nth_segment_Suc) simp_all
  with makeConsecutiveFrame_bytes [OF ld] show ?thesis by simp
qed

end
