(* ===== verification/IsoTp_Sender.thy ===== *)
theory IsoTp_Sender
  imports IsoTp_Segmentation
begin

text \<open>
  What the transport puts on the bus. \<open>log_env E\<close> is any environment \<open>E\<close> with a log of the frames
  its back end accepted (status \<open>Ok\<close>); nothing is assumed of \<open>E\<close>. Over any run, the data frames in
  the log are a prefix of the segmentation of the payload given to \<open>startSend\<close>, and the whole of it
  when the transport reports \<open>Complete\<close>.
\<close>

section \<open>An environment with a log\<close>

definition log_env :: "'w env \<Rightarrow> ('w \<times> CanFrame list) env" where
  "log_env E =
     \<lparr>env_can =
        \<lparr>hal_initialize = (\<lambda>c (w, l). case hal_initialize (env_can E) c w of (st, w1) \<Rightarrow> (st, w1, l)),
         hal_stop = (\<lambda>(w, l). case hal_stop (env_can E) w of (st, w1) \<Rightarrow> (st, w1, l)),
         hal_send = (\<lambda>f (w, l). case hal_send (env_can E) f w of
            (st, w1) \<Rightarrow> (st, w1, if st = CanOk then l @ [f] else l)),
         hal_receive = (\<lambda>f (w, l). case hal_receive (env_can E) f w of
            (st, f1, w1) \<Rightarrow> (st, f1, w1, l))\<rparr>,
      env_clock = (\<lambda>(w, l). case env_clock E w of (t, w1) \<Rightarrow> (t, w1, l))\<rparr>"

fun log_event :: "'w isotp_event \<Rightarrow> ('w \<times> CanFrame list) isotp_event" where
  "log_event (EvStartSend p n) = EvStartSend p n"
| "log_event EvPoll = EvPoll"
| "log_event (EvReceive b c) = EvReceive b c"
| "log_event EvDiscard = EvDiscard"
| "log_event (EvCanFrame f) = EvCanFrame f"
| "log_event (EvWorld g) = EvWorld (\<lambda>(w, l). (g w, l))"

fun is_start :: "'w isotp_event \<Rightarrow> bool" where
  "is_start (EvStartSend p n) = True"
| "is_start _ = False"

definition is_flow_control :: "CanFrame \<Rightarrow> bool" where
  "is_flow_control f \<longleftrightarrow> drop_bit 4 (cf_payload f ! 0) = 3"

definition data_frames :: "CanFrame list \<Rightarrow> CanFrame list" where
  "data_frames l = filter (\<lambda>f. \<not> is_flow_control f) l"

lemma mapCanStatus_complete [simp]: "mapCanStatus st = TsComplete \<longleftrightarrow> st = CanOk"
  by (cases st) simp_all

lemma mapCanStatus_busy [simp]: "mapCanStatus st = TsTxBusy \<longleftrightarrow> st = CanTxBusy"
  by (cases st) simp_all

lemma sendFrame_log:
  "sendFrame (log_env E) f (w, l) = (st, w1, l1) \<Longrightarrow>
     l1 = (if st = TsComplete then l @ [f] else l)"
  by (auto simp: sendFrame_def log_env_def split: prod.splits if_splits)

lemma clock_log: "env_clock (log_env E) (w, l) = (t, w1, l1) \<Longrightarrow> l1 = l"
  by (auto simp: log_env_def split: prod.splits)

lemma makeFlowControlFrame_flow:
  "fs = 0 \<or> fs = 2 \<Longrightarrow> is_flow_control (makeFlowControlFrame s fs)"
  by (auto simp: is_flow_control_def makeFlowControlFrame_def makeTxFrame_def Let_def)

lemma sendFlowControl_log:
  "fs = 0 \<or> fs = 2 \<Longrightarrow> sendFlowControl (log_env E) fs s (w, l) = (st, w1, l1) \<Longrightarrow>
     data_frames l1 = data_frames l"
  unfolding sendFlowControl_def
  by (drule sendFrame_log) (simp add: data_frames_def makeFlowControlFrame_flow)

lemma segment_not_flow:
  assumes "length p \<le> 4095" and "k < length (segment p)"
  shows "\<not> is_flow_control (pdu_frame i fmt (segment p ! k))"
proof (cases k)
  case 0
  have n: "length p \<le> 7 \<Longrightarrow> length p < 16" "length p div 256 < 16" using assms(1) by simp_all
  from 0 show ?thesis
    using high_nibble_or [OF n(2), of 16] u8_of_nat_nibble [of "length p"]
    by (auto simp: is_flow_control_def pdu_frame_def segment_def)
next
  case (Suc j)
  with assms have big: "7 < length p" "j < length p div 7"
    by (auto simp: length_segment split: if_splits)
  then have "6 + 7 * j < length p" by linarith
  with big Suc show ?thesis
    using high_nibble_or [of "Suc j mod 16" 32]
    by (simp add: nth_segment_Suc is_flow_control_def pdu_frame_def)
qed

section \<open>The sender's log invariant\<close>

definition tx_log :: "bytes \<Rightarrow> IsoTp \<Rightarrow> CanFrame list \<Rightarrow> bool" where
  "tx_log p s l \<longleftrightarrow>
     (\<exists>k \<le> length (segment p).
        data_frames l = map (tx_frame (config s)) (take k (segment p)) \<and>
        (txState s \<noteq> TxIdle \<longrightarrow>
           take (txLength s) (txPayload s) = p \<and> k = Suc (tx_sent s)))"

lemma tx_log_weaken:
  assumes "tx_log p s l" and "config s1 = config s" and "data_frames l1 = data_frames l"
    and "txState s1 \<noteq> TxIdle \<Longrightarrow> txState s \<noteq> TxIdle \<and> txLength s1 = txLength s \<and>
       txPayload s1 = txPayload s \<and> txOffset s1 = txOffset s"
  shows "tx_log p s1 l1"
  using assms unfolding tx_log_def tx_sent_def by auto

definition tx_view :: "IsoTp \<Rightarrow> IsoTpConfig \<times> TxState \<times> nat \<times> bytes \<times> nat" where
  "tx_view s = (config s, txState s, txLength s, txPayload s, txOffset s)"

lemma tx_log_view:
  assumes "tx_log p s l" and "tx_view s1 = tx_view s" and "data_frames l1 = data_frames l"
  shows "tx_log p s1 l1"
  by (rule tx_log_weaken [OF assms(1)]) (use assms in \<open>auto simp: tx_view_def\<close>)

lemma tx_log_reset: "tx_log p s l \<Longrightarrow> data_frames l1 = data_frames l \<Longrightarrow> tx_log p (resetTx s) l1"
  by (erule tx_log_weaken) (simp_all add: resetTx_def)

lemma tx_view_rx [simp]:
  "tx_view (resetRxAssembly s) = tx_view s"
  "tx_view (stageRx f t n s) = tx_view s"
  "tx_view (appendConsecutiveFrame f s) = tx_view s"
  "tx_view (IsoTp_discardPendingMessage s) = tx_view s"
  by (simp_all add: tx_view_def resetRxAssembly_def stageRx_def appendConsecutiveFrame_def
      IsoTp_discardPendingMessage_def Let_def)

lemma tx_view_rx_updates [simp]:
  "tx_view (s\<lparr>rxDeadlineMs := a\<rparr>) = tx_view s"
  "tx_view (s\<lparr>rxBlockCount := b\<rparr>) = tx_view s"
  "tx_view (s\<lparr>rxMessageLength := c\<rparr>) = tx_view s"
  "tx_view (s\<lparr>rxMessageReady := d\<rparr>) = tx_view s"
  "tx_view (s\<lparr>rxPayload := e\<rparr>) = tx_view s"
  by (simp_all add: tx_view_def)

lemma handleFirst_log:
  "handleFirstFrame (log_env E) f t s (w, l) = (st, s1, w1, l1) \<Longrightarrow>
     tx_view s1 = tx_view s \<and> data_frames l1 = data_frames l"
  by (auto simp: handleFirstFrame_def Let_def split: if_splits prod.splits
      dest: sendFlowControl_log [rotated])

lemma handleConsecutive_log:
  "handleConsecutiveFrame (log_env E) f t s (w, l) = (st, s1, w1, l1) \<Longrightarrow>
     tx_view s1 = tx_view s \<and> data_frames l1 = data_frames l"
  by (auto simp: handleConsecutiveFrame_def Let_def split: if_splits prod.splits
      dest: sendFlowControl_log [rotated])

lemma handleSingle_view: "handleSingleFrame f s = (st, s1) \<Longrightarrow> tx_view s1 = tx_view s"
  by (auto simp: handleSingleFrame_def Let_def split: if_splits)

lemma receive_view: "IsoTp_receive b c s = (st, n, b1, s1) \<Longrightarrow> tx_view s1 = tx_view s"
  by (auto simp: IsoTp_receive_def Let_def split: if_splits option.splits)

lemma handleFlow_log:
  assumes "tx_log p s l" and "handleFlowControl f t s = (st, s1)"
  shows "tx_log p s1 l"
  by (rule tx_log_weaken [OF assms(1)])
    (use assms(2) in \<open>auto simp: handleFlowControl_def applyContinueToSend_def resetTx_def Let_def
       split: if_splits option.splits\<close>)

lemma onCanFrame_log:
  assumes "tx_log p s l" and "IsoTp_onCanFrame (log_env E) f s (w, l) = (st, s1, w1, l1)"
  shows "tx_log p s1 l1"
proof (cases "s1 = s \<and> l1 = l")
  case False
  obtain t v m where t: "env_clock (log_env E) (w, l) = (t, v, m)" by (metis prod_cases3)
  then have m: "m = l" by (rule clock_log)
  consider "s1 = resetRxAssembly s" "l1 = l" | "s1 = resetTx s" "l1 = l"
    | "handleSingleFrame f s = (st, s1)" "l1 = l"
    | "handleFirstFrame (log_env E) f t s (v, l) = (st, s1, w1, l1)"
    | "handleConsecutiveFrame (log_env E) f t s (v, l) = (st, s1, w1, l1)"
    | "handleFlowControl f t s = (st, s1)" "l1 = l"
    using assms(2) t m False
    by (auto simp: IsoTp_onCanFrame_def Let_def split: if_splits prod.splits)
  then show ?thesis
    by cases (auto intro: tx_log_view [OF assms(1)] tx_log_reset [OF assms(1)]
        handleFlow_log [OF assms(1)] dest: handleSingle_view handleFirst_log handleConsecutive_log)
qed (use assms in simp)

section \<open>Sending a consecutive frame\<close>

lemma sendNext_accepted:
  assumes "sendNextConsecutiveFrame E s w = (st, s1, w1)"
    and n: "min 7 (txLength s - txOffset s) = n"
    and "sendFrame E (makeConsecutiveFrame s n) w = (TsComplete, v)"
    and "env_clock E v = (t, u)" and "txOffset s + n \<noteq> txLength s"
  shows "st = TsInProgress \<and> w1 = u \<and> config s1 = config s \<and> txLength s1 = txLength s \<and>
    txPayload s1 = txPayload s \<and> txOffset s1 = txOffset s + n"
  using assms(1,3-5) unfolding sendNextConsecutiveFrame_def n Let_def
  by (auto split: if_splits)

lemma sendNext_log:
  assumes inv: "isotp_inv s" and q: "txState s = TxSending" and log: "tx_log p s l"
    and run: "sendNextConsecutiveFrame (log_env E) s (w, l) = (st, s1, w1, l1)"
  shows "tx_log p s1 l1 \<and>
    (st = TsComplete \<longrightarrow> data_frames l1 = map (tx_frame (config s)) (segment p))"
proof -
  from inv have tx: "tx_inv s" by (simp add: isotp_inv_def)
  from tx q have b: "txOffset s = 6 + 7 * tx_sent s" "txOffset s < txLength s" "8 \<le> txLength s"
    "txLength s \<le> 4095" "length (txPayload s) = 4095"
    using isConfigValid_bounds [of s] by (auto simp: tx_inv_def kMaxPayload_def)
  from log q have p: "take (txLength s) (txPayload s) = p"
    and d: "data_frames l = map (tx_frame (config s)) (take (Suc (tx_sent s)) (segment p))"
    by (auto simp: tx_log_def)
  let ?n = "min 7 (txLength s - txOffset s)"
  let ?f = "makeConsecutiveFrame s ?n"
  from p b have len: "length p = txLength s" by auto
  have f: "?f = tx_frame (config s) (segment p ! Suc (tx_sent s))"
    using makeConsecutiveFrame_segment [OF tx] q p by simp
  have k: "Suc (tx_sent s) < length (segment p)"
    using b len by (simp add: length_segment)
  have nf: "\<not> is_flow_control ?f" unfolding f by (rule segment_not_flow) (use b len k in auto)
  have d1: "data_frames (l @ [?f]) = map (tx_frame (config s)) (take (Suc (Suc (tx_sent s))) (segment p))"
    using d nf k by (simp add: data_frames_def take_Suc_conv_app_nth f)
  obtain r v m where r: "sendFrame (log_env E) ?f (w, l) = (r, v, m)" by (metis prod_cases3)
  obtain t v' m' where t: "env_clock (log_env E) (v, m) = (t, v', m')" by (metis prod_cases3)
  from sendFrame_log [OF r] clock_log [OF t]
  have m: "m = (if r = TsComplete then l @ [?f] else l)" and m': "m' = m" by simp_all
  consider (fail) "r \<noteq> TsComplete" | (last) "r = TsComplete" "txOffset s + ?n = txLength s"
    | (more) "r = TsComplete" "txOffset s + ?n \<noteq> txLength s" by blast
  then show ?thesis
  proof cases
    case fail
    then have "s1 = s \<or> s1 = resetTx s" "l1 = l" "st \<noteq> TsComplete"
      using run r m by (auto simp: sendNextConsecutiveFrame_def Let_def split: if_splits)
    with log tx_log_reset [OF log, of l] show ?thesis by auto
  next
    case last
    then have "txLength s \<le> txOffset s + 7" by simp
    then have "Suc (Suc (tx_sent s)) = length (segment p)"
      using b(1-3) len k by (simp add: length_segment)
    then have all: "data_frames m = map (tx_frame (config s)) (segment p)"
      using d1 m last by simp
    have "s1 = resetTx (acceptConsecutiveFrame t ?n s)" "l1 = m"
      using run r t m' last by (auto simp: sendNextConsecutiveFrame_def Let_def)
    with all show ?thesis
      by (auto simp: tx_log_def resetTx_def intro!: exI [of _ "length (segment p)"])
  next
    case more
    with not_last_copy [OF tx] q have n7: "?n = 7" by simp
    from more(1) r n7 have r7: "sendFrame (log_env E) (makeConsecutiveFrame s 7) (w, l) = (TsComplete, v, m)"
      by simp
    have st: "st = TsInProgress" and l1: "l1 = m" and s1: "config s1 = config s"
      "txLength s1 = txLength s" "txPayload s1 = txPayload s" "txOffset s1 = txOffset s + 7"
      using sendNext_accepted [OF run n7 r7 t] more n7 m' by auto
    have "tx_sent s1 = Suc (tx_sent s)" by (rule tx_sent_eq) (use s1(4) b(1) in simp)
    then have "tx_log p s1 l1"
      using d1 m more l1 s1 p k by (auto simp: tx_log_def intro!: exI [of _ "Suc (Suc (tx_sent s))"])
    with st show ?thesis by simp
  qed
qed

section \<open>Every event keeps the sender's log invariant\<close>

lemma poll_log:
  assumes inv: "isotp_inv s" and log: "tx_log p s l"
    and run: "IsoTp_poll (log_env E) s (w, l) = (st, s1, w1, l1)"
  shows "tx_log p s1 l1 \<and>
    (st = TsComplete \<longrightarrow> data_frames l1 = map (tx_frame (config s)) (segment p))"
proof -
  obtain t v m where t: "env_clock (log_env E) (w, l) = (t, v, m)" by (metis prod_cases3)
  then have m: "m = l" by (rule clock_log)
  consider "txState s = TxSending" "sendNextConsecutiveFrame (log_env E) s (v, l) = (st, s1, w1, l1)"
    | "st \<noteq> TsComplete" "s1 = s \<or> s1 = resetRxAssembly s \<or> s1 = resetTx s" "l1 = l"
    using run t m by (auto simp: IsoTp_poll_def split: if_splits)
  then show ?thesis
    by cases (auto dest: sendNext_log [OF inv _ log] intro: tx_log_view [OF log]
        tx_log_reset [OF log] log)
qed

lemma isotp_step_log:
  assumes "isotp_inv s" and "tx_log p s l" and "\<not> is_start e"
    and "isotp_step (log_env E) (log_event e) (s, w, l) = (st, s1, w1, l1)"
  shows "tx_log p s1 l1"
  using assms
  by (cases e)
    (auto split: prod.splits dest: poll_log receive_view onCanFrame_log intro: tx_log_view)

lemma isotp_run_log:
  assumes "isotp_inv s" and "tx_log p s l" and "list_all (\<lambda>e. \<not> is_start e) es"
    and "isotp_run (log_env E) (map log_event es) (s, w, l) = (s1, w1, l1)"
  shows "tx_log p s1 l1 \<and> isotp_inv s1 \<and> config s1 = config s"
  using assms
proof (induction es arbitrary: s w l)
  case (Cons e es)
  obtain st s' w' l' where e: "isotp_step (log_env E) (log_event e) (s, w, l) = (st, s', w', l')"
    by (metis prod_cases4)
  have "tx_log p s' l'" using Cons.prems(1-3) e by (auto intro: isotp_step_log)
  moreover have "isotp_inv s'"
    using isotp_step_inv [of "(s, w, l)" "log_env E" "log_event e"] Cons.prems(1) e by simp
  moreover have "config s' = config s"
    using isotp_step_config [of "log_env E" "log_event e" "(s, w, l)"] e by simp
  ultimately show ?case using Cons.IH [of s' l' w'] Cons.prems(3,4) e by simp
qed simp

lemma tx_log_start:
  assumes "txState s = TxIdle" shows "tx_log p s []"
  using assms by (auto simp: tx_log_def data_frames_def)

lemma startSend_log:
  assumes inv: "isotp_inv s" and idle: "txState s = TxIdle" and n: "n \<le> length p"
    and run: "IsoTp_startSend (log_env E) (Some p) n s (w, []) = (st, s1, w1, l1)"
  shows "tx_log (take n p) s1 l1 \<and> config s1 = config s \<and>
    (st = TsComplete \<longrightarrow> data_frames l1 = map (tx_frame (config s)) (segment (take n p)))"
proof -
  let ?q = "take n p"
  consider (reject) "s1 = s" "l1 = []" "st \<noteq> TsComplete"
    | (single) "s1 = s" "0 < n" "n \<le> 7"
        "sendFrame (log_env E) (makeSingleFrame s p n) (w, []) = (st, w1, l1)"
    | (first) "7 < n" "n \<le> kMaxPayload"
    using run idle by (auto simp: IsoTp_startSend_def Let_def split: if_splits prod.splits)
  then show ?thesis
  proof cases
    case reject
    with tx_log_start [OF idle] show ?thesis by simp
  next
    case single
    have f: "makeSingleFrame s p n = tx_frame (config s) (segment ?q ! 0)"
      using makeSingleFrame_segment [of n p s] single n by (simp add: segment_def)
    have one: "length (segment ?q) = 1" using single n by (simp add: length_segment)
    have nf: "\<not> is_flow_control (tx_frame (config s) (segment ?q ! 0))"
      by (rule segment_not_flow) (use one single in auto)
    have l1: "l1 = (if st = TsComplete then [makeSingleFrame s p n] else [])"
      using sendFrame_log [OF single(4)] by simp
    obtain x where x: "segment ?q = [x]" using one by (auto simp: length_Suc_conv)
    show ?thesis
      using l1 idle single(1) nf f
      by (auto simp: tx_log_def data_frames_def x intro: exI [of _ "Suc 0"] exI [of _ 0])
  next
    case first
    let ?s = "stageTx p n s"
    have len: "length (txPayload s) = kMaxPayload" using inv by (simp add: isotp_inv_def tx_inv_def)
    have f: "makeFirstFrame ?s p n = tx_frame (config s) (segment ?q ! 0)"
      using makeFirstFrame_segment [of n p ?s] first n by (simp add: segment_def kMaxPayload_def)
    have ne: "0 < length (segment ?q)" by (simp add: length_segment)
    have nf: "\<not> is_flow_control (tx_frame (config s) (segment ?q ! 0))"
      by (rule segment_not_flow) (use ne first in \<open>auto simp: kMaxPayload_def\<close>)
    have pay: "take (txLength ?s) (txPayload ?s) = ?q" "tx_sent ?s = 0"
      using first n len by (simp_all add: stageTx_def blit_def tx_sent_def)
    have hd1: "take (Suc 0) (segment ?q) = [segment ?q ! 0]"
      using ne by (cases "segment ?q") simp_all
    show ?thesis
      using run idle first f nf pay ne hd1
      by (auto simp: IsoTp_startSend_def Let_def tx_log_def data_frames_def resetTx_def
          Suc_le_eq split: if_splits prod.splits dest!: sendFrame_log clock_log)
  qed
qed

end
