(* ===== verification/IsoTp_Receiver.thy ===== *)
theory IsoTp_Receiver
  imports IsoTp_Sender
begin

text \<open>
  Reassembly: what the receive side makes of the units of a segmentation. The contract a CAN back
  end and clock must meet for that (frames are accepted, reading the clock changes nothing) is the
  locale \<open>reliable_can\<close>; its lemmas are the receiver's and sender's steps over such a back end.
\<close>

section \<open>Reading a unit out of a frame\<close>

lemma pdu_frame_simps [simp]:
  "cf_id (pdu_frame i fmt bs) = i"
  "cf_format (pdu_frame i fmt bs) = fmt"
  "length bs \<le> 8 \<Longrightarrow> unat (cf_length (pdu_frame i fmt bs)) = length bs"
  "bs \<noteq> [] \<Longrightarrow> cf_payload (pdu_frame i fmt bs) ! 0 = hd bs"
  by (simp_all add: pdu_frame_def u8_of_nat_eq nth_append hd_conv_nth)

lemma pdu_frame_valid:
  assumes "length bs \<le> 8" and "bs \<noteq> []"
    and "CanFrame_isValid (CanFrame_default\<lparr>cf_id := i, cf_format := fmt\<rparr>)"
  shows "CanFrame_isValid (pdu_frame i fmt bs)" and "cf_length (pdu_frame i fmt bs) \<noteq> 0"
proof -
  have u: "unat (cf_length (pdu_frame i fmt bs)) = length bs" using assms(1) by simp
  then have "cf_length (pdu_frame i fmt bs) \<le> 8"
    using assms(1) by (simp add: word_le_nat_alt)
  then show "CanFrame_isValid (pdu_frame i fmt bs)"
    using assms(3) by (auto simp: CanFrame_isValid_def kClassicCanMaxPayload_def not_less split: if_splits)
  show "cf_length (pdu_frame i fmt bs) \<noteq> 0" using u assms(2) by auto
qed

lemma push_or_nat:
  fixes a b :: nat assumes "b < 256" shows "push_bit 8 a OR b = 256 * a + b"
proof -
  let ?r = "push_bit 8 a OR b"
  have "take_bit 8 b = b" using assms by (simp add: take_bit_eq_mod)
  then have "take_bit 8 ?r = b" by (simp add: take_bit_push_bit)
  moreover have "drop_bit 8 b = 0" using assms by (simp add: drop_bit_eq_div)
  then have "drop_bit 8 ?r = a" by (simp add: drop_bit_or) (simp add: push_bit_eq_mult drop_bit_eq_div)
  ultimately show ?thesis using bits_ident [of 8 ?r] by (simp add: push_bit_eq_mult)
qed

text \<open>The first unit announces the payload's length and carries its first six bytes.\<close>

lemma first_unit:
  fixes i :: u32 and fmt :: CanFrameFormat
  assumes "7 < length q" and "length q \<le> 4095"
  defines "f \<equiv> pdu_frame i fmt (segment q ! 0)"
  shows "cf_length f = kClassicCanMaxPayload" and "firstFrameLength f = length q"
    and "take 6 (drop 2 (cf_payload f)) = take 6 q" and "drop_bit 4 (cf_payload f ! 0) AND 0x0F = 1"
proof -
  let ?a = "length q div 256" and ?b = "length q mod 256"
  have a: "?a < 16" and b: "?b < 256" using assms(2) by simp_all
  have seg: "segment q ! 0 = (0x10 OR of_nat ?a) # of_nat ?b # take 6 q"
    using assms(1) by (simp add: segment_def)
  have pay: "cf_payload f = (0x10 OR of_nat ?a) # of_nat ?b # take 6 q"
    using assms(1) by (simp add: f_def pdu_frame_def seg)
  show "cf_length f = kClassicCanMaxPayload"
    using assms(1) by (simp add: f_def pdu_frame_def seg kClassicCanMaxPayload_def)
  show "take 6 (drop 2 (cf_payload f)) = take 6 q" by (simp add: pay)
  have "unat ((0x10 OR of_nat ?a :: u8) AND 15) = ?a"
    using low_nibble_or [OF a, of 16] a by (simp add: u8_of_nat_eq)
  then show "firstFrameLength f = length q"
    using b push_or_nat [OF b, of ?a]
    by (simp add: firstFrameLength_def pay u8_of_nat_eq)
  show "drop_bit 4 (cf_payload f ! 0) AND 0x0F = 1"
    using high_nibble_or [OF a, of 16] by (simp add: pay shift_4_and_15)
qed

text \<open>The unit after \<open>k\<close> consecutive ones carries sequence number \<open>k + 1\<close> and the next bytes.\<close>

lemma next_unit:
  fixes i :: u32 and fmt :: CanFrameFormat
  assumes "7 < length q" and "6 + 7 * k < length q"
  defines "n \<equiv> min 7 (length q - (6 + 7 * k))"
  defines "f \<equiv> pdu_frame i fmt (segment q ! Suc k)"
  shows "unat (cf_length f) = Suc n" and "cf_payload f ! 0 AND 0x0F = of_nat (Suc k mod 16)"
    and "take n (drop 1 (cf_payload f)) = take n (drop (6 + 7 * k) q)"
    and "drop_bit 4 (cf_payload f ! 0) AND 0x0F = 2"
proof -
  let ?h = "0x20 OR of_nat (Suc k mod 16) :: u8"
  let ?d = "take 7 (drop (6 + 7 * k) q)"
  have seg: "segment q ! Suc k = ?h # ?d" using assms(1,2) by (rule nth_segment_Suc)
  have ld: "length ?d = n" by (simp add: n_def)
  then have ln: "n \<le> 7" by (simp add: n_def)
  have pay: "cf_payload f = ?h # ?d @ replicate (7 - n) 0"
    by (simp add: f_def pdu_frame_def seg n_def)
  show "unat (cf_length f) = Suc n"
    using ln ld by (simp add: f_def seg del: length_take length_drop)
  show "take n (drop 1 (cf_payload f)) = take n (drop (6 + 7 * k) q)"
    using ln by (simp add: pay ld del: length_take length_drop)
  show "cf_payload f ! 0 AND 0x0F = of_nat (Suc k mod 16)"
    unfolding pay using low_nibble_or [of "Suc k mod 16" 32] by simp
  show "drop_bit 4 (cf_payload f ! 0) AND 0x0F = 2"
    unfolding pay using high_nibble_or [of "Suc k mod 16" 32] by (simp add: shift_4_and_15)
qed

section \<open>Partially received messages\<close>

definition rx_holds :: "bytes \<Rightarrow> nat \<Rightarrow> IsoTp \<Rightarrow> bool" where
  "rx_holds q k s \<longleftrightarrow>
     rxState s = RxReceiving \<and> rxExpectedLength s = length q \<and> rxOffset s = 6 + 7 * k \<and>
     take (rxOffset s) (rxPayload s) = take (rxOffset s) q \<and>
     rxExpectedSequence s = of_nat (Suc k mod 16)"

lemma rx_holds_bounds:
  assumes "isotp_inv s" and "rx_holds q k s"
  shows "7 < length q" and "6 + 7 * k < length q" and "length q \<le> 4095"
    and "length (rxPayload s) = 4095" and "\<not> rxMessageReady s" and "isConfigValid s"
  using assms isConfigValid_bounds [of s]
  by (auto simp: isotp_inv_def rx_inv_def rx_holds_def kMaxPayload_def)

lemma stageRx_holds:
  assumes "7 < length q" and "length q \<le> 4095" and "rx_inv s"
  shows "rx_holds q 0 (stageRx (pdu_frame i fmt (segment q ! 0)) t (length q) s)"
proof -
  note u = first_unit [OF assms(1,2), of i fmt]
  have "length (rxPayload s) = 4095" using assms(3) by (simp add: rx_inv_def kMaxPayload_def)
  moreover have "unat (cf_length (pdu_frame i fmt (segment q ! 0))) - 2 = 6"
    by (simp add: u(1) kClassicCanMaxPayload_def del: pdu_frame_simps)
  ultimately show ?thesis
    using assms(1) u(3)
    by (simp add: rx_holds_def stageRx_def blit_def del: pdu_frame_simps)
qed

lemma append_offset:
  assumes "isotp_inv s" and "rx_holds q k s"
  shows "rxOffset (appendConsecutiveFrame (pdu_frame i fmt (segment q ! Suc k)) s) =
      6 + 7 * k + min 7 (length q - (6 + 7 * k))"
    and "take (6 + 7 * k + min 7 (length q - (6 + 7 * k)))
        (rxPayload (appendConsecutiveFrame (pdu_frame i fmt (segment q ! Suc k)) s)) =
      take (6 + 7 * k + min 7 (length q - (6 + 7 * k))) q"
proof -
  let ?n = "min 7 (length q - (6 + 7 * k))"
  let ?f = "pdu_frame i fmt (segment q ! Suc k)"
  note b = rx_holds_bounds [OF assms]
  note u = next_unit [OF b(1,2), of i fmt]
  have s: "rxExpectedLength s = length q" "rxOffset s = 6 + 7 * k"
    "take (6 + 7 * k) (rxPayload s) = take (6 + 7 * k) q"
    using assms(2) by (auto simp: rx_holds_def)
  have len: "min (unat (cf_length ?f) - 1) (rxExpectedLength s - rxOffset s) = ?n"
    by (simp add: u(1) s del: pdu_frame_simps)
  then show "rxOffset (appendConsecutiveFrame ?f s) = 6 + 7 * k + ?n" by (simp add: s)
  let ?d = "take ?n (drop (6 + 7 * k) q)"
  have pay: "rxPayload (appendConsecutiveFrame ?f s) = blit (rxPayload s) (6 + 7 * k) ?d"
    using len u(3) by (simp add: appendConsecutiveFrame_def Let_def s del: pdu_frame_simps)
  have ld: "length ?d = ?n" by simp
  have "take (6 + 7 * k + length ?d) (blit (rxPayload s) (6 + 7 * k) ?d) = take (6 + 7 * k) q @ ?d"
    using b s(3) by (subst take_blit_prefix) auto
  also have "\<dots> = take (6 + 7 * k + ?n) q" by (rule take_drop_append_step)
  finally show "take (6 + 7 * k + ?n) (rxPayload (appendConsecutiveFrame ?f s)) =
      take (6 + 7 * k + ?n) q" unfolding pay ld .
qed

end
