(* ===== verification/Mock_Platform.thy ===== *)
theory Mock_Platform
  imports Can_Types
begin

text \<open>
  The repository's own CAN back end and clock for the host (\<open>tests/host/mock_can.h\<close>,
  \<open>tests/host/fake_clock.h\<close>), as an environment whose world is the pair of the mock and the time.
\<close>

record MockCan =
  mc_initialized :: bool
  mc_failNextTx :: bool
  mc_failInitialization :: bool
  mc_hasNextTxStatus :: bool
  mc_nextTxStatus :: CanStatus
  mc_rxFrames :: "CanFrame list"
  mc_txFrames :: "CanFrame list"

definition MockCan_init :: MockCan where
  "MockCan_init =
     \<lparr>mc_initialized = False, mc_failNextTx = False, mc_failInitialization = False,
      mc_hasNextTxStatus = False, mc_nextTxStatus = CanOk, mc_rxFrames = [], mc_txFrames = []\<rparr>"

definition MockCan_initialize :: "HardwareConfig \<Rightarrow> MockCan \<Rightarrow> CanStatus \<times> MockCan" where
  "MockCan_initialize c m =
     (let m1 = m\<lparr>mc_initialized := \<not> mc_failInitialization m\<rparr>
      in (if mc_initialized m1 then CanOk else CanInvalidConfig, m1))"

definition MockCan_stop :: "MockCan \<Rightarrow> CanStatus \<times> MockCan" where
  "MockCan_stop m = (CanOk, m\<lparr>mc_initialized := False, mc_rxFrames := []\<rparr>)"

definition MockCan_send :: "CanFrame \<Rightarrow> MockCan \<Rightarrow> CanStatus \<times> MockCan" where
  "MockCan_send f m =
     (if \<not> mc_initialized m then (CanNotInitialized, m)
      else if \<not> CanFrame_isValid f then (CanInvalidConfig, m)
      else if mc_failNextTx m then (CanTxFailed, m\<lparr>mc_failNextTx := False\<rparr>)
      else if mc_hasNextTxStatus m then (mc_nextTxStatus m, m\<lparr>mc_hasNextTxStatus := False\<rparr>)
      else (CanOk, m\<lparr>mc_txFrames := mc_txFrames m @ [f]\<rparr>))"

definition MockCan_receive :: "CanFrame \<Rightarrow> MockCan \<Rightarrow> CanStatus \<times> CanFrame \<times> MockCan" where
  "MockCan_receive f m =
     (if \<not> mc_initialized m then (CanNotInitialized, f, m)
      else case mc_rxFrames m of
             [] \<Rightarrow> (CanNoData, f, m)
           | g # gs \<Rightarrow> (CanOk, g, m\<lparr>mc_rxFrames := gs\<rparr>))"

definition MockCan_injectRx :: "CanFrame \<Rightarrow> MockCan \<Rightarrow> MockCan" where
  "MockCan_injectRx f m = m\<lparr>mc_rxFrames := mc_rxFrames m @ [f]\<rparr>"

definition MockCan_clear :: "MockCan \<Rightarrow> MockCan" where
  "MockCan_clear m =
     m\<lparr>mc_rxFrames := [], mc_txFrames := [], mc_failNextTx := False, mc_failInitialization := False,
       mc_hasNextTxStatus := False, mc_nextTxStatus := CanOk, mc_initialized := False\<rparr>"

definition MockCan_failNextTx :: "MockCan \<Rightarrow> MockCan" where
  "MockCan_failNextTx m = m\<lparr>mc_failNextTx := True\<rparr>"

definition MockCan_failInitialization :: "MockCan \<Rightarrow> MockCan" where
  "MockCan_failInitialization m = m\<lparr>mc_failInitialization := True\<rparr>"

definition MockCan_setNextTxStatus :: "CanStatus \<Rightarrow> MockCan \<Rightarrow> MockCan" where
  "MockCan_setNextTxStatus st m = m\<lparr>mc_nextTxStatus := st, mc_hasNextTxStatus := True\<rparr>"

definition FakeClock_setMs :: "u64 \<Rightarrow> u64 \<Rightarrow> u64" where
  "FakeClock_setMs v t = v"

definition FakeClock_reset :: "u64 \<Rightarrow> u64" where
  "FakeClock_reset t = 0"

definition FakeClock_nowMs :: "u64 \<Rightarrow> u64" where
  "FakeClock_nowMs t = t"

definition FakeClock_advanceMs :: "u64 \<Rightarrow> u64 \<Rightarrow> u64" where
  "FakeClock_advanceMs delta t = t + delta"

definition fake_clock :: "u64 Clock" where
  "fake_clock t = (FakeClock_nowMs t, t)"

lemma fake_clock: "fake_clock t = (t, t)"
  by (simp add: fake_clock_def FakeClock_nowMs_def)

definition mock_env :: "(MockCan \<times> u64) env" where
  "mock_env =
     \<lparr>env_can =
        \<lparr>hal_initialize = (\<lambda>c (m, t). case MockCan_initialize c m of (st, m1) \<Rightarrow> (st, m1, t)),
         hal_stop = (\<lambda>(m, t). case MockCan_stop m of (st, m1) \<Rightarrow> (st, m1, t)),
         hal_send = (\<lambda>f (m, t). case MockCan_send f m of (st, m1) \<Rightarrow> (st, m1, t)),
         hal_receive = (\<lambda>f (m, t). case MockCan_receive f m of (st, f1, m1) \<Rightarrow> (st, f1, m1, t))\<rparr>,
      env_clock = (\<lambda>(m, t). (FakeClock_nowMs t, m, t))\<rparr>"

text \<open>A mock that will accept every valid frame: initialized and with no failure scripted.\<close>

definition mock_ready :: "MockCan \<times> u64 \<Rightarrow> bool" where
  "mock_ready w \<longleftrightarrow>
     mc_initialized (fst w) \<and> \<not> mc_failNextTx (fst w) \<and> \<not> mc_hasNextTxStatus (fst w)"

definition mock_put :: "CanFrame \<Rightarrow> MockCan \<times> u64 \<Rightarrow> MockCan \<times> u64" where
  "mock_put f w = ((fst w)\<lparr>mc_txFrames := mc_txFrames (fst w) @ [f]\<rparr>, snd w)"

definition mock_sent :: "MockCan \<times> u64 \<Rightarrow> CanFrame list" where
  "mock_sent w = mc_txFrames (fst w)"

definition mock_tick :: "u64 \<Rightarrow> MockCan \<times> u64 \<Rightarrow> MockCan \<times> u64" where
  "mock_tick d w = (fst w, FakeClock_advanceMs d (snd w))"

lemma mock_send_ready:
  "mock_ready w \<Longrightarrow> CanFrame_isValid f \<Longrightarrow> hal_send (env_can mock_env) f w = (CanOk, mock_put f w)"
  by (cases w) (simp add: mock_ready_def mock_env_def MockCan_send_def mock_put_def)

end
