(* ===== verification/IsoTp_Link.thy ===== *)
theory IsoTp_Link
  imports IsoTp_Receiver Mock_Platform
begin

text \<open>
  Two transports on one bus. A sender and a receiver, each with its own back end, exchange the
  frames their back ends accept; one round lets time pass, polls the sender and delivers what is
  new in both directions. The result is end to end: every payload of up to \<open>maxPayload\<close> bytes
  arrives unchanged, in \<open>length div 7\<close> rounds after the first frame, for every block size and
  separation time the receiver asks for.
\<close>

section \<open>Back ends that accept every valid frame\<close>

locale reliable_can =
  fixes E :: "'w env"
    and ok :: "'w \<Rightarrow> bool"
    and time :: "'w \<Rightarrow> u64"
    and sent :: "'w \<Rightarrow> CanFrame list"
    and put :: "CanFrame \<Rightarrow> 'w \<Rightarrow> 'w"
    and tick :: "u64 \<Rightarrow> 'w \<Rightarrow> 'w"
  assumes send: "ok w \<Longrightarrow> CanFrame_isValid f \<Longrightarrow> hal_send (env_can E) f w = (CanOk, put f w)"
    and clock: "ok w \<Longrightarrow> env_clock E w = (time w, w)"
    and ok_put: "ok w \<Longrightarrow> ok (put f w)"
    and ok_tick: "ok w \<Longrightarrow> ok (tick d w)"
    and time_put: "ok w \<Longrightarrow> time (put f w) = time w"
    and time_tick: "ok w \<Longrightarrow> time (tick d w) = time w + d"
    and sent_put: "ok w \<Longrightarrow> sent (put f w) = sent w @ [f]"
    and sent_tick: "ok w \<Longrightarrow> sent (tick d w) = sent w"

interpretation mock: reliable_can mock_env mock_ready snd mock_sent mock_put mock_tick
  by unfold_locales
    (auto simp: MockCan_send_def mock_env_def mock_ready_def mock_put_def mock_sent_def
      mock_tick_def FakeClock_nowMs_def FakeClock_advanceMs_def)

section \<open>The bus between two transports\<close>

fun deliver :: "'w env \<Rightarrow> CanFrame list \<Rightarrow> IsoTp \<times> 'w \<Rightarrow> IsoTp \<times> 'w" where
  "deliver E [] x = x"
| "deliver E (f # fs) (s, w) = deliver E fs (snd (IsoTp_onCanFrame E f s w))"

definition exchange ::
    "'w env \<Rightarrow> ('w \<Rightarrow> CanFrame list) \<Rightarrow> nat \<Rightarrow> nat \<Rightarrow>
     (IsoTp \<times> 'w) \<times> (IsoTp \<times> 'w) \<Rightarrow> (IsoTp \<times> 'w) \<times> (IsoTp \<times> 'w)" where
  "exchange E sent na nb x =
     (let b1 = deliver E (drop na (sent (snd (fst x)))) (snd x);
          a1 = deliver E (drop nb (sent (snd b1))) (fst x)
      in (a1, b1))"

definition link_open ::
    "'w env \<Rightarrow> ('w \<Rightarrow> CanFrame list) \<Rightarrow> bytes \<Rightarrow> (IsoTp \<times> 'w) \<times> (IsoTp \<times> 'w) \<Rightarrow>
     TransportStatus \<times> (IsoTp \<times> 'w) \<times> (IsoTp \<times> 'w)" where
  "link_open E sent p x =
     (case x of ((a, wa), (b, wb)) \<Rightarrow>
        (case IsoTp_startSend E (Some p) (length p) a wa of
           (st, a1) \<Rightarrow> (st, exchange E sent (length (sent wa)) (length (sent wb)) (a1, (b, wb)))))"

definition link_round ::
    "'w env \<Rightarrow> ('w \<Rightarrow> CanFrame list) \<Rightarrow> (u64 \<Rightarrow> 'w \<Rightarrow> 'w) \<Rightarrow> u64 \<Rightarrow>
     (IsoTp \<times> 'w) \<times> (IsoTp \<times> 'w) \<Rightarrow> TransportStatus \<times> (IsoTp \<times> 'w) \<times> (IsoTp \<times> 'w)" where
  "link_round E sent tick d x =
     (case x of ((a, wa), (b, wb)) \<Rightarrow>
        (case IsoTp_poll E a (tick d wa) of
           (st, a1) \<Rightarrow> (st, exchange E sent (length (sent (tick d wa))) (length (sent (tick d wb)))
                              (a1, (b, tick d wb)))))"

fun link_rounds ::
    "'w env \<Rightarrow> ('w \<Rightarrow> CanFrame list) \<Rightarrow> (u64 \<Rightarrow> 'w \<Rightarrow> 'w) \<Rightarrow> u64 \<Rightarrow> nat \<Rightarrow>
     (IsoTp \<times> 'w) \<times> (IsoTp \<times> 'w) \<Rightarrow> TransportStatus \<times> (IsoTp \<times> 'w) \<times> (IsoTp \<times> 'w)" where
  "link_rounds E sent tick d 0 x = (TsInProgress, x)"
| "link_rounds E sent tick d (Suc n) x =
     (case link_round E sent tick d x of
        (st, y) \<Rightarrow> if st = TsInProgress then link_rounds E sent tick d n y else (st, y))"

text \<open>The two ends are configured for each other; \<open>sep\<close> is the receiver's separation time.\<close>

definition matched :: "IsoTpConfig \<Rightarrow> IsoTpConfig \<Rightarrow> u32 \<Rightarrow> bool" where
  "matched ca cb sep \<longleftrightarrow>
     txId ca = rxId cb \<and> rxId ca = txId cb \<and> frameFormat ca = frameFormat cb \<and>
     decodeStMinMs (rxStMin cb) = Some sep"

section \<open>Single steps\<close>

lemma dispatch_valid:
  assumes "isConfigValid s" and "cf_id f = rxId (config s)" and "cf_format f = frameFormat (config s)"
    and "CanFrame_isValid f" and "cf_length f \<noteq> 0" and "env_clock E w = (t, w1)"
    and "\<not> (rxState s = RxReceiving \<and> rxDeadlineMs s \<le> t)"
    and "\<not> (txState s = TxWaitFlowControl \<and> txDeadlineMs s \<le> t)"
  shows "drop_bit 4 (cf_payload f ! 0) AND 0x0F = 0 \<Longrightarrow>
      IsoTp_onCanFrame E f s w = (case handleSingleFrame f s of (st, s1) \<Rightarrow> (st, s1, w1))"
    and "drop_bit 4 (cf_payload f ! 0) AND 0x0F = 1 \<Longrightarrow>
      IsoTp_onCanFrame E f s w = handleFirstFrame E f t s w1"
    and "drop_bit 4 (cf_payload f ! 0) AND 0x0F = 2 \<Longrightarrow>
      IsoTp_onCanFrame E f s w = handleConsecutiveFrame E f t s w1"
    and "drop_bit 4 (cf_payload f ! 0) AND 0x0F = 3 \<Longrightarrow>
      IsoTp_onCanFrame E f s w = (case handleFlowControl f t s of (st, s1) \<Rightarrow> (st, s1, w1))"
  using assms by (auto simp: IsoTp_onCanFrame_def Let_def)

text \<open>The flow-control frame of the code as a unit.\<close>

lemma makeFlowControlFrame_unit:
  "makeFlowControlFrame s 0 = tx_frame (config s) [0x30, rxBlockSize (config s), rxStMin (config s)]"
  by (simp add: makeFlowControlFrame_def makeTxFrame_def pdu_frame_def CanFrame_default_def
      numeral_eq_Suc)

lemma config_frame_valid:
  assumes "isConfigValid s" and "length bs \<le> 8" and "bs \<noteq> []"
  shows "CanFrame_isValid (tx_frame (config s) bs)" and "cf_length (tx_frame (config s) bs) \<noteq> 0"
proof -
  have "CanFrame_isValid (CanFrame_default\<lparr>cf_id := txId (config s), cf_format := frameFormat (config s)\<rparr>)"
    using assms(1) by (simp add: isConfigValid_def makeTxFrame_def Let_def)
  from pdu_frame_valid [OF assms(2,3) this]
  show "CanFrame_isValid (tx_frame (config s) bs)" and "cf_length (tx_frame (config s) bs) \<noteq> 0" .
qed

lemma segment_unit_length:
  assumes "length p \<le> 4095" and "k < length (segment p)"
  shows "length (segment p ! k) \<le> 8" and "segment p ! k \<noteq> []"
proof -
  have "length (segment p ! k) \<le> 8 \<and> segment p ! k \<noteq> []"
  proof (cases k)
    case (Suc j)
    with assms have "7 < length p" "6 + 7 * j < length p"
      by (auto simp: length_segment split: if_splits)
    with Suc show ?thesis by (simp add: nth_segment_Suc)
  qed (simp add: segment_def)
  then show "length (segment p ! k) \<le> 8" and "segment p ! k \<noteq> []" by auto
qed

context reliable_can
begin

lemma send_frame: "ok w \<Longrightarrow> CanFrame_isValid f \<Longrightarrow> sendFrame E f w = (TsComplete, put f w)"
  by (simp add: sendFrame_def send)

lemma send_flow:
  assumes "ok w" and "isConfigValid s"
  shows "sendFlowControl E 0 s w = (TsComplete, put (makeFlowControlFrame s 0) w)"
  unfolding sendFlowControl_def
  using send_frame [OF assms(1)] config_frame_valid(1) [OF assms(2)]
  by (simp add: makeFlowControlFrame_unit)

text \<open>The receiver's answer to a first frame, and the sender's to the flow-control frame.\<close>

lemma receive_first:
  assumes "ok w" and "isConfigValid s" and "rxState s = RxIdle" and "\<not> rxMessageReady s"
    and "txState s = TxIdle" and "7 < length q" and "length q \<le> maxPayload (config s)"
  defines "f \<equiv> pdu_frame (rxId (config s)) (frameFormat (config s)) (segment q ! 0)"
  shows "IsoTp_onCanFrame E f s w =
    (TsInProgress, stageRx f (time w) (length q) s, put (makeFlowControlFrame s 0) w)"
proof -
  have b: "length q \<le> 4095"
    using isConfigValid_bounds [OF assms(2)] assms(7) by (simp add: kMaxPayload_def)
  note u = first_unit [OF assms(6) b, of "rxId (config s)" "frameFormat (config s)", folded f_def]
  have rx: "CanFrame_isValid (CanFrame_default\<lparr>cf_id := rxId (config s),
      cf_format := frameFormat (config s)\<rparr>)"
    using assms(2) by (simp add: isConfigValid_def Let_def)
  have seg: "length (segment q ! 0) \<le> 8" "segment q ! 0 \<noteq> []"
    using segment_unit_length [OF b, of 0] by (auto simp: length_segment)
  have v: "CanFrame_isValid f" "cf_length f \<noteq> 0"
    unfolding f_def by (rule pdu_frame_valid [OF seg rx])+
  have i: "cf_id f = rxId (config s)" "cf_format f = frameFormat (config s)" by (simp_all add: f_def)
  have "IsoTp_onCanFrame E f s w = handleFirstFrame E f (time w) s w"
    by (rule dispatch_valid(2) [OF assms(2) i v clock [OF assms(1)]]) (use assms u(4) in auto)
  also have "\<dots> = (TsInProgress, stageRx f (time w) (length q) s, put (makeFlowControlFrame s 0) w)"
    using assms u(1,2) b send_flow [OF assms(1), of "stageRx f (time w) (length q) s"]
      isConfigValid_config_cong [of "stageRx f (time w) (length q) s" s]
    by (simp add: handleFirstFrame_def kMaxPayload_def makeFlowControlFrame_unit)
  finally show ?thesis .
qed

lemma receive_flow:
  assumes "ok w" and "isConfigValid s" and "rxState s = RxIdle" and "txState s = TxWaitFlowControl"
    and "time w < txDeadlineMs s" and "isConfigValid r" and "matched (config s) (config r) sep"
  shows "IsoTp_onCanFrame E (makeFlowControlFrame r 0) s w =
    (TsInProgress, applyContinueToSend (rxBlockSize (config r)) sep (time w) s, w)"
proof -
  let ?f = "makeFlowControlFrame r 0"
  have i: "cf_id ?f = rxId (config s)" "cf_format ?f = frameFormat (config s)"
    using assms(7) by (simp_all add: makeFlowControlFrame_unit matched_def)
  have v: "CanFrame_isValid ?f" "cf_length ?f \<noteq> 0"
    unfolding makeFlowControlFrame_unit by (rule config_frame_valid [OF assms(6)]; simp)+
  have pay: "cf_payload ?f ! 0 = 0x30" "cf_payload ?f ! 1 = rxBlockSize (config r)"
    "cf_payload ?f ! 2 = rxStMin (config r)" "cf_length ?f = 3"
    by (simp_all add: makeFlowControlFrame_unit pdu_frame_def)
  have "IsoTp_onCanFrame E ?f s w = (case handleFlowControl ?f (time w) s of (st, s1) \<Rightarrow> (st, s1, w))"
    by (rule dispatch_valid(4) [OF assms(2) i v clock [OF assms(1)]]) (use assms pay in auto)
  also have "handleFlowControl ?f (time w) s =
      (TsInProgress, applyContinueToSend (rxBlockSize (config r)) sep (time w) s)"
    using assms(4,7) pay by (simp add: handleFlowControl_def matched_def)
  finally show ?thesis by simp
qed

text \<open>A poll that is due hands the next unit to the back end.\<close>

lemma poll_sends:
  assumes "ok w" and inv: "isotp_inv s" and "rxState s = RxIdle" and q: "txState s = TxSending"
    and "txNextSendMs s \<le> time w"
  defines "p \<equiv> take (txLength s) (txPayload s)"
  defines "f \<equiv> tx_frame (config s) (segment p ! Suc (tx_sent s))"
  defines "n \<equiv> min 7 (txLength s - txOffset s)"
  defines "s1 \<equiv> acceptConsecutiveFrame (time w) n s"
  shows "txOffset s + n = txLength s \<Longrightarrow>
      IsoTp_poll E s w = (TsComplete, resetTx s1, put f w)"
    and "txOffset s + n \<noteq> txLength s \<Longrightarrow> txBlockSize s = 0 \<Longrightarrow>
      IsoTp_poll E s w =
        (TsInProgress, s1\<lparr>txNextSendMs := time w + ucast (txSeparationMs s)\<rparr>, put f w)"
    and "txOffset s + n \<noteq> txLength s \<Longrightarrow> txBlockSize s \<noteq> 0 \<Longrightarrow> txBlockRemaining s - 1 \<noteq> 0 \<Longrightarrow>
      IsoTp_poll E s w =
        (TsInProgress, s1\<lparr>txBlockRemaining := txBlockRemaining s - 1,
           txNextSendMs := time w + ucast (txSeparationMs s)\<rparr>, put f w)"
    and "txOffset s + n \<noteq> txLength s \<Longrightarrow> txBlockSize s \<noteq> 0 \<Longrightarrow> txBlockRemaining s - 1 = 0 \<Longrightarrow>
      IsoTp_poll E s w =
        (TsInProgress, s1\<lparr>txBlockRemaining := 0, txState := TxWaitFlowControl,
           txDeadlineMs := time w + ucast (flowControlTimeoutMs (config s))\<rparr>, put f w)"
proof -
  from inv have tx: "tx_inv s" by (simp add: isotp_inv_def)
  then have cv: "isConfigValid s" and len: "8 \<le> txLength s" "txOffset s = 6 + 7 * tx_sent s"
    "txOffset s < txLength s" "txLength s \<le> 4095" "length (txPayload s) = 4095"
    using q isConfigValid_bounds [of s] by (auto simp: tx_inv_def kMaxPayload_def)
  have k: "Suc (tx_sent s) < length (segment p)" "length p \<le> 4095"
    using len by (auto simp: p_def length_segment)
  have v: "CanFrame_isValid f"
    unfolding f_def by (rule config_frame_valid [OF cv segment_unit_length [OF k(2,1)]])
  have mk: "makeConsecutiveFrame s n = f"
    unfolding f_def p_def n_def using makeConsecutiveFrame_segment [OF tx] q by simp
  have poll: "IsoTp_poll E s w = sendNextConsecutiveFrame E s w"
    using assms(1,3,5) q cv by (simp add: IsoTp_poll_def clock)
  note stepd = poll sendNextConsecutiveFrame_def Let_def n_def [symmetric] mk
    send_frame [OF assms(1) v] s1_def
  have c: "env_clock E (put f w) = (time w, put f w)"
    using clock [OF ok_put [OF assms(1)], of f] time_put [OF assms(1), of f] by simp
  show "txOffset s + n = txLength s \<Longrightarrow> IsoTp_poll E s w = (TsComplete, resetTx s1, put f w)"
    unfolding stepd by (simp add: c)
  show "txOffset s + n \<noteq> txLength s \<Longrightarrow> txBlockSize s = 0 \<Longrightarrow>
      IsoTp_poll E s w =
        (TsInProgress, s1\<lparr>txNextSendMs := time w + ucast (txSeparationMs s)\<rparr>, put f w)"
    unfolding stepd by (simp add: c)
  show "txOffset s + n \<noteq> txLength s \<Longrightarrow> txBlockSize s \<noteq> 0 \<Longrightarrow> txBlockRemaining s - 1 \<noteq> 0 \<Longrightarrow>
      IsoTp_poll E s w =
        (TsInProgress, s1\<lparr>txBlockRemaining := txBlockRemaining s - 1,
           txNextSendMs := time w + ucast (txSeparationMs s)\<rparr>, put f w)"
    unfolding stepd by (simp add: c)
  show "txOffset s + n \<noteq> txLength s \<Longrightarrow> txBlockSize s \<noteq> 0 \<Longrightarrow> txBlockRemaining s - 1 = 0 \<Longrightarrow>
      IsoTp_poll E s w =
        (TsInProgress, s1\<lparr>txBlockRemaining := 0, txState := TxWaitFlowControl,
           txDeadlineMs := time w + ucast (flowControlTimeoutMs (config s))\<rparr>, put f w)"
    unfolding stepd by (simp add: c)
qed

text \<open>The receiver takes the next unit: in the middle of a block, at its end, and at the message's end.\<close>

lemma receive_next:
  assumes "ok w" and inv: "isotp_inv s" and holds: "rx_holds q k s" and "txState s = TxIdle"
    and "time w < rxDeadlineMs s"
  defines "f \<equiv> pdu_frame (rxId (config s)) (frameFormat (config s)) (segment q ! Suc k)"
  defines "s1 \<equiv> appendConsecutiveFrame f s"
  defines "s2 \<equiv> s1\<lparr>rxDeadlineMs := time w + ucast (consecutiveFrameTimeoutMs (config s))\<rparr>"
  defines "full \<equiv> rxBlockSize (config s) \<noteq> 0 \<and> rxBlockSize (config s) \<le> rxBlockCount s + 1"
  shows "rxOffset s1 = length q \<Longrightarrow> IsoTp_onCanFrame E f s w =
      (TsMessageReady,
       resetRxAssembly (s1\<lparr>rxMessageLength := length q, rxMessageReady := True\<rparr>), w)"
    and "rxOffset s1 \<noteq> length q \<Longrightarrow> \<not> full \<Longrightarrow> IsoTp_onCanFrame E f s w = (TsInProgress, s2, w)"
    and "rxOffset s1 \<noteq> length q \<Longrightarrow> full \<Longrightarrow> IsoTp_onCanFrame E f s w =
      (TsInProgress, s2\<lparr>rxBlockCount := 0\<rparr>, put (makeFlowControlFrame s 0) w)"
proof -
  note b = rx_holds_bounds [OF inv holds]
  note u = next_unit [OF b(1,2), of "rxId (config s)" "frameFormat (config s)", folded f_def]
  have k: "Suc k < length (segment q)" using b(1,2) by (simp add: length_segment)
  have rx: "CanFrame_isValid (CanFrame_default\<lparr>cf_id := rxId (config s),
      cf_format := frameFormat (config s)\<rparr>)"
    using b(6) by (simp add: isConfigValid_def Let_def)
  have v: "CanFrame_isValid f" "cf_length f \<noteq> 0"
    unfolding f_def by (rule pdu_frame_valid [OF segment_unit_length [OF b(3) k] rx])+
  have i: "cf_id f = rxId (config s)" "cf_format f = frameFormat (config s)" by (simp_all add: f_def)
  have l2: "\<not> cf_length f < 2"
    using u(1) b(2) by (simp add: word_less_nat_alt)
  from holds have rxs: "rxState s = RxReceiving" "rxExpectedLength s = length q"
    "rxExpectedSequence s = of_nat (Suc k mod 16)" by (auto simp: rx_holds_def)
  have "IsoTp_onCanFrame E f s w = handleConsecutiveFrame E f (time w) s w"
    by (rule dispatch_valid(3) [OF b(6) i v clock [OF assms(1)]]) (use assms(4,5) u(4) in auto)
  note disp = this handleConsecutiveFrame_def u(2) rxs(3)
  have s1: "config s1 = config s" "rxExpectedLength s1 = length q" "rxBlockCount s1 = rxBlockCount s + 1"
    by (simp_all add: s1_def rxs)
  have flow: "sendFlowControl E 0 s3 w = (TsComplete, put (makeFlowControlFrame s 0) w)"
    if "config s3 = config s" for s3
    using send_flow [OF assms(1), of s3] isConfigValid_config_cong [OF that] b(6) that
    by (simp add: makeFlowControlFrame_unit)
  show "rxOffset s1 = length q \<Longrightarrow> IsoTp_onCanFrame E f s w =
      (TsMessageReady,
       resetRxAssembly (s1\<lparr>rxMessageLength := length q, rxMessageReady := True\<rparr>), w)"
    unfolding disp using l2 rxs(1) s1 by (simp add: s1_def [symmetric] Let_def del: appendCF_simps)
  show "rxOffset s1 \<noteq> length q \<Longrightarrow> \<not> full \<Longrightarrow> IsoTp_onCanFrame E f s w = (TsInProgress, s2, w)"
    unfolding disp using l2 rxs(1) s1
    by (auto simp: s1_def [symmetric] s2_def full_def Let_def simp del: appendCF_simps)
  show "rxOffset s1 \<noteq> length q \<Longrightarrow> full \<Longrightarrow> IsoTp_onCanFrame E f s w =
      (TsInProgress, s2\<lparr>rxBlockCount := 0\<rparr>, put (makeFlowControlFrame s 0) w)"
    unfolding disp using l2 rxs(1) s1 flow
    by (simp add: s1_def [symmetric] s2_def full_def Let_def del: appendCF_simps)
qed

end

section \<open>One round\<close>

definition link_ok ::
    "('w \<Rightarrow> bool) \<Rightarrow> ('w \<Rightarrow> u64) \<Rightarrow> bytes \<Rightarrow> u32 \<Rightarrow> u64 \<Rightarrow> nat \<Rightarrow>
     IsoTp \<Rightarrow> 'w \<Rightarrow> IsoTp \<Rightarrow> 'w \<Rightarrow> bool" where
  "link_ok ok time p sep d k a wa b wb \<longleftrightarrow>
     ok wa \<and> ok wb \<and> time wa = time wb \<and> isotp_inv a \<and> isotp_inv b \<and>
     matched (config a) (config b) sep \<and> rxState a = RxIdle \<and> txState b = TxIdle \<and>
     txState a = TxSending \<and> take (txLength a) (txPayload a) = p \<and> tx_sent a = k \<and>
     unat (txNextSendMs a) \<le> unat (time wa) + unat d \<and>
     txBlockSize a = rxBlockSize (config b) \<and> txSeparationMs a = sep \<and>
     rx_holds p k b \<and> rxDeadlineMs b = time wb + ucast (consecutiveFrameTimeoutMs (config b)) \<and>
     (rxBlockSize (config b) \<noteq> 0 \<longrightarrow>
        txBlockRemaining a = rxBlockSize (config b) - rxBlockCount b)"

definition delivered :: "bytes \<Rightarrow> IsoTp \<Rightarrow> bool" where
  "delivered p b \<longleftrightarrow>
     rxMessageReady b \<and> rxMessageLength b = length p \<and> take (length p) (rxPayload b) = p"

lemma unat_ucast_u32: "unat (ucast (x :: u32) :: u64) = unat x"
  by (simp add: unsigned_ucast_eq take_bit_nat_eq_self_iff order_less_le_trans [OF unsigned_less])

lemma u32_lt: "unat (x :: u32) < 2 ^ 32"
  using unsigned_less [of x] by simp

lemma unat_add_exact: "unat (a :: u64) + unat b < 2 ^ 64 \<Longrightarrow> unat (a + b) = unat a + unat b"
  by (simp add: unat_word_ariths)

lemma unat_add_le: "unat ((a :: u64) + b) \<le> unat a + unat b"
  by (simp add: unat_word_ariths)

lemma deadline_ahead:
  assumes "unat (t :: u64) + 2 ^ 32 \<le> 2 ^ 64" and "unat e < unat (c :: u32)"
  shows "unat (t + ucast c) = unat t + unat c" and "unat t + unat e < unat (t + ucast c)"
proof -
  have "unat t + unat (ucast c :: u64) < 2 ^ 64"
    using assms(1) u32_lt [of c] by (simp add: unat_ucast_u32)
  from unat_add_exact [OF this] show "unat (t + ucast c) = unat t + unat c"
    by (simp add: unat_ucast_u32)
  with assms(2) show "unat t + unat e < unat (t + ucast c)" by simp
qed

lemma rx_holds_updates [simp]:
  "rx_holds q k (s\<lparr>rxDeadlineMs := a\<rparr>) = rx_holds q k s"
  "rx_holds q k (s\<lparr>rxBlockCount := c\<rparr>) = rx_holds q k s"
  by (simp_all add: rx_holds_def)

lemma rx_holds_step:
  fixes i :: u32 and fmt :: CanFrameFormat
  assumes inv: "isotp_inv s" and holds: "rx_holds q k s"
  defines "s1 \<equiv> appendConsecutiveFrame (pdu_frame i fmt (segment q ! Suc k)) s"
  assumes more: "rxOffset s1 \<noteq> length q"
  shows "rx_holds q (Suc k) s1"
proof -
  note b = rx_holds_bounds [OF inv holds]
  note o = append_offset [OF inv holds, of i fmt, folded s1_def]
  have n: "min 7 (length q - (6 + 7 * k)) = 7"
    using more o(1) b(2) by (simp add: min_def split: if_splits)
  have "rxExpectedSequence s1 = (of_nat (Suc k mod 16) + 1) AND 15"
    using next_unit(2) [OF b(1,2), of i fmt]
    by (simp add: s1_def appendConsecutiveFrame_def Let_def del: pdu_frame_simps)
  then have "rxExpectedSequence s1 = of_nat (Suc (Suc k) mod 16)" by (simp only: sequence_step)
  moreover have "rxState s1 = RxReceiving" "rxExpectedLength s1 = length q"
    using holds by (simp_all add: s1_def rx_holds_def)
  ultimately show ?thesis
    using o n by (simp add: rx_holds_def add.commute)
qed

lemma last_unit_iff:
  assumes "tx_inv a" and "txState a \<noteq> TxIdle"
  shows "txOffset a + min 7 (txLength a - txOffset a) = txLength a \<longleftrightarrow>
    Suc (tx_sent a) = txLength a div 7"
proof -
  have b: "txOffset a = 6 + 7 * tx_sent a" "txOffset a < txLength a"
    using assms by (auto simp: tx_inv_def)
  define k where "k = tx_sent a"
  have "6 + 7 * k < txLength a" using b by (simp add: k_def)
  then have "(txLength a \<le> 6 + 7 * k + 7) = (Suc k = txLength a div 7)" by linarith
  then show ?thesis using b by (auto simp: k_def min_def)
qed

lemma block_end_iff:
  fixes c n :: u8 assumes "c < n" shows "(n - c - 1 = 0) = (n \<le> c + 1)"
proof -
  have c: "unat c + 1 < 256"
    using assms u8_less_256 [of n] unfolding word_less_nat_alt by linarith
  have "unat (n - c) = unat n - unat c" "unat (c + 1) = unat c + 1"
    using assms c by (simp_all add: unat_sub word_less_nat_alt less_imp_le unat_word_ariths)
  moreover have "(n - c - 1 = 0) = (unat (n - c) = 1)"
    by (metis eq_iff_diff_eq_0 unsigned_1 word_unat_eq_iff)
  ultimately show ?thesis using assms by (auto simp: word_le_nat_alt word_less_nat_alt)
qed

context reliable_can
begin

text \<open>The tick moves both clocks; the sender is then due and the receiver's deadline is ahead.\<close>

lemma link_round_due:
  assumes ok: "link_ok ok time p sep d k a wa b wb"
    and room: "unat (time wa) + unat d + 2 ^ 32 \<le> 2 ^ 64"
    and gap: "unat d < unat (consecutiveFrameTimeoutMs (config b))"
  shows "unat (time (tick d wa)) = unat (time wa) + unat d"
    and "time (tick d wb) = time (tick d wa)"
    and "txNextSendMs a \<le> time (tick d wa)"
    and "time (tick d wb) < rxDeadlineMs b"
proof -
  from ok have o: "ok wa" "ok wb" "time wa = time wb"
    "unat (txNextSendMs a) \<le> unat (time wa) + unat d"
    "rxDeadlineMs b = time wb + ucast (consecutiveFrameTimeoutMs (config b))"
    by (auto simp: link_ok_def)
  have "unat (time wa) + unat d < 2 ^ 64" using room by simp
  from unat_add_exact [OF this] show t: "unat (time (tick d wa)) = unat (time wa) + unat d"
    by (simp add: time_tick o)
  show e: "time (tick d wb) = time (tick d wa)" by (simp add: time_tick o)
  show "txNextSendMs a \<le> time (tick d wa)"
    using o(4) t by (simp add: word_le_nat_alt)
  have "unat (time wa) + 2 ^ 32 \<le> 2 ^ 64" using room by simp
  from deadline_ahead(2) [OF this gap] show "time (tick d wb) < rxDeadlineMs b"
    using t e o by (simp add: word_less_nat_alt)
qed

lemma round_by_poll:
  assumes "ok wa" and "ok wb" and "IsoTp_poll E a (tick d wa) = (st, a1, put f (tick d wa))"
    and "IsoTp_onCanFrame E f b (tick d wb) = (st', b1, w1)"
  shows "w1 = tick d wb \<Longrightarrow> link_round E sent tick d ((a, wa), (b, wb)) =
      (st, ((a1, put f (tick d wa)), (b1, tick d wb)))"
    and "w1 = put g (tick d wb) \<Longrightarrow>
      IsoTp_onCanFrame E g a1 (put f (tick d wa)) = (st'', a2, put f (tick d wa)) \<Longrightarrow>
      link_round E sent tick d ((a, wa), (b, wb)) =
      (st, ((a2, put f (tick d wa)), (b1, put g (tick d wb))))"
  using assms ok_tick sent_put by (auto simp: link_round_def exchange_def Let_def)

lemma link_round_last:
  assumes ok: "link_ok ok time p sep d k a wa b wb"
    and room: "unat (time wa) + unat d + 2 ^ 32 \<le> 2 ^ 64"
    and gap: "unat d < unat (consecutiveFrameTimeoutMs (config b))"
    and last: "Suc k = length p div 7"
  shows "\<exists>a1 wa1 b1 wb1. link_round E sent tick d ((a, wa), (b, wb)) =
      (TsComplete, (a1, wa1), (b1, wb1)) \<and> txState a1 = TxIdle \<and> delivered p b1"
proof -
  from ok have o: "ok wa" "ok wb" "isotp_inv a" "isotp_inv b" "matched (config a) (config b) sep"
    "rxState a = RxIdle" "txState b = TxIdle" "txState a = TxSending"
    "take (txLength a) (txPayload a) = p" "tx_sent a = k" "rx_holds p k b"
    by (auto simp: link_ok_def)
  note due = link_round_due [OF ok room gap]
  have oka: "ok (tick d wa)" and okb: "ok (tick d wb)" using o ok_tick by auto
  have tx: "tx_inv a" using o(3) by (simp add: isotp_inv_def)
  have len: "txLength a = length p"
    using tx o(8,9) isConfigValid_bounds [of a] by (auto simp: tx_inv_def)
  let ?f = "tx_frame (config a) (segment p ! Suc k)"
  have f: "?f = pdu_frame (rxId (config b)) (frameFormat (config b)) (segment p ! Suc k)"
    using o(5) by (simp add: matched_def)
  have fin: "txOffset a + min 7 (txLength a - txOffset a) = txLength a"
    using last_unit_iff [OF tx] o(8,10) len last by simp
  note poll = poll_sends(1) [OF oka o(3,6,8) due(3) fin, unfolded o(9,10)]
  let ?b1 = "appendConsecutiveFrame ?f b"
  have off: "rxOffset ?b1 = length p" "take (length p) (rxPayload ?b1) = p"
  proof -
    have "6 + 7 * k + min 7 (length p - (6 + 7 * k)) = length p"
      using fin len tx o(8,10) by (simp add: tx_inv_def)
    with append_offset [OF o(4,11), of "rxId (config b)" "frameFormat (config b)", folded f]
    show "rxOffset ?b1 = length p" "take (length p) (rxPayload ?b1) = p" by simp_all
  qed
  note recv = receive_next(1) [OF okb o(4,11,7) due(4), folded f, OF off(1)]
  let ?b2 = "resetRxAssembly (?b1\<lparr>rxMessageLength := length p, rxMessageReady := True\<rparr>)"
  have "delivered p ?b2" using off(2) by (simp add: delivered_def resetRxAssembly_def)
  with round_by_poll(1) [OF o(1,2) poll recv refl] show ?thesis
    by (auto simp: resetTx_def)
qed

text \<open>In the middle of the message the round keeps the correspondence.\<close>

lemma link_round_more:
  assumes ok: "link_ok ok time p sep d k a wa b wb"
    and room: "unat (time wa) + unat d + 2 ^ 32 \<le> 2 ^ 64"
    and gap: "unat d < unat (consecutiveFrameTimeoutMs (config b))"
    and room2: "unat (time wa) + unat d + unat d + 2 ^ 32 \<le> 2 ^ 64"
    and sep: "unat sep \<le> unat d"
    and more: "Suc k \<noteq> length p div 7"
  shows "\<exists>a1 wa1 b1 wb1. link_round E sent tick d ((a, wa), (b, wb)) =
      (TsInProgress, (a1, wa1), (b1, wb1)) \<and>
      link_ok ok time p sep d (Suc k) a1 wa1 b1 wb1 \<and> config b1 = config b \<and>
      unat (time wa1) = unat (time wa) + unat d"
proof -
  from ok have o: "ok wa" "ok wb" "isotp_inv a" "isotp_inv b" "matched (config a) (config b) sep"
    "rxState a = RxIdle" "txState b = TxIdle" "txState a = TxSending"
    "take (txLength a) (txPayload a) = p" "tx_sent a = k" "rx_holds p k b"
    and bs: "txBlockSize a = rxBlockSize (config b)" "txSeparationMs a = sep"
    and rem: "rxBlockSize (config b) \<noteq> 0 \<Longrightarrow>
        txBlockRemaining a = rxBlockSize (config b) - rxBlockCount b"
    by (auto simp: link_ok_def)
  note due = link_round_due [OF ok room gap]
  have oka: "ok (tick d wa)" and okb: "ok (tick d wb)" using o ok_tick by auto
  have tx: "tx_inv a" and rx: "rx_inv b" using o(3,4) by (simp_all add: isotp_inv_def)
  have cva: "isConfigValid a" and cvb: "isConfigValid b"
    using tx o(8) rx_holds_bounds(6) [OF o(4,11)] by (auto simp: tx_inv_def)
  have len: "txLength a = length p"
    using tx o(8,9) isConfigValid_bounds [of a] by (auto simp: tx_inv_def)
  let ?n = "min 7 (txLength a - txOffset a)"
  let ?f = "tx_frame (config a) (segment p ! Suc k)"
  let ?t = "time (tick d wa)"
  let ?ac = "acceptConsecutiveFrame ?t ?n a"
  let ?b1 = "appendConsecutiveFrame ?f b"
  let ?cft = "ucast (consecutiveFrameTimeoutMs (config b)) :: u64"
  have f: "?f = pdu_frame (rxId (config b)) (frameFormat (config b)) (segment p ! Suc k)"
    using o(5) by (simp add: matched_def)
  have notlast: "txOffset a + ?n \<noteq> txLength a"
    using last_unit_iff [OF tx] o(8,10) len more by simp
  then have n7: "?n = 7" and acc: "txOffset ?ac = 6 + 7 * Suc k"
    using not_last_copy [OF tx] tx o(8,10) by (auto simp: tx_inv_def)
  have off: "rxOffset ?b1 \<noteq> length p"
    using append_offset(1) [OF o(4,11), of "rxId (config b)" "frameFormat (config b)", folded f]
      notlast len tx o(8,10) by (simp add: tx_inv_def)
  note poll = poll_sends [OF oka o(3,6,8) due(3), unfolded o(9,10)]
  note recv = receive_next [OF okb o(4,11,7) due(4), folded f]
  have holds: "rx_holds p (Suc k) ?b1"
    by (rule rx_holds_step [OF o(4,11), of "rxId (config b)" "frameFormat (config b)", folded f, OF off])
  have acsimps: "rxState ?ac = RxIdle" "txState ?ac = TxSending" "take (txLength ?ac) (txPayload ?ac) = p"
    "tx_sent ?ac = Suc k" "txHasLastCf ?ac" "txLastCfMs ?ac = ?t"
    using o acc by (simp_all add: acceptConsecutiveFrame_def tx_sent_eq)
  have times: "unat (?t + ucast sep) \<le> unat ?t + unat d"
    using unat_add_le [of ?t "ucast sep"] sep by (simp add: unat_ucast_u32)
  have pt: "time (put g w) = time w" if "ok w" for g w using time_put [OF that] .
  have count: "rxBlockSize (config b) \<noteq> 0 \<Longrightarrow> rxBlockCount b < rxBlockSize (config b)"
    using rx o(11) by (simp add: rx_inv_def rx_holds_def)
  have cfgs: "config ?b1 = config b" "txState ?b1 = TxIdle" "rxBlockCount ?b1 = rxBlockCount b + 1"
    using o(7) by (simp_all add: appendConsecutiveFrame_def Let_def)
  show ?thesis
  proof (cases "rxBlockSize (config b) \<noteq> 0 \<and> rxBlockSize (config b) \<le> rxBlockCount b + 1")
    case False
    let ?b2 = "?b1\<lparr>rxDeadlineMs := time (tick d wb) + ?cft\<rparr>"
    have r: "IsoTp_onCanFrame E ?f b (tick d wb) = (TsInProgress, ?b2, tick d wb)"
      by (rule recv(2) [OF off False])
    define a1 where "a1 = (if rxBlockSize (config b) = 0
        then ?ac\<lparr>txNextSendMs := ?t + ucast sep\<rparr>
        else ?ac\<lparr>txBlockRemaining := txBlockRemaining a - 1, txNextSendMs := ?t + ucast sep\<rparr>)"
    have p: "IsoTp_poll E a (tick d wa) = (TsInProgress, a1, put ?f (tick d wa))"
      using poll(2,3) notlast False bs rem count block_end_iff [of "rxBlockCount b"]
      by (auto simp: a1_def)
    have "link_ok ok time p sep d (Suc k) a1 (put ?f (tick d wa)) ?b2 (tick d wb)"
      unfolding link_ok_def
      using oka okb ok_put poll_inv [OF o(3) p] onCanFrame_inv [OF o(4) r] o(5) acsimps holds
        cfgs pt [OF oka] due(2) times bs rem
      by (auto simp: a1_def)
    with round_by_poll(1) [OF o(1,2) p r refl] pt [OF oka] due(1) cfgs show ?thesis by auto
  next
    case True
    let ?b2 = "?b1\<lparr>rxDeadlineMs := time (tick d wb) + ?cft, rxBlockCount := 0\<rparr>"
    let ?g = "makeFlowControlFrame b 0"
    have r: "IsoTp_onCanFrame E ?f b (tick d wb) = (TsInProgress, ?b2, put ?g (tick d wb))"
      by (rule recv(3) [OF off True])
    let ?a1 = "?ac\<lparr>txBlockRemaining := 0, txState := TxWaitFlowControl,
        txDeadlineMs := ?t + ucast (flowControlTimeoutMs (config a))\<rparr>"
    have p: "IsoTp_poll E a (tick d wa) = (TsInProgress, ?a1, put ?f (tick d wa))"
      using poll(4) notlast True bs rem count block_end_iff [of "rxBlockCount b"] by simp
    let ?a2 = "applyContinueToSend (rxBlockSize (config b)) sep ?t ?a1"
    have fct: "0 < unat (flowControlTimeoutMs (config a))"
      using cva by (simp add: isConfigValid_def Let_def word_less_nat_alt)
    have "unat ?t + 2 ^ 32 \<le> 2 ^ 64" using due(1) room2 by simp
    from deadline_ahead(2) [OF this, of 0] fct
    have ahead: "?t < ?t + ucast (flowControlTimeoutMs (config a))"
      by (simp add: word_less_nat_alt)
    have c: "IsoTp_onCanFrame E ?g ?a1 (put ?f (tick d wa)) = (TsInProgress, ?a2, put ?f (tick d wa))"
      using receive_flow [OF ok_put [OF oka], of ?a1 ?f b sep] isConfigValid_config_cong [of ?a1 a]
        cva cvb acsimps(1) ahead o(5) pt [OF oka] by simp
    have "link_ok ok time p sep d (Suc k) ?a2 (put ?f (tick d wa)) ?b2 (put ?g (tick d wb))"
      unfolding link_ok_def
      using oka okb ok_put onCanFrame_inv [OF poll_inv [OF o(3) p] c] onCanFrame_inv [OF o(4) r]
        o(5) acsimps holds cfgs pt [OF oka] pt [OF okb] due(2) times
      by (auto simp: applyContinueToSend_def tx_sent_def max_def)
    with round_by_poll(2) [OF o(1,2) p r refl c] pt [OF oka] due(1) cfgs show ?thesis by auto
  qed
qed

lemma link_rounds_deliver:
  assumes "link_ok ok time p sep d k a wa b wb"
    and "Suc (k + m) = length p div 7"
    and "unat (time wa) + (m + 2) * unat d + 2 ^ 32 \<le> 2 ^ 64"
    and "unat d < unat (consecutiveFrameTimeoutMs (config b))" and "unat sep \<le> unat d"
  shows "\<exists>a1 wa1 b1 wb1. link_rounds E sent tick d (Suc m) ((a, wa), (b, wb)) =
      (TsComplete, (a1, wa1), (b1, wb1)) \<and> txState a1 = TxIdle \<and> delivered p b1"
  using assms
proof (induction m arbitrary: k a wa b wb)
  case 0
  then obtain a1 wa1 b1 wb1 where "link_round E sent tick d ((a, wa), (b, wb)) =
      (TsComplete, (a1, wa1), (b1, wb1))" "txState a1 = TxIdle" "delivered p b1"
    using link_round_last [OF 0(1)] by auto
  then show ?case by simp
next
  case (Suc m)
  have "unat (time wa) + unat d + unat d + 2 ^ 32 \<le> 2 ^ 64" "Suc k \<noteq> length p div 7"
    using Suc.prems(2,3) by auto
  then obtain a1 wa1 b1 wb1 where r: "link_round E sent tick d ((a, wa), (b, wb)) =
      (TsInProgress, (a1, wa1), (b1, wb1))"
    and ok: "link_ok ok time p sep d (Suc k) a1 wa1 b1 wb1" and c: "config b1 = config b"
    and t: "unat (time wa1) = unat (time wa) + unat d"
    using link_round_more [OF Suc.prems(1)] Suc.prems(4,5) by auto
  have "unat (time wa1) + (m + 2) * unat d + 2 ^ 32 \<le> 2 ^ 64"
    using Suc.prems(3) t by simp
  with Suc.IH [OF ok] c Suc.prems(2,4,5) r show ?case by auto
qed

text \<open>Opening: the first frame, the flow-control frame and the state both ends are left in.\<close>

lemma link_open_long:
  assumes o: "ok wa" "ok wb" "time wa = time wb" "isotp_inv a" "isotp_inv b"
    and cva: "isConfigValid a" and cvb: "isConfigValid b"
    and m: "matched (config a) (config b) sep"
    and idle: "rxState a = RxIdle" "txState a = TxIdle" "rxState b = RxIdle" "txState b = TxIdle"
      "\<not> rxMessageReady b"
    and len: "7 < length p" "length p \<le> maxPayload (config a)" "length p \<le> maxPayload (config b)"
    and room: "unat (time wa) + unat d + 2 ^ 32 \<le> 2 ^ 64"
  shows "\<exists>a1 wa1 b1 wb1. link_open E sent p ((a, wa), (b, wb)) =
      (TsInProgress, (a1, wa1), (b1, wb1)) \<and> link_ok ok time p sep d 0 a1 wa1 b1 wb1 \<and>
      config b1 = config b \<and> time wa1 = time wa"
proof -
  have l: "length p \<le> 4095" using isConfigValid_bounds [OF cva] len(2) by (simp add: kMaxPayload_def)
  have ne: "p \<noteq> []" using len(1) by auto
  let ?s = "stageTx p (length p) a"
  let ?f = "tx_frame (config a) (segment p ! 0)"
  have mk: "makeFirstFrame ?s p (length p) = ?f"
    using makeFirstFrame_segment [of "length p" p ?s] len(1) l by (simp add: segment_def)
  have f: "?f = pdu_frame (rxId (config b)) (frameFormat (config b)) (segment p ! 0)"
    using m by (simp add: matched_def)
  have seg: "length (segment p ! 0) \<le> 8" "segment p ! 0 \<noteq> []"
    using segment_unit_length [OF l, of 0] by (auto simp: length_segment)
  have v: "CanFrame_isValid ?f" by (rule config_frame_valid [OF cva seg])
  let ?a1 = "?s\<lparr>txState := TxWaitFlowControl,
      txDeadlineMs := time wa + ucast (flowControlTimeoutMs (config a))\<rparr>"
  have st: "IsoTp_startSend E (Some p) (length p) a wa = (TsInProgress, ?a1, put ?f wa)"
    using cva ne len l idle(2) send_frame [OF o(1) v] clock [OF ok_put [OF o(1)], of ?f]
      time_put [OF o(1), of ?f]
    by (simp add: IsoTp_startSend_def kMaxPayload_def mk)
  let ?b1 = "stageRx ?f (time wb) (length p) b"
  let ?g = "makeFlowControlFrame b 0"
  have r: "IsoTp_onCanFrame E ?f b wb = (TsInProgress, ?b1, put ?g wb)"
    using receive_first [OF o(2) cvb idle(3,5,4) len(1,3)] by (simp add: f)
  have fct: "0 < unat (flowControlTimeoutMs (config a))"
    using cva by (simp add: isConfigValid_def Let_def word_less_nat_alt)
  have "unat (time wa) + 2 ^ 32 \<le> 2 ^ 64" using room by simp
  from deadline_ahead(2) [OF this, of 0] fct
  have ahead: "time wa < time wa + ucast (flowControlTimeoutMs (config a))"
    by (simp add: word_less_nat_alt)
  let ?a2 = "applyContinueToSend (rxBlockSize (config b)) sep (time wa) ?a1"
  have a1: "rxState ?a1 = RxIdle" "isConfigValid ?a1" "config ?a1 = config a"
    using idle(1) cva isConfigValid_config_cong [of ?a1 a] by (simp_all add: stageTx_def)
  have c: "IsoTp_onCanFrame E ?g ?a1 (put ?f wa) = (TsInProgress, ?a2, put ?f wa)"
    using receive_flow [OF ok_put [OF o(1)] a1(2,1), of ?f b sep] cvb ahead m time_put [OF o(1)] a1(3)
    by simp
  have "tx_inv a" "rx_inv b" using o by (auto simp: isotp_inv_def)
  then have clr: "\<not> txHasLastCf a" "length (txPayload a) = 4095"
    using idle(2) by (auto simp: tx_inv_def tx_cleared_def kMaxPayload_def)
  have holds: "rx_holds p 0 ?b1" unfolding f by (rule stageRx_holds [OF len(1) l \<open>rx_inv b\<close>])
  have a2: "rxState ?a2 = RxIdle" "txState ?a2 = TxSending" "take (txLength ?a2) (txPayload ?a2) = p"
    "tx_sent ?a2 = 0" "txNextSendMs ?a2 = time wa" "txBlockSize ?a2 = rxBlockSize (config b)"
    "txBlockRemaining ?a2 = rxBlockSize (config b)" "txSeparationMs ?a2 = sep" "config ?a2 = config a"
    using idle(1) clr len l
    by (simp_all add: applyContinueToSend_def stageTx_def tx_sent_def blit_def)
  have b1: "config ?b1 = config b" "txState ?b1 = TxIdle" "rxBlockCount ?b1 = 0"
    "rxDeadlineMs ?b1 = time wb + ucast (consecutiveFrameTimeoutMs (config b))"
    using idle(4) by (simp_all add: stageRx_def Let_def)
  have "link_ok ok time p sep d 0 ?a2 (put ?f wa) ?b1 (put ?g wb)"
    unfolding link_ok_def
    using o ok_put onCanFrame_inv [OF startSend_inv [OF o(4) st] c] onCanFrame_inv [OF o(5) r]
      m a2 b1 holds time_put [OF o(1)] time_put [OF o(2)] by simp
  moreover have "link_open E sent p ((a, wa), (b, wb)) =
      (TsInProgress, (?a2, put ?f wa), (?b1, put ?g wb))"
    using st r c sent_put [OF o(1)] sent_put [OF o(2)] by (simp add: link_open_def exchange_def)
  ultimately show ?thesis using time_put [OF o(1)] b1(1) by blast
qed

text \<open>A payload of at most seven bytes travels in one single frame.\<close>

lemma link_open_short:
  assumes o: "ok wa" "ok wb" "isotp_inv b"
    and cva: "isConfigValid a" and cvb: "isConfigValid b"
    and m: "matched (config a) (config b) sep"
    and idle: "txState a = TxIdle" "rxState b = RxIdle" "txState b = TxIdle" "\<not> rxMessageReady b"
    and len: "p \<noteq> []" "length p \<le> 7" "length p \<le> maxPayload (config a)"
      "length p \<le> maxPayload (config b)"
  shows "\<exists>wa1 b1 wb1. link_open E sent p ((a, wa), (b, wb)) = (TsComplete, (a, wa1), (b1, wb1)) \<and>
      delivered p b1"
proof -
  have seg: "segment p = [of_nat (length p) # p]" using len(2) by (simp add: segment_def)
  let ?f = "tx_frame (config a) (segment p ! 0)"
  have mk: "makeSingleFrame a p (length p) = ?f"
    using makeSingleFrame_segment [of "length p" p a] len(2) by (simp add: seg)
  have f: "?f = pdu_frame (rxId (config b)) (frameFormat (config b)) (segment p ! 0)"
    using m by (simp add: matched_def)
  have l8: "length (segment p ! 0) \<le> 8" "segment p ! 0 \<noteq> []" using len(2) by (simp_all add: seg)
  note v = config_frame_valid [OF cva l8]
  have st: "IsoTp_startSend E (Some p) (length p) a wa = (TsComplete, a, put ?f wa)"
    using cva len idle(1) send_frame [OF o(1) v(1)] isConfigValid_bounds [OF cva]
    by (simp add: IsoTp_startSend_def mk)
  have i: "cf_id ?f = rxId (config b)" "cf_format ?f = frameFormat (config b)"
    using m by (simp_all add: matched_def)
  have h: "cf_payload ?f = of_nat (length p) # p @ replicate (7 - length p) 0"
    using len(2) by (simp add: seg pdu_frame_def)
  have lp: "unat (of_nat (length p) AND 15 :: u8) = length p"
    using len(2) by (simp add: unat_and_15 u8_of_nat_eq)
  have pci: "drop_bit 4 (cf_payload ?f ! 0) AND 0x0F = 0"
    using u8_of_nat_nibble [of "length p"] len(2) by (simp add: h shift_4_and_15)
  let ?b1 = "b\<lparr>rxPayload := blit (rxPayload b) 0 p, rxMessageLength := length p,
      rxMessageReady := True\<rparr>"
  have cl: "unat (cf_length ?f) = Suc (length p)" using len(2) by (simp add: seg)
  have "IsoTp_onCanFrame E ?f b wb = (case handleSingleFrame ?f b of (st, s1) \<Rightarrow> (st, s1, wb))"
    by (rule dispatch_valid(1) [OF cvb i v clock [OF o(2)]]) (use idle pci in auto)
  moreover have "handleSingleFrame ?f b = (TsMessageReady, ?b1)"
    using idle(2,4) len cl lp by (simp add: handleSingleFrame_def h)
  ultimately have r: "IsoTp_onCanFrame E ?f b wb = (TsMessageReady, ?b1, wb)" by simp
  have "delivered p ?b1" by (simp add: delivered_def blit_def)
  with st r sent_put [OF o(1)] show ?thesis by (simp add: link_open_def exchange_def)
qed

end

text \<open>A delivered message is what \<open>receive\<close> hands to a large enough buffer.\<close>

lemma delivered_receive:
  assumes "delivered p b" and "length p \<le> length buf"
  shows "IsoTp_receive (Some buf) (length buf) b =
    (TsComplete, length p, Some (p @ drop (length p) buf), IsoTp_discardPendingMessage b)"
  using assms
  by (auto simp: delivered_def IsoTp_receive_def IsoTp_discardPendingMessage_def blit_def)

context reliable_can
begin

lemma link_delivers:
  assumes o: "ok wa" "ok wb" "time wa = time wb" "unat (time wa) < 2 ^ 63"
    and cfg: "isConfigValid (IsoTp_init ca)" "isConfigValid (IsoTp_init cb)" "matched ca cb sep"
    and len: "p \<noteq> []" "length p \<le> maxPayload ca" "length p \<le> maxPayload cb"
    and d: "unat sep \<le> unat d" "unat d < unat (consecutiveFrameTimeoutMs cb)"
    and buf: "length p \<le> length buf"
  shows "\<exists>st x a wa1 b wb1.
    link_open E sent p ((IsoTp_init ca, wa), (IsoTp_init cb, wb)) = (st, x) \<and>
    (if length p \<le> 7 then st = TsComplete \<and> x = ((a, wa1), (b, wb1))
     else st = TsInProgress \<and>
       link_rounds E sent tick d (length p div 7) x = (TsComplete, (a, wa1), (b, wb1))) \<and>
    txState a = TxIdle \<and>
    IsoTp_receive (Some buf) (length buf) b =
      (TsComplete, length p, Some (p @ drop (length p) buf), IsoTp_discardPendingMessage b)"
proof -
  let ?a = "IsoTp_init ca" and ?b = "IsoTp_init cb"
  have init [simp]: "config (IsoTp_init c) = c" "rxState (IsoTp_init c) = RxIdle"
    "txState (IsoTp_init c) = TxIdle" "\<not> rxMessageReady (IsoTp_init c)" for c
    by (simp_all add: IsoTp_init_def)
  have dc: "unat d < 2 ^ 32" using d(2) u32_lt [of "consecutiveFrameTimeoutMs cb"] by simp
  show ?thesis
  proof (cases "length p \<le> 7")
    case True
    with link_open_short [OF o(1,2) isotp_inv_init cfg(1,2), of sep p] cfg(3) len
      delivered_receive [OF _ buf]
    show ?thesis by fastforce
  next
    case False
    have N: "Suc (0 + (length p div 7 - 1)) = length p div 7" using False by simp
    have "length p \<le> 4095"
      using isConfigValid_bounds [OF cfg(1)] len(2) by (simp add: kMaxPayload_def)
    then have "length p div 7 - 1 + 2 \<le> 600" by linarith
    then have "(length p div 7 - 1 + 2) * unat d \<le> 600 * 2 ^ 32"
      using dc by (intro mult_mono) auto
    then have room: "unat (time wa) + (length p div 7 - 1 + 2) * unat d + 2 ^ 32 \<le> 2 ^ 64"
      using o(4) by simp
    have room0: "unat (time wa) + unat d + 2 ^ 32 \<le> 2 ^ 64" using o(4) dc by simp
    obtain a1 wa1 b1 wb1 where
      open1: "link_open E sent p ((?a, wa), (?b, wb)) = (TsInProgress, (a1, wa1), (b1, wb1))"
      and ok: "link_ok ok time p sep d 0 a1 wa1 b1 wb1" and c: "config b1 = cb"
      and t: "time wa1 = time wa"
      using link_open_long [OF o(1-3) isotp_inv_init isotp_inv_init cfg(1,2), of sep p d] cfg(3)
        False len room0 by auto
    from room t have "unat (time wa1) + (length p div 7 - 1 + 2) * unat d + 2 ^ 32 \<le> 2 ^ 64" by simp
    from link_rounds_deliver [OF ok N this] c d open1 delivered_receive [OF _ buf] False N
    show ?thesis by fastforce
  qed
qed

end

end
