(* ===== verification/IsoTp_Timing.thy ===== *)
theory IsoTp_Timing
  imports IsoTp_Sender
begin

text \<open>
  The sender's obedience to flow control: the separation time between consecutive frames, the
  block size and the bound on wait frames. Each is an invariant of the transmit half of the
  state; the receive half of the code leaves that half alone (\<open>tx_part\<close>).
\<close>

section \<open>The transmit half of the state\<close>

definition tx_part :: "IsoTp \<Rightarrow> IsoTpConfig \<times> bytes \<times> TxState \<times> nat \<times> nat \<times> u8 list \<times> u32 \<times> u64 list \<times> bool" where
  "tx_part s = (config s, txPayload s, txState s, txLength s, txOffset s,
     [txSequence s, txBlockSize s, txBlockRemaining s, txWaitCount s], txSeparationMs s,
     [txDeadlineMs s, txNextSendMs s, txLastCfMs s], txHasLastCf s)"

lemma tx_part_rx [simp]:
  "tx_part (resetRxAssembly s) = tx_part s"
  "tx_part (stageRx f t n s) = tx_part s"
  "tx_part (appendConsecutiveFrame f s) = tx_part s"
  "tx_part (IsoTp_discardPendingMessage s) = tx_part s"
  "tx_part (s\<lparr>rxDeadlineMs := a\<rparr>) = tx_part s"
  "tx_part (s\<lparr>rxBlockCount := b\<rparr>) = tx_part s"
  "tx_part (s\<lparr>rxMessageLength := c\<rparr>) = tx_part s"
  "tx_part (s\<lparr>rxMessageReady := d\<rparr>) = tx_part s"
  "tx_part (s\<lparr>rxPayload := e\<rparr>) = tx_part s"
  by (simp_all add: tx_part_def resetRxAssembly_def stageRx_def appendConsecutiveFrame_def
      IsoTp_discardPendingMessage_def Let_def)

lemma handleSingle_tx_part: "handleSingleFrame f s = (st, s1) \<Longrightarrow> tx_part s1 = tx_part s"
  by (auto simp: handleSingleFrame_def Let_def split: if_splits)

lemma handleFirst_tx_part: "handleFirstFrame E f t s w = (st, s1, w1) \<Longrightarrow> tx_part s1 = tx_part s"
  by (auto simp: handleFirstFrame_def Let_def split: if_splits prod.splits)

lemma handleConsecutive_tx_part:
  "handleConsecutiveFrame E f t s w = (st, s1, w1) \<Longrightarrow> tx_part s1 = tx_part s"
  by (auto simp: handleConsecutiveFrame_def Let_def split: if_splits prod.splits)

lemma receive_tx_part: "IsoTp_receive b c s = (st, n, b1, s1) \<Longrightarrow> tx_part s1 = tx_part s"
  by (auto simp: IsoTp_receive_def Let_def split: if_splits option.splits)

text \<open>What a CAN frame can do to the transmit half: nothing, a reset, or flow control.\<close>

lemma onCanFrame_tx_part:
  assumes "IsoTp_onCanFrame E f s w = (st, s1, w1)"
  shows "tx_part s1 = tx_part s \<or> s1 = resetTx s \<or> (\<exists>t. handleFlowControl f t s = (st, s1))"
  using assms
  by (auto simp: IsoTp_onCanFrame_def Let_def split: if_splits prod.splits
      dest: handleSingle_tx_part handleFirst_tx_part handleConsecutive_tx_part)

section \<open>Separation time\<close>

definition spacing_inv :: "IsoTp \<Rightarrow> bool" where
  "spacing_inv s \<longleftrightarrow>
     (txState s = TxSending \<and> txHasLastCf s \<longrightarrow>
        txLastCfMs s + ucast (txSeparationMs s) \<le> txNextSendMs s)"

lemma spacing_inv_cong: "tx_part s1 = tx_part s \<Longrightarrow> spacing_inv s1 = spacing_inv s"
  by (simp add: tx_part_def spacing_inv_def)

lemmas spacing_inv_rx [simp] =
  spacing_inv_cong [OF tx_part_rx(1)] spacing_inv_cong [OF tx_part_rx(4)]

lemma spacing_inv_reset [simp]: "spacing_inv (resetTx s)"
  by (simp add: spacing_inv_def resetTx_def)

lemma spacing_inv_updates [simp]:
  "spacing_inv (applyContinueToSend b m t s)"
  "spacing_inv (s\<lparr>txWaitCount := c, txDeadlineMs := d\<rparr>) = spacing_inv s"
  "spacing_inv (s\<lparr>txState := TxWaitFlowControl, txDeadlineMs := d\<rparr>)"
  "spacing_inv (s\<lparr>txBlockRemaining := r, txState := TxWaitFlowControl, txDeadlineMs := d\<rparr>)"
  "spacing_inv (acceptConsecutiveFrame t n s\<lparr>txNextSendMs := t + ucast (txSeparationMs s)\<rparr>)"
  "spacing_inv (acceptConsecutiveFrame t n s
     \<lparr>txBlockRemaining := r, txNextSendMs := t + ucast (txSeparationMs s)\<rparr>)"
  by (simp_all add: spacing_inv_def applyContinueToSend_def acceptConsecutiveFrame_def)

lemma handleFlow_spacing_snd: "spacing_inv s \<Longrightarrow> spacing_inv (snd (handleFlowControl f t s))"
  by (simp add: handleFlowControl_def Let_def split: option.split)

lemma handleFlow_spacing: "spacing_inv s \<Longrightarrow> handleFlowControl f t s = (st, s1) \<Longrightarrow> spacing_inv s1"
  using handleFlow_spacing_snd [of s f t] by simp

lemma onCanFrame_spacing:
  assumes "spacing_inv s" and "IsoTp_onCanFrame E f s w = (st, s1, w1)"
  shows "spacing_inv s1"
  using onCanFrame_tx_part [OF assms(2)] assms(1)
  by (auto dest: handleFlow_spacing spacing_inv_cong)

lemma startSend_spacing_fst:
  "spacing_inv s \<Longrightarrow> spacing_inv (fst (snd (IsoTp_startSend E p n s w)))"
  by (simp add: IsoTp_startSend_def Let_def split: option.split prod.split)

lemma startSend_spacing:
  "spacing_inv s \<Longrightarrow> IsoTp_startSend E p n s w = (st, s1, w1) \<Longrightarrow> spacing_inv s1"
  using startSend_spacing_fst [of s E p n w] by simp

lemma acceptConsecutive_simps [simp]:
  "txSeparationMs (acceptConsecutiveFrame t n s) = txSeparationMs s"
  "txBlockSize (acceptConsecutiveFrame t n s) = txBlockSize s"
  "txBlockRemaining (acceptConsecutiveFrame t n s) = txBlockRemaining s"
  "txState (acceptConsecutiveFrame t n s) = txState s"
  by (simp_all add: acceptConsecutiveFrame_def)

lemma sendNext_spacing_fst:
  "spacing_inv s \<Longrightarrow> spacing_inv (fst (snd (sendNextConsecutiveFrame E s w)))"
  by (simp add: sendNextConsecutiveFrame_def Let_def split: prod.split)

lemma sendNext_spacing:
  "spacing_inv s \<Longrightarrow> sendNextConsecutiveFrame E s w = (st, s1, w1) \<Longrightarrow> spacing_inv s1"
  using sendNext_spacing_fst [of s E w] by simp

lemma poll_spacing:
  "spacing_inv s \<Longrightarrow> IsoTp_poll E s w = (st, s1, w1) \<Longrightarrow> spacing_inv s1"
  by (auto simp: IsoTp_poll_def split: if_splits prod.splits dest: sendNext_spacing)

lemma isotp_step_spacing:
  "spacing_inv (fst x) \<Longrightarrow> spacing_inv (fst (snd (isotp_step E e x)))"
  by (cases x; cases e)
    (auto split: prod.splits dest: receive_tx_part [THEN spacing_inv_cong]
      intro: startSend_spacing poll_spacing onCanFrame_spacing)

lemma isotp_run_spacing: "spacing_inv (fst x) \<Longrightarrow> spacing_inv (fst (isotp_run E es x))"
  by (induction es arbitrary: x) (simp_all add: isotp_step_spacing)

lemma spacing_inv_init: "spacing_inv (IsoTp_init cfg)"
  by (simp add: spacing_inv_def IsoTp_init_def)

lemma poll_before_due:
  assumes "spacing_inv s" and "env_clock E w = (t, w1)" and "txHasLastCf s"
    and "t < txLastCfMs s + ucast (txSeparationMs s)" and "IsoTp_poll E s w = (st, s1, w2)"
  shows "w2 = w \<or> w2 = w1"
  using assms unfolding IsoTp_poll_def spacing_inv_def by (auto split: if_splits)

section \<open>Block size\<close>

text \<open>The frames the sender may still send before the next flow control.\<close>

definition block_budget :: "IsoTp \<Rightarrow> nat" where
  "block_budget s = (if txState s = TxSending then unat (txBlockRemaining s) else 0)"

definition blocked :: "IsoTp \<Rightarrow> bool" where
  "blocked s \<longleftrightarrow> (txState s = TxSending \<longrightarrow> txBlockSize s \<noteq> 0 \<and> txBlockRemaining s \<noteq> 0)"

fun arrives :: "'w isotp_event \<Rightarrow> bool" where
  "arrives (EvCanFrame f) = True"
| "arrives _ = False"

text \<open>The kind of a frame is the high half of its first byte.\<close>

definition pci :: "CanFrame \<Rightarrow> u8" where
  "pci f = drop_bit 4 (cf_payload f ! 0)"

definition is_consecutive :: "CanFrame \<Rightarrow> bool" where
  "is_consecutive f \<longleftrightarrow> pci f = 2"

lemma started_not_consecutive:
  "n \<le> 7 \<Longrightarrow> \<not> is_consecutive (makeSingleFrame s p n)" "\<not> is_consecutive (makeFirstFrame s p n)"
proof -
  assume "n \<le> 7"
  then have "n \<in> set [0 ..< 8]" by simp
  moreover have "list_all (\<lambda>n. drop_bit 4 (of_nat n :: u8) \<noteq> 2) [0 ..< 8]" by code_simp
  ultimately have "drop_bit 4 (of_nat n :: u8) \<noteq> 2" unfolding list_all_iff by blast
  moreover have "(replicate 8 (0 :: u8))[0 := of_nat n] = of_nat n # replicate 7 0"
    by (simp add: numeral_eq_Suc)
  ultimately show "\<not> is_consecutive (makeSingleFrame s p n)"
    by (simp add: is_consecutive_def pci_def makeSingleFrame_def makeTxFrame_def CanFrame_default_def blit_def Let_def)
next
  have "drop_bit 4 (0x10 OR of_nat (m AND 0x0F) :: u8) \<noteq> 2" for m :: nat
  proof -
    have "m AND 0x0F < 16" by (simp add: and_15_nat)
    then have "m AND 0x0F \<in> set [0 ..< 16]" by simp
    moreover have "list_all (\<lambda>n. drop_bit 4 (0x10 OR of_nat n :: u8) \<noteq> 2) [0 ..< 16]" by code_simp
    ultimately show ?thesis unfolding list_all_iff by blast
  qed
  moreover have "(replicate 8 (0 :: u8))[0 := a, Suc 0 := b] = a # b # replicate 6 0" for a b
    by (simp add: numeral_eq_Suc)
  ultimately show "\<not> is_consecutive (makeFirstFrame s p n)"
    by (simp add: is_consecutive_def pci_def makeFirstFrame_def makeTxFrame_def CanFrame_default_def blit_def Let_def)
qed

lemma block_cong: "tx_part s1 = tx_part s \<Longrightarrow> block_budget s1 = block_budget s \<and> blocked s1 = blocked s"
  by (simp add: tx_part_def block_budget_def blocked_def)

lemma block_reset [simp]: "block_budget (resetTx s) = 0" "blocked (resetTx s)"
  by (simp_all add: resetTx_def block_budget_def blocked_def)

lemma unat_pred: "(b :: u8) \<noteq> 0 \<Longrightarrow> Suc (unat (b - 1)) = unat b"
  by (simp add: unat_minus_one unat_gt_0)

lemma sendNext_block:
  assumes "sendNextConsecutiveFrame (log_env E) s (w, l) = (st, s1, w1, l1)"
    and "txState s = TxSending" and "blocked s"
  shows "length (filter P l1) + block_budget s1 \<le> length (filter P l) + block_budget s \<and> blocked s1"
proof -
  let ?n = "min 7 (txLength s - txOffset s)"
  let ?f = "makeConsecutiveFrame s ?n"
  obtain r v m where r: "sendFrame (log_env E) ?f (w, l) = (r, v, m)" by (metis prod_cases3)
  obtain t v' m' where t: "env_clock (log_env E) (v, m) = (t, v', m')" by (metis prod_cases3)
  from sendFrame_log [OF r] clock_log [OF t]
  have m: "m = (if r = TsComplete then l @ [?f] else l)" and m': "m' = m" by simp_all
  have b: "txBlockSize s \<noteq> 0" "txBlockRemaining s \<noteq> 0" using assms(2,3) by (auto simp: blocked_def)
  note p = unat_pred [OF b(2)]
  show ?thesis
    using assms r t m m' b p
    by (auto simp: sendNextConsecutiveFrame_def Let_def split: if_splits)
      (auto simp: block_budget_def blocked_def acceptConsecutiveFrame_def resetTx_def)
qed

lemma poll_block:
  assumes "IsoTp_poll (log_env E) s (w, l) = (st, s1, w1, l1)" and "blocked s"
  shows "length (filter P l1) + block_budget s1 \<le> length (filter P l) + block_budget s \<and> blocked s1"
proof -
  obtain t v m where t: "env_clock (log_env E) (w, l) = (t, v, m)" by (metis prod_cases3)
  then have m: "m = l" by (rule clock_log)
  show ?thesis
    using assms t m
    by (auto simp: IsoTp_poll_def block_cong [OF tx_part_rx(1)] split: if_splits
        dest: sendNext_block)
qed

text \<open>
  Starting a transmission grants nothing: it sends at most one frame, and not a consecutive one.
  \<open>c\<close> is what a start may add to the frames counted.
\<close>

lemma startSend_block:
  assumes "IsoTp_startSend (log_env E) p n s (w, l) = (st, s1, w1, l1)" and "blocked s"
    and "c = 1 \<or> P = is_consecutive"
  shows "length (filter P l1) + block_budget s1 \<le> length (filter P l) + block_budget s + c \<and> blocked s1"
  using assms started_not_consecutive
  by (auto simp: IsoTp_startSend_def Let_def block_budget_def blocked_def resetTx_def
      split: if_splits prod.splits option.splits dest!: sendFrame_log clock_log)

lemma isotp_step_block:
  assumes "isotp_step (log_env E) (log_event e) (s, w, l) = (st, s1, w1, l1)"
    and "\<not> arrives e" and "blocked s" and "c = 1 \<or> P = is_consecutive"
  shows "length (filter P l1) + block_budget s1 \<le>
      length (filter P l) + block_budget s + (if is_start e then c else 0) \<and> blocked s1"
proof (cases e)
  case (EvStartSend p n)
  then show ?thesis using assms(1) by (auto split: prod.splits dest!: startSend_block [OF _ assms(3,4)])
next
  case EvPoll
  then show ?thesis using assms(1) by (auto split: prod.splits dest!: poll_block [OF _ assms(3), where P = P])
next
  case (EvReceive b n)
  then show ?thesis using assms(1,3) by (auto split: prod.splits dest: block_cong [OF receive_tx_part])
qed (use assms block_cong [OF tx_part_rx(4) [of s]] in auto)

lemma isotp_run_block:
  assumes "isotp_run (log_env E) (map log_event es) (s, w, l) = (s1, w1, l1)"
    and "list_all (\<lambda>e. \<not> arrives e) es" and "blocked s" and "c = 1 \<or> P = is_consecutive"
  shows "length (filter P l1) + block_budget s1 \<le>
    length (filter P l) + block_budget s + c * length (filter is_start es)"
  using assms(1-3)
proof (induction es arbitrary: s w l)
  case (Cons e es)
  obtain st s' w' l' where e: "isotp_step (log_env E) (log_event e) (s, w, l) = (st, s', w', l')"
    by (metis prod_cases4)
  from isotp_step_block [OF this _ _ assms(4)] Cons.prems Cons.IH [of s' w' l'] show ?case
    by (auto simp: e)
qed simp

section \<open>Wait frames\<close>

definition is_wait :: "CanFrame \<Rightarrow> bool" where
  "is_wait f \<longleftrightarrow> 3 \<le> cf_length f \<and> (cf_payload f ! 0) AND 0x0F = 1"

definition flow_controls :: "(CanFrame \<times> u64) list \<Rightarrow> IsoTp \<Rightarrow> IsoTp" where
  "flow_controls fs s = fold (\<lambda>(f, t) s. snd (handleFlowControl f t s)) fs s"

lemma wait_step:
  assumes "is_wait f" and "txState s = TxWaitFlowControl"
  shows "handleFlowControl f t s =
    (if maxWaitFrames (config s) \<le> txWaitCount s then (TsWaitLimitExceeded, resetTx s)
     else (TsInProgress, s\<lparr>txWaitCount := txWaitCount s + 1,
             txDeadlineMs := t + ucast (flowControlTimeoutMs (config s))\<rparr>))"
  using assms by (auto simp: handleFlowControl_def is_wait_def Let_def not_less [symmetric])

lemma flow_controls_idle: "txState s = TxIdle \<Longrightarrow> flow_controls fs s = s"
  by (induction fs) (auto simp: flow_controls_def handleFlowControl_def)

lemma wait_limit_fold:
  assumes "list_all (is_wait \<circ> fst) fs" and "txState s = TxWaitFlowControl"
    and "txWaitCount s \<le> maxWaitFrames (config s)"
  shows "txState (flow_controls fs s) =
    (if unat (txWaitCount s) + length fs \<le> unat (maxWaitFrames (config s))
     then TxWaitFlowControl else TxIdle)"
  using assms
proof (induction fs arbitrary: s)
  case Nil
  then show ?case by (simp add: flow_controls_def word_le_nat_alt)
next
  case (Cons ft fs)
  obtain f t where ft: "ft = (f, t)" by fastforce
  have w: "is_wait f" using Cons.prems(1) ft by simp
  note step = wait_step [OF w Cons.prems(2), of t]
  have unfold: "flow_controls (ft # fs) s = flow_controls fs (snd (handleFlowControl f t s))"
    by (simp add: flow_controls_def ft)
  show ?case
  proof (cases "maxWaitFrames (config s) \<le> txWaitCount s")
    case True
    then have "txState (flow_controls (ft # fs) s) = TxIdle"
      using flow_controls_idle [of "resetTx s" fs] by (simp add: unfold step resetTx_def)
    with True show ?thesis by (simp add: word_le_nat_alt)
  next
    case False
    let ?s = "snd (handleFlowControl f t s)"
    have lt: "txWaitCount s < maxWaitFrames (config s)" using False by simp
    have "txState ?s = TxWaitFlowControl" "config ?s = config s" "txWaitCount ?s = txWaitCount s + 1"
      using False Cons.prems(2) by (simp_all add: step)
    moreover have "unat (txWaitCount s + 1) = Suc (unat (txWaitCount s))"
      by (rule unat_inc_below [OF lt])
    ultimately show ?thesis
      using Cons.IH [of ?s] Cons.prems(1) lt unfold
      by (simp add: word_le_nat_alt word_less_nat_alt)
  qed
qed

end
