(* ===== verification/IsoTp_Outcomes.thy ===== *)
theory IsoTp_Outcomes
  imports IsoTp_Timing
begin

text \<open>
  What it means that a transmission or a reassembly has ended: the half of the state concerned is
  idle, the other half (\<open>rx_part\<close>, \<open>tx_part\<close>) is untouched, and nothing of the message comes to
  light in any continuation - no data frame without a new \<open>startSend\<close>, no message without a new
  single or first frame.
\<close>

definition rx_part :: "IsoTp \<Rightarrow> IsoTpConfig \<times> bytes \<times> RxState \<times> nat list \<times> u8 list \<times> u64 \<times> bool" where
  "rx_part s = (config s, rxPayload s, rxState s, [rxExpectedLength s, rxOffset s, rxMessageLength s],
     [rxExpectedSequence s, rxBlockCount s], rxDeadlineMs s, rxMessageReady s)"

section \<open>A transmission that has ended\<close>

lemma sender_idle_step:
  assumes "isotp_step (log_env E) (log_event e) (s, w, l) = (st, s1, w1, l1)"
    and "\<not> is_start e" and "txState s = TxIdle"
  shows "txState s1 = TxIdle \<and> data_frames l1 = data_frames l"
proof -
  have clock: "m = l" if "env_clock (log_env E) (w, l) = (t, v, m)" for t v m
    using that by (rule clock_log)
  show ?thesis
  proof (cases e)
    case EvPoll
    then show ?thesis using assms clock
      by (auto simp: IsoTp_poll_def resetRxAssembly_def split: prod.splits if_splits)
  next
    case (EvCanFrame f)
    then show ?thesis using assms clock
      by (auto simp: IsoTp_onCanFrame_def handleFlowControl_def tx_view_def resetRxAssembly_def Let_def
          split: prod.splits if_splits dest: handleSingle_view handleFirst_log handleConsecutive_log)
  qed (use assms in \<open>auto simp: IsoTp_discardPendingMessage_def tx_view_def split: prod.splits dest: receive_view\<close>)
qed

lemma sender_idle_run:
  assumes "isotp_run (log_env E) (map log_event es) (s, w, l) = (s1, w1, l1)"
    and "list_all (\<lambda>e. \<not> is_start e) es" and "txState s = TxIdle"
  shows "txState s1 = TxIdle \<and> data_frames l1 = data_frames l"
  using assms
proof (induction es arbitrary: s w l)
  case (Cons e es)
  obtain st s' w' l' where e: "isotp_step (log_env E) (log_event e) (s, w, l) = (st, s', w', l')"
    by (metis prod_cases4)
  from sender_idle_step [OF this] Cons.prems Cons.IH [of s' w' l'] show ?case
    by (auto simp: e)
qed simp

section \<open>A reassembly that has ended\<close>

text \<open>The frames that begin a message.\<close>

fun opens :: "'w isotp_event \<Rightarrow> bool" where
  "opens (EvCanFrame f) \<longleftrightarrow> pci f = 0 \<or> pci f = 1"
| "opens _ = False"

lemma rx_part_tx:
  "rx_part (resetTx s) = rx_part s"
  by (simp add: rx_part_def resetTx_def)

lemma sendNext_rx_part: "sendNextConsecutiveFrame E s w = (st, s1, w1) \<Longrightarrow> rx_part s1 = rx_part s"
  by (auto simp: sendNextConsecutiveFrame_def rx_part_def resetTx_def acceptConsecutiveFrame_def Let_def
      split: if_splits prod.splits)

lemma handleFlow_rx_part: "handleFlowControl f t s = (st, s1) \<Longrightarrow> rx_part s1 = rx_part s"
  by (auto simp: handleFlowControl_def applyContinueToSend_def rx_part_def resetTx_def Let_def
      split: if_splits option.splits)

lemma startSend_rx_part: "IsoTp_startSend E p n s w = (st, s1, w1) \<Longrightarrow> rx_part s1 = rx_part s"
  by (auto simp: IsoTp_startSend_def stageTx_def rx_part_def resetTx_def Let_def
      split: if_splits option.splits prod.splits)

definition rx_empty :: "IsoTp \<Rightarrow> bool" where
  "rx_empty s \<longleftrightarrow> rxState s = RxIdle \<and> \<not> rxMessageReady s"

lemma rx_empty_cong: "rx_part s1 = rx_part s \<Longrightarrow> rx_empty s1 = rx_empty s"
  by (simp add: rx_part_def rx_empty_def)

lemma receiver_idle_step:
  assumes "isotp_step E e (s, w) = (st, s1, w1)" and "\<not> opens e" and "rx_empty s"
  shows "rx_empty s1"
proof (cases e)
  case (EvStartSend p n)
  then show ?thesis using assms by (auto split: prod.splits dest!: startSend_rx_part [THEN rx_empty_cong])
next
  case EvPoll
  then obtain st' where r: "IsoTp_poll E s w = (st', s1, w1)" using assms(1) by (auto split: prod.splits)
  obtain t v where "env_clock E w = (t, v)" by fastforce
  with r have "rx_part s1 = rx_part s"
    using assms(3) sendNext_rx_part [of E s v st' s1 w1] rx_part_tx [of s]
    by (simp add: IsoTp_poll_def rx_empty_def split: if_split_asm)
  then show ?thesis using assms(3) rx_empty_cong [of s1 s] by blast
next
  case (EvReceive b n)
  then show ?thesis using assms by (auto simp: IsoTp_receive_def rx_empty_def Let_def)
next
  case (EvCanFrame f)
  have "drop_bit 4 (b :: u8) AND 15 = drop_bit 4 b" for b
  proof -
    have mask: "(15 :: u8) = mask 4" by (simp add: mask_eq_exp_minus_1)
    show ?thesis unfolding mask
      by (rule bit_word_eqI) (auto simp: bit_simps dest: bit_imp_le_length)
  qed
  moreover obtain st' where r: "IsoTp_onCanFrame E f s w = (st', s1, w1)"
    using assms(1) EvCanFrame by (auto split: prod.splits)
  moreover obtain t v where "env_clock E w = (t, v)" by fastforce
  ultimately have "rx_part s1 = rx_part s"
    using assms(2,3) EvCanFrame
    by (auto simp: IsoTp_onCanFrame_def handleConsecutiveFrame_def pci_def rx_empty_def rx_part_tx Let_def
        split: prod.splits if_splits dest: handleFlow_rx_part)
  then show ?thesis using assms(3) rx_empty_cong [of s1 s] by blast
qed (use assms in \<open>auto simp: IsoTp_discardPendingMessage_def rx_empty_def\<close>)

lemma receiver_idle_run:
  assumes "isotp_run E es (s, w) = (s1, w1)" and "list_all (\<lambda>e. \<not> opens e) es" and "rx_empty s"
  shows "rx_empty s1"
  using assms
proof (induction es arbitrary: s w)
  case (Cons e es)
  obtain st s' w' where e: "isotp_step E e (s, w) = (st, s', w')" by (metis prod_cases3)
  from receiver_idle_step [OF this] Cons.prems Cons.IH [of s' w'] show ?case by (auto simp: e)
qed simp

lemma receive_empty: "rx_empty s \<Longrightarrow> IsoTp_receive b n s = (TsNoData, rxMessageLength s, b, s)"
  by (simp add: IsoTp_receive_def rx_empty_def)

end
