(* ===== verification/IsoTp_Properties.thy ===== *)
theory IsoTp_Properties
  imports IsoTp_Link IsoTp_Outcomes
begin

text \<open>
  The properties of the ISO-TP transport, stated over arbitrary runs, back ends and clocks where
  the code allows it, and over the repository's own mock back end for the end-to-end result.
\<close>

section \<open>Concrete configurations and worlds\<close>

text \<open>The diagnostic request and response identifiers of the first ECU, seen from each end.\<close>

definition tester_config :: IsoTpConfig where
  "tester_config = IsoTpConfig_default\<lparr>txId := 0x7E0, rxId := 0x7E8\<rparr>"

definition ecu_config :: IsoTpConfig where
  "ecu_config = IsoTpConfig_default\<lparr>txId := 0x7E8, rxId := 0x7E0, rxBlockSize := 2, rxStMin := 5\<rparr>"

definition mock_world :: "MockCan \<times> u64" where
  "mock_world = (MockCan_init\<lparr>mc_initialized := True\<rparr>, 0)"

lemma sample_configs:
  "isConfigValid (IsoTp_init tester_config)" "isConfigValid (IsoTp_init ecu_config)"
  "matched tester_config ecu_config 5" "maxPayload tester_config = 4095"
  "maxPayload ecu_config = 4095" "consecutiveFrameTimeoutMs ecu_config = 1000"
  "maxWaitFrames tester_config = 3"
  by (simp_all add: isConfigValid_def IsoTp_init_def makeTxFrame_def tester_config_def
      ecu_config_def IsoTpConfig_default_def CanFrame_isValid_def CanFrame_default_def
      kClassicCanMaxPayload_def kMaxPayload_def isStMinCodeValid_def matched_def decodeStMinMs_def)

lemma sample_world:
  "mock_ready mock_world" "snd mock_world = 0"
  by (simp_all add: mock_world_def mock_ready_def MockCan_init_def)

text \<open>A tester whose first frame is out, and the same tester with a consecutive frame out.\<close>

definition sample_waiting :: IsoTp where
  "sample_waiting = (IsoTp_init tester_config)
     \<lparr>txState := TxWaitFlowControl, txLength := 100, txOffset := 6, txDeadlineMs := 1000\<rparr>"

definition sample_sending :: IsoTp where
  "sample_sending = (IsoTp_init tester_config)
     \<lparr>txState := TxSending, txLength := 100, txOffset := 13, txSequence := 2, txBlockSize := 3,
      txBlockRemaining := 2, txSeparationMs := 5, txNextSendMs := 5, txHasLastCf := True\<rparr>"

definition sample_receiving :: IsoTp where
  "sample_receiving = (IsoTp_init tester_config)
     \<lparr>rxState := RxReceiving, rxExpectedLength := 100, rxOffset := 6, rxDeadlineMs := 1000\<rparr>"

lemmas sample_defs =
  sample_waiting_def sample_sending_def sample_receiving_def tester_config_def IsoTp_init_def
  IsoTpConfig_default_def kMaxPayload_def isConfigValid_def makeTxFrame_def CanFrame_isValid_def
  CanFrame_default_def kClassicCanMaxPayload_def isStMinCodeValid_def

lemma sample_inv: "isotp_inv sample_waiting" "isotp_inv sample_sending" "isotp_inv sample_receiving"
  by (simp_all add: isotp_inv_def rx_inv_def tx_inv_def tx_cleared_def tx_sent_def sample_defs)

lemma sample_fields:
  "txState sample_waiting = TxWaitFlowControl" "config sample_waiting = tester_config"
  "txWaitCount sample_waiting = 0" "config sample_sending = tester_config"
  "txState sample_sending = TxSending" "config sample_receiving = tester_config"
  "rxState sample_receiving = RxReceiving" "txState sample_receiving = TxIdle"
  by (simp_all add: sample_waiting_def sample_sending_def sample_receiving_def IsoTp_init_def)

text \<open>A tester's transport that holds the message \<open>m\<close>.\<close>

definition holding :: "bytes \<Rightarrow> IsoTp" where
  "holding m = (IsoTp_init tester_config)
     \<lparr>rxPayload := blit (replicate 4095 0) 0 m, rxMessageLength := length m, rxMessageReady := True\<rparr>"

lemma holding_simps:
  assumes "m \<noteq> []" and "length m \<le> 4095"
  shows "isotp_inv (holding m)" and "delivered m (holding m)" and "txState (holding m) = TxIdle"
  using assms
  by (simp_all add: holding_def isotp_inv_def rx_inv_def tx_inv_def tx_cleared_def delivered_def
      blit_def sample_defs)

section \<open>Safety of every run\<close>

text \<open>
  C12: In every run of the public operations, with any CAN back end, clock and frames, the transport
  keeps its invariant: array sizes, offsets inside the expected lengths, sequence and block
  counters, the bound on wait frames, and a cleared transmit half when idle.
\<close>

theorem isotp_run_invariant: "isotp_inv (fst (isotp_run E es (IsoTp_init cfg, w)))"
  by (rule isotp_run_inv) (simp add: isotp_inv_init)

text \<open>
  In every run no buffer index leaves its array and no length exceeds the configuration: the
  subtractions \<open>rxExpectedLength_ - rxOffset_\<close> and \<open>txLength_ - txOffset_\<close> never wrap and a stored
  message fits the receive buffer.
\<close>

theorem isotp_run_bounds:
  "case isotp_run E es (IsoTp_init cfg, w) of (s, w1) \<Rightarrow>
     length (rxPayload s) = 4095 \<and> length (txPayload s) = 4095 \<and>
     rxOffset s \<le> rxExpectedLength s \<and> rxExpectedLength s \<le> maxPayload cfg \<and>
     txOffset s \<le> txLength s \<and> txLength s \<le> maxPayload cfg \<and>
     rxMessageLength s \<le> maxPayload cfg \<and> rxExpectedLength s \<le> 4095 \<and>
     txLength s \<le> 4095 \<and> rxMessageLength s \<le> 4095"
proof -
  obtain s w1 where r: "isotp_run E es (IsoTp_init cfg, w) = (s, w1)" by fastforce
  have inv: "isotp_inv s" using isotp_run_inv [of "(IsoTp_init cfg, w)" E es] r
    by (simp add: isotp_inv_init)
  have c: "config s = cfg" using isotp_run_config [of E es "(IsoTp_init cfg, w)"] r
    by (simp add: IsoTp_init_def)
  have cap: "isConfigValid s \<Longrightarrow> maxPayload cfg \<le> 4095"
    using isConfigValid_bounds [of s] c by (simp add: kMaxPayload_def)
  have rx: "rx_inv s" and tx: "tx_inv s" using inv by (simp_all add: isotp_inv_def)
  have a: "rxOffset s \<le> rxExpectedLength s \<and> rxExpectedLength s \<le> maxPayload cfg \<and>
      rxExpectedLength s \<le> 4095"
  proof (cases "rxState s")
    case RxIdle
    with rx show ?thesis by (simp add: rx_inv_def)
  next
    case RxReceiving
    with rx have "rxOffset s < rxExpectedLength s" "rxExpectedLength s \<le> maxPayload cfg"
      "isConfigValid s" by (auto simp: rx_inv_def c)
    with cap show ?thesis by simp
  qed
  have b: "txOffset s \<le> txLength s \<and> txLength s \<le> maxPayload cfg \<and> txLength s \<le> 4095"
  proof (cases "txState s = TxIdle")
    case True
    with tx show ?thesis by (simp add: tx_inv_def tx_cleared_def)
  next
    case False
    with tx have "txOffset s < txLength s" "txLength s \<le> maxPayload cfg" "isConfigValid s"
      by (simp_all add: tx_inv_def c)
    with cap show ?thesis by simp
  qed
  have d: "rxMessageLength s \<le> maxPayload cfg \<and> rxMessageLength s \<le> 4095"
  proof (cases "rxMessageReady s")
    case True
    with rx have "rxMessageLength s \<le> maxPayload cfg" "isConfigValid s"
      by (simp_all add: rx_inv_def c)
    with cap show ?thesis by simp
  next
    case False
    with rx show ?thesis by (simp add: rx_inv_def)
  qed
  have "length (rxPayload s) = 4095" "length (txPayload s) = 4095"
    using rx tx by (simp_all add: rx_inv_def tx_inv_def kMaxPayload_def)
  with a b d show ?thesis by (simp add: r)
qed

section \<open>What the sender puts on the bus\<close>

text \<open>
  C13: After an accepted or rejected \<open>startSend\<close> of the first \<open>n\<close> bytes of a buffer, and any further
  polls, frames, receives, discards and changes of the back end, the data frames the CAN back end
  accepted are a prefix of the ISO-TP segmentation of the payload, in order and without repetition.
\<close>

theorem isotp_sender_prefix:
  assumes "isotp_inv s" and "txState s = TxIdle" and "n \<le> length p"
    and "IsoTp_startSend (log_env E) (Some p) n s (w, []) = (st, s1, w1, l1)"
    and "list_all (\<lambda>e. \<not> is_start e) es"
    and "isotp_run (log_env E) (map log_event es) (s1, w1, l1) = (s2, w2, l2)"
  shows "\<exists>k \<le> length (segment (take n p)).
    data_frames l2 = map (tx_frame (config s)) (take k (segment (take n p)))"
proof -
  note start = startSend_log [OF assms(1-4)]
  have "isotp_inv s1" using startSend_inv [OF assms(1,4)] .
  moreover have "tx_log (take n p) s1 l1" "config s1 = config s" using start by simp_all
  ultimately have "tx_log (take n p) s2 l2" "config s2 = config s"
    using isotp_run_log [OF _ _ assms(5,6)] by simp_all
  then show ?thesis by (auto simp: tx_log_def)
qed

text \<open>
  When \<open>startSend\<close> or a later \<open>poll\<close> reports \<open>Complete\<close>, the data frames accepted so far are the
  whole segmentation of the payload: nothing is lost, added or reordered.
\<close>

theorem isotp_sender_complete:
  assumes "isotp_inv s" and "txState s = TxIdle" and "n \<le> length p"
    and "IsoTp_startSend (log_env E) (Some p) n s (w, []) = (st, s1, w1, l1)"
    and "list_all (\<lambda>e. \<not> is_start e) es"
    and "isotp_run (log_env E) (map log_event es) (s1, w1, l1) = (s2, w2, l2)"
    and "IsoTp_poll (log_env E) s2 (w2, l2) = (st3, s3, w3, l3)"
  shows "(st = TsComplete \<longrightarrow> data_frames l1 = map (tx_frame (config s)) (segment (take n p))) \<and>
    (st3 = TsComplete \<longrightarrow> data_frames l3 = map (tx_frame (config s)) (segment (take n p)))"
proof -
  note start = startSend_log [OF assms(1-4)]
  have "isotp_inv s1" using startSend_inv [OF assms(1,4)] .
  then have "tx_log (take n p) s2 l2" "isotp_inv s2" "config s2 = config s"
    using isotp_run_log [OF _ _ assms(5,6), of "take n p"] start by simp_all
  from poll_log [OF this(2,1) assms(7)] this(3) start show ?thesis by simp
qed

text \<open>A three-byte request through the mock back end, and the poll that finds the transport idle.\<close>

definition short_request :: bytes where
  "short_request = [0x22, 0xF1, 0x90]"

definition short_frame :: CanFrame where
  "short_frame = tx_frame tester_config (3 # short_request)"

lemma short_frame_simps:
  "length short_request = 3" "segment (take 3 short_request) = [3 # short_request]"
  "makeSingleFrame (IsoTp_init tester_config) short_request 3 = short_frame"
  "CanFrame_isValid short_frame"
  by (simp_all add: short_request_def segment_def makeSingleFrame_segment short_frame_def
      IsoTp_init_def CanFrame_isValid_def pdu_frame_def tester_config_def IsoTpConfig_default_def
      kClassicCanMaxPayload_def)

lemma short_run:
  "IsoTp_startSend (log_env mock_env) (Some short_request) 3 (IsoTp_init tester_config)
     (mock_world, []) = (TsComplete, IsoTp_init tester_config, mock_put short_frame mock_world, [short_frame])"
  "IsoTp_poll (log_env mock_env) (IsoTp_init tester_config) (mock_put short_frame mock_world, [short_frame]) =
     (TsIdle, IsoTp_init tester_config, mock_put short_frame mock_world, [short_frame])"
proof -
  have f: "config (IsoTp_init tester_config) = tester_config"
    "txState (IsoTp_init tester_config) = TxIdle" "rxState (IsoTp_init tester_config) = RxIdle"
    by (simp_all add: IsoTp_init_def)
  show "IsoTp_startSend (log_env mock_env) (Some short_request) 3 (IsoTp_init tester_config)
      (mock_world, []) = (TsComplete, IsoTp_init tester_config, mock_put short_frame mock_world, [short_frame])"
    using mock_send_ready [OF sample_world(1) short_frame_simps(4)]
    by (simp add: IsoTp_startSend_def sample_configs f short_frame_simps kMaxPayload_def
        sendFrame_def log_env_def)
  show "IsoTp_poll (log_env mock_env) (IsoTp_init tester_config)
      (mock_put short_frame mock_world, [short_frame]) =
     (TsIdle, IsoTp_init tester_config, mock_put short_frame mock_world, [short_frame])"
    by (simp add: IsoTp_poll_def sample_configs f log_env_def mock_env_def mock_put_def)
qed

lemma isotp_sender_prefix_witness:
  "\<exists>k \<le> length (segment (take 3 short_request)).
    data_frames [short_frame] =
      map (tx_frame (config (IsoTp_init tester_config))) (take k (segment (take 3 short_request)))"
  by (rule isotp_sender_prefix [OF isotp_inv_init _ _ short_run(1), of "[]"])
    (simp_all add: IsoTp_init_def short_frame_simps)

lemma isotp_sender_complete_witness:
  "data_frames [short_frame] =
     map (tx_frame (config (IsoTp_init tester_config))) (segment (take 3 short_request))"
proof -
  have "txState (IsoTp_init tester_config) = TxIdle" by (simp add: IsoTp_init_def)
  with isotp_sender_complete [OF isotp_inv_init _ _ short_run(1), of "[]"] short_run(2)
  show ?thesis by (simp add: short_frame_simps)
qed

section \<open>End to end\<close>

text \<open>
  C1: Two transports joined by a bus, each over the repository's mock back end and clock, deliver
  every non-empty payload within both configurations' limits: the sender opens the exchange, after
  \<open>length p div 7\<close> rounds (none for a single frame) it reports \<open>Complete\<close>, and \<open>receive\<close> on the other
  side returns exactly the payload, for every block size and separation time the receiver asks for,
  as long as a round waits at least the separation time and less than the receiver's time-out.
\<close>

theorem isotp_link_delivers:
  assumes "mock_ready wa" and "mock_ready wb" and "snd wa = snd wb" and "unat (snd wa) < 2 ^ 63"
    and "isConfigValid (IsoTp_init ca)" and "isConfigValid (IsoTp_init cb)" and "matched ca cb sep"
    and "p \<noteq> []" and "length p \<le> maxPayload ca" and "length p \<le> maxPayload cb"
    and "unat sep \<le> unat d" and "unat d < unat (consecutiveFrameTimeoutMs cb)"
    and "length p \<le> length buf"
  shows "\<exists>st x a wa1 b wb1.
    link_open mock_env mock_sent p ((IsoTp_init ca, wa), (IsoTp_init cb, wb)) = (st, x) \<and>
    (if length p \<le> 7 then st = TsComplete \<and> x = ((a, wa1), (b, wb1))
     else st = TsInProgress \<and>
       link_rounds mock_env mock_sent mock_tick d (length p div 7) x =
         (TsComplete, (a, wa1), (b, wb1))) \<and>
    txState a = TxIdle \<and>
    IsoTp_receive (Some buf) (length buf) b =
      (TsComplete, length p, Some (p @ drop (length p) buf), IsoTp_discardPendingMessage b)"
  by (rule mock.link_delivers [OF assms])

lemma isotp_link_delivers_witness:
  "\<exists>st x a wa1 b wb1.
    link_open mock_env mock_sent (replicate 30 7)
      ((IsoTp_init tester_config, mock_world), (IsoTp_init ecu_config, mock_world)) = (st, x) \<and>
    (if length (replicate 30 (7 :: u8)) \<le> 7 then st = TsComplete \<and> x = ((a, wa1), (b, wb1))
     else st = TsInProgress \<and>
       link_rounds mock_env mock_sent mock_tick 10 (length (replicate 30 (7 :: u8)) div 7) x =
         (TsComplete, (a, wa1), (b, wb1))) \<and>
    txState a = TxIdle \<and>
    IsoTp_receive (Some (replicate 64 0)) (length (replicate 64 (0 :: u8))) b =
      (TsComplete, length (replicate 30 (7 :: u8)),
       Some (replicate 30 7 @ drop (length (replicate 30 (7 :: u8))) (replicate 64 0)),
       IsoTp_discardPendingMessage b)"
  by (rule isotp_link_delivers [of mock_world mock_world tester_config ecu_config 5])
    (simp_all add: sample_configs sample_world)

section \<open>Obedience to flow control\<close>

text \<open>
  C20: Separation time. In every run, while less than the separation time asked for by the receiver
  has passed since the last accepted consecutive frame, a poll hands no frame to the back end.
\<close>

theorem isotp_separation_time:
  assumes "txState s0 = TxIdle"
    and "isotp_run (log_env E) es (s0, w, l) = (s, w1, l1)"
    and "env_clock E w1 = (now, w2)" and "txHasLastCf s"
    and "now < txLastCfMs s + ucast (txSeparationMs s)"
    and "IsoTp_poll (log_env E) s (w1, l1) = (st, s1, w3, l2)"
  shows "l2 = l1"
proof -
  have "spacing_inv s"
    using isotp_run_spacing [of "(s0, w, l)" "log_env E" es] assms(1,2)
    by (simp add: spacing_inv_def)
  moreover have "env_clock (log_env E) (w1, l1) = (now, w2, l1)"
    using assms(3) by (simp add: log_env_def)
  ultimately show ?thesis using poll_before_due [OF _ _ assms(4,5,6)] by fastforce
qed

text \<open>
  A run with a separation time of five milliseconds, up to its first consecutive frame; the arrays
  of this idle start state are short, which keeps the evaluation small.
\<close>

definition small_idle :: IsoTp where
  "small_idle =
     \<lparr>config = tester_config, rxPayload = [], txPayload = replicate 20 0,
      rxState = RxIdle, txState = TxIdle, rxExpectedLength = 0, rxOffset = 0,
      rxMessageLength = 0, txLength = 0, txOffset = 0, rxExpectedSequence = 1,
      rxBlockCount = 0, txSequence = 1, txBlockSize = 0, txBlockRemaining = 0,
      txWaitCount = 0, txSeparationMs = 0, rxDeadlineMs = 0, txDeadlineMs = 0,
      txNextSendMs = 0, txLastCfMs = 0, txHasLastCf = False, rxMessageReady = False\<rparr>"

definition spaced_events :: "((MockCan \<times> u64) \<times> CanFrame list) isotp_event list" where
  "spaced_events =
     [EvStartSend (Some (replicate 20 7)) 20,
      EvCanFrame (CanFrame_default\<lparr>cf_id := 0x7E8, cf_length := 3,
                                   cf_payload := [0x30, 0, 5, 0, 0, 0, 0, 0]\<rparr>),
      EvPoll]"

definition spaced :: "IsoTp \<times> (MockCan \<times> u64) \<times> CanFrame list" where
  "spaced = isotp_run (log_env mock_env) spaced_events (small_idle, mock_world, [])"

lemma spaced_facts:
  "txHasLastCf (fst spaced) \<and> txLastCfMs (fst spaced) = 0 \<and> txSeparationMs (fst spaced) = 5 \<and>
   snd (fst (snd spaced)) = 0 \<and> length (snd (snd spaced)) = 2"
  by (simp add: spaced_def spaced_events_def small_idle_def mock_world_def MockCan_init_def
      IsoTp_startSend_def IsoTp_onCanFrame_def IsoTp_poll_def sample_defs stageTx_def sendFrame_def
      makeFirstFrame_def log_env_def mock_env_def MockCan_send_def FakeClock_nowMs_def
      handleFlowControl_def decodeStMinMs_def applyContinueToSend_def sendNextConsecutiveFrame_def
      makeConsecutiveFrame_def acceptConsecutiveFrame_def)

lemma isotp_separation_time_witness:
  "snd (snd (snd (IsoTp_poll (log_env mock_env) (fst spaced) (snd spaced)))) = snd (snd spaced)"
proof -
  obtain s w1 l1 where s: "spaced = (s, w1, l1)" by (metis prod_cases3)
  obtain st s1 w3 l2 where p: "IsoTp_poll (log_env mock_env) s (w1, l1) = (st, s1, w3, l2)"
    by (metis prod_cases4)
  have r: "isotp_run (log_env mock_env) spaced_events (small_idle, mock_world, []) = (s, w1, l1)"
    using s by (simp add: spaced_def)
  have c: "env_clock mock_env w1 = (0, w1)"
    using spaced_facts unfolding s by (cases w1) (simp add: mock_env_def FakeClock_nowMs_def)
  have i: "txState small_idle = TxIdle" by (simp add: small_idle_def)
  have "l2 = l1"
    by (rule isotp_separation_time [OF i r c _ _ p]) (use spaced_facts in \<open>simp_all add: s\<close>)
  then show ?thesis by (simp add: s p)
qed

text \<open>
  C19: Block size. Once flow control has granted a block, the transport sends at most the granted
  number of consecutive frames until the next frame arrives, whatever else happens: polls, calls
  that take or discard a message, changes of the world, and new transmissions. The only other frames
  it sends meanwhile are the single or first frames that open these, at most one for each
  \<open>startSend\<close>.
\<close>

theorem isotp_block_size:
  assumes "isotp_inv s" and "txState s = TxSending" and "txBlockSize s \<noteq> 0"
    and "list_all (\<lambda>e. \<not> arrives e) es"
    and "isotp_run (log_env E) (map log_event es) (s, w, []) = (s1, w1, l)"
  shows "length (filter is_consecutive l) \<le> unat (txBlockRemaining s) \<and>
    length l \<le> unat (txBlockRemaining s) + length (filter is_start es)"
proof -
  have "blocked s" using assms(1-3) by (simp add: blocked_def isotp_inv_def tx_inv_def)
  from isotp_run_block [OF assms(5,4) this, of 0 is_consecutive]
    isotp_run_block [OF assms(5,4) this, of 1 "\<lambda>_. True"] assms(2)
  show ?thesis by (simp add: block_budget_def)
qed

text \<open>A new transmission is asked for between the polls.\<close>

lemma isotp_block_size_witness:
  "length (filter is_consecutive (snd (snd (isotp_run (log_env mock_env)
     (map log_event [EvPoll, EvStartSend (Some [1, 2]) 2, EvWorld (mock_tick 5), EvPoll])
     (sample_sending, (fst mock_world, 5), []))))) \<le> 2"
proof -
  obtain s w l where r: "isotp_run (log_env mock_env)
     (map log_event [EvPoll, EvStartSend (Some [1, 2]) 2, EvWorld (mock_tick 5), EvPoll])
     (sample_sending, (fst mock_world, 5), []) = (s, w, l)" by (metis prod_cases3)
  have "txBlockSize sample_sending \<noteq> 0" "unat (txBlockRemaining sample_sending) = 2"
    by (simp_all add: sample_sending_def)
  with isotp_block_size [OF sample_inv(2) _ _ _ r] show ?thesis unfolding r by (simp add: sample_fields)
qed

text \<open>
  C21: Wait frames. A waiting sender accepts exactly \<open>maxWaitFrames - txWaitCount\<close> further wait frames;
  the next one ends the transmission (\<open>WaitLimitExceeded\<close>), so a peer cannot hold it for ever.
\<close>

theorem isotp_wait_limit:
  assumes "list_all (is_wait \<circ> fst) fs" and "isotp_inv s" and "txState s = TxWaitFlowControl"
  shows "txState (flow_controls fs s) =
    (if unat (txWaitCount s) + length fs \<le> unat (maxWaitFrames (config s))
     then TxWaitFlowControl else TxIdle)"
proof (rule wait_limit_fold [OF assms(1,3)])
  show "txWaitCount s \<le> maxWaitFrames (config s)"
    using assms(2,3) by (simp add: isotp_inv_def tx_inv_def)
qed

definition sample_wait :: CanFrame where
  "sample_wait = CanFrame_default\<lparr>cf_id := 0x7E8, cf_length := 3, cf_payload := [0x31, 0, 0, 0, 0, 0, 0, 0]\<rparr>"

lemma isotp_wait_limit_witness:
  "txState (flow_controls (replicate 4 (sample_wait, 0)) sample_waiting) = TxIdle"
proof -
  have "list_all (is_wait \<circ> fst) (replicate 4 (sample_wait, 0))"
    by (simp add: list_all_iff is_wait_def sample_wait_def)
  from isotp_wait_limit [OF this sample_inv(1) sample_fields(1)] show ?thesis
    by (simp add: sample_fields sample_configs)
qed

section \<open>Errors\<close>

text \<open>
  C29: Receive time-out. A clock reading at or after the reassembly deadline ends the reassembly: both
  \<open>poll\<close> and any well-formed frame for this transport, the awaited consecutive frame included,
  report \<open>Timeout\<close>, and the partial message is dropped without ever becoming ready.
\<close>

theorem isotp_rx_deadline:
  assumes "isConfigValid s" and "rxState s = RxReceiving" and "env_clock E w = (now, w1)"
    and "rxDeadlineMs s \<le> now" and "cf_id f = rxId (config s)"
    and "cf_format f = frameFormat (config s)" and "CanFrame_isValid f" and "cf_length f \<noteq> 0"
  shows "IsoTp_poll E s w = (TsTimeout, resetRxAssembly s, w1) \<and>
    IsoTp_onCanFrame E f s w = (TsTimeout, resetRxAssembly s, w1) \<and>
    rxState (resetRxAssembly s) = RxIdle \<and>
    rxMessageReady (resetRxAssembly s) = rxMessageReady s"
  using assms by (simp add: IsoTp_poll_def IsoTp_onCanFrame_def resetRxAssembly_def)

definition sample_cf :: "u8 \<Rightarrow> CanFrame" where
  "sample_cf sn = CanFrame_default\<lparr>cf_id := 0x7E8, cf_length := 8, cf_payload := [0x20 OR sn, 1, 2, 3, 4, 5, 6, 7]\<rparr>"

lemma sample_cf_simps:
  "cf_id (sample_cf n) = 0x7E8" "cf_format (sample_cf n) = Standard" "CanFrame_isValid (sample_cf n)"
  "cf_length (sample_cf n) = 8" "cf_payload (sample_cf n) ! 0 = 0x20 OR n"
  by (simp_all add: sample_cf_def CanFrame_isValid_def kClassicCanMaxPayload_def)

lemma sample_receiving_simps:
  "isConfigValid sample_receiving" "rxDeadlineMs sample_receiving = 1000"
  "rxExpectedSequence sample_receiving = 1" "rxMessageReady sample_receiving = False"
  "rxId tester_config = 0x7E8" "frameFormat tester_config = Standard"
  by (simp_all add: sample_defs)

lemma isotp_rx_deadline_witness:
  "IsoTp_onCanFrame mock_env (sample_cf 1) sample_receiving (fst mock_world, 1000) =
     (TsTimeout, resetRxAssembly sample_receiving, (fst mock_world, 1000))"
  using isotp_rx_deadline [of sample_receiving mock_env "(fst mock_world, 1000)" 1000
      "(fst mock_world, 1000)" "sample_cf 1"]
  by (simp add: sample_receiving_simps sample_fields sample_cf_simps mock_env_def FakeClock_nowMs_def)

text \<open>
  C30: Sequence errors. While a reassembly is running and no deadline has passed, a consecutive frame
  with a sequence number other than the expected one is reported as \<open>SequenceError\<close> and ends the
  reassembly: the receive half is idle with no message ready, the transmit half is untouched, no
  frame is sent, and whatever happens afterwards, until a single or first frame arrives there is no
  reassembly and no message to be received - the partial message is gone.
\<close>

theorem isotp_sequence_error:
  assumes "isotp_inv s" and "rxState s = RxReceiving" and "env_clock E w = (now, w1)"
    and "now < rxDeadlineMs s" and "txState s = TxWaitFlowControl \<Longrightarrow> now < txDeadlineMs s"
    and "cf_id f = rxId (config s)" and "cf_format f = frameFormat (config s)"
    and "CanFrame_isValid f" and "2 \<le> cf_length f"
    and "pci f = 2" and "(cf_payload f ! 0) AND 0x0F \<noteq> rxExpectedSequence s"
    and "list_all (\<lambda>e. \<not> opens e) es"
  shows "case IsoTp_onCanFrame E f s w of (st, s1, w2) \<Rightarrow>
    st = TsSequenceError \<and> w2 = w1 \<and> rxState s1 = RxIdle \<and> \<not> rxMessageReady s1 \<and>
    tx_part s1 = tx_part s \<and>
    (case isotp_run E es (s1, w1) of (s2, w3) \<Rightarrow>
       rxState s2 = RxIdle \<and> fst (IsoTp_receive buf capacity s2) = TsNoData)"
proof -
  have "isConfigValid s" "\<not> rxMessageReady s" using assms(1,2) by (auto simp: isotp_inv_def rx_inv_def)
  moreover have "cf_length f \<noteq> 0" "\<not> cf_length f < 2" using assms(9) by auto
  ultimately have step: "IsoTp_onCanFrame E f s w = (TsSequenceError, resetRxAssembly s, w1)"
    using assms(2-11)
    by (auto simp: IsoTp_onCanFrame_def handleConsecutiveFrame_def pci_def not_le [symmetric])
  have empty: "rx_empty (resetRxAssembly s)"
    using \<open>\<not> rxMessageReady s\<close> by (simp add: rx_empty_def resetRxAssembly_def)
  obtain s2 w3 where r: "isotp_run E es (resetRxAssembly s, w1) = (s2, w3)" by fastforce
  from receiver_idle_run [OF r assms(12) empty] have "rx_empty s2" .
  with empty show ?thesis by (simp add: step r receive_empty) (simp add: rx_empty_def)
qed

text \<open>A consecutive frame with the number 3 instead of 1, then the awaited one, too late.\<close>

lemma isotp_sequence_error_witness:
  "fst (IsoTp_onCanFrame mock_env (sample_cf 3) sample_receiving mock_world) = TsSequenceError \<and>
   rxState (fst (isotp_run mock_env [EvCanFrame (sample_cf 1), EvPoll]
     (fst (snd (IsoTp_onCanFrame mock_env (sample_cf 3) sample_receiving mock_world)), mock_world))) = RxIdle"
proof -
  have "list_all (\<lambda>e. \<not> opens e) [EvCanFrame (sample_cf 1), EvPoll :: (MockCan \<times> u64) isotp_event]"
    by (simp add: pci_def sample_cf_simps)
  then show ?thesis
    using isotp_sequence_error [of sample_receiving mock_env mock_world 0 mock_world "sample_cf 3"
        "[EvCanFrame (sample_cf 1), EvPoll]"]
    by (simp add: sample_inv sample_fields sample_receiving_simps sample_cf_simps mock_env_def
        mock_world_def FakeClock_nowMs_def pci_def case_prod_beta)
qed

text \<open>
  C31: Transmit failures. Suppose a poll, with no reassembly overdue, comes to send a consecutive
  frame that is due and the back end does not accept it. Then nothing is logged as sent. If the controller is busy the poll reports it and the transport is exactly as
  before, so the frame will be tried again. Any other failure is reported by its own status and ends
  the transmission: the transmit half is idle, the receive half is untouched, and whatever happens
  afterwards, no data frame is sent before the next \<open>startSend\<close>.
\<close>

theorem isotp_transmit_failure:
  assumes "isConfigValid s" and "rxState s = RxReceiving \<Longrightarrow> now < rxDeadlineMs s"
    and "txState s = TxSending" and "env_clock E w = (now, w1)" and "txNextSendMs s \<le> now"
    and "hal_send (env_can E) (makeConsecutiveFrame s (min 7 (txLength s - txOffset s))) w1 = (cst, w2)"
    and "cst \<noteq> CanOk" and "list_all (\<lambda>e. \<not> is_start e) es"
  shows "case IsoTp_poll (log_env E) s (w, l) of (st, s1, w3, l1) \<Rightarrow>
    w3 = w2 \<and> l1 = l \<and>
    (if cst = CanTxBusy then st = TsTxBusy \<and> s1 = s
     else (cst, st) \<in> {(CanTxFailed, TsTxFailed), (CanBusOff, TsBusOff), (CanNotInitialized, TsNotInitialized),
         (CanInvalidConfig, TsInvalidArgument), (CanNoData, TsCanError), (CanDriverError, TsCanError),
         (CanRxOverflow, TsCanError)} \<and>
       txState s1 = TxIdle \<and> rx_part s1 = rx_part s \<and>
       (case isotp_run (log_env E) (map log_event es) (s1, w2, l) of (s2, w4, l2) \<Rightarrow>
          txState s2 = TxIdle \<and> data_frames l2 = data_frames l))"
proof -
  have "env_clock (log_env E) (w, l) = (now, w1, l)"
    "hal_send (env_can (log_env E)) (makeConsecutiveFrame s (min 7 (txLength s - txOffset s))) (w1, l) = (cst, w2, l)"
    using assms(4,6,7) by (simp_all add: log_env_def)
  then have step: "IsoTp_poll (log_env E) s (w, l) =
      (mapCanStatus cst, if cst = CanTxBusy then s else resetTx s, w2, l)"
    using assms(1,2,3,5,7)
    by (auto simp: IsoTp_poll_def sendNextConsecutiveFrame_def sendFrame_def Let_def)
  have idle: "txState (resetTx s) = TxIdle" by (simp add: resetTx_def)
  obtain s2 w4 l2 where r: "isotp_run (log_env E) (map log_event es) (resetTx s, w2, l) = (s2, w4, l2)"
    by (metis prod_cases3)
  from sender_idle_run [OF r assms(8) idle] idle rx_part_tx show ?thesis
    using assms(7) by (cases cst) (simp_all add: step r)
qed

text \<open>A controller that was never initialised, and a further poll.\<close>

lemma isotp_transmit_failure_witness:
  "fst (IsoTp_poll (log_env mock_env) sample_sending ((MockCan_init, 5), [])) = TsNotInitialized \<and>
   txState (fst (isotp_run (log_env mock_env) (map log_event [EvPoll])
     (fst (snd (IsoTp_poll (log_env mock_env) sample_sending ((MockCan_init, 5), []))), (MockCan_init, 5), []))) = TxIdle"
proof -
  have "hal_send (env_can mock_env) f (MockCan_init, 5) = (CanNotInitialized, (MockCan_init, 5))" for f
    by (simp add: mock_env_def MockCan_send_def MockCan_init_def)
  moreover have "isConfigValid sample_sending" "rxState sample_sending = RxIdle"
    "txNextSendMs sample_sending = 5" by (simp_all add: sample_defs)
  moreover have "env_clock mock_env (MockCan_init, 5) = (5, (MockCan_init, 5))"
    by (simp add: mock_env_def FakeClock_nowMs_def)
  ultimately show ?thesis
    using isotp_transmit_failure [of sample_sending 5 mock_env "(MockCan_init, 5)" "(MockCan_init, 5)"
        CanNotInitialized "(MockCan_init, 5)" "[EvPoll]" "[]"]
    by (simp add: sample_fields case_prod_beta)
qed

end
