(* ===== verification/Read_Only_Guard.thy ===== *)
theory Read_Only_Guard
  imports Can_Types
begin

text \<open>
  The read-only policy gate (\<open>protocol/read_only_guard.h\<close>, class \<open>ReadOnlyGuard\<close>): the only four
  requests callers can make, and the pass-through operations. Every operation takes the guarded
  transport \<open>T\<close> and its state; the guard itself has no state. The second half runs the whole guard
  interface over an arbitrary transport with a log of the payloads it is given.
\<close>

section \<open>The guard\<close>

datatype ReadOnlyStatus = Forwarded | PolicyDenied | InvalidRequest

record ReadOnlyResult =
  ror_status :: ReadOnlyStatus
  ror_transportStatus :: TransportStatus

record ObdSinglePidRequest =
  opr_mode :: u8
  opr_pid :: "bytes option"
  opr_pidCount :: nat

definition kModeCurrentData :: u8 where "kModeCurrentData = 0x01"
definition kModeStoredDtcRead :: u8 where "kModeStoredDtcRead = 0x03"
definition kModeVehicleInformation :: u8 where "kModeVehicleInformation = 0x09"
definition kUdsReadDataByIdentifier :: u8 where "kUdsReadDataByIdentifier = 0x22"
definition kUdsReadDtcInformation :: u8 where "kUdsReadDtcInformation = 0x19"

lemmas mode_defs = kModeCurrentData_def kModeStoredDtcRead_def kModeVehicleInformation_def
  kUdsReadDataByIdentifier_def kUdsReadDtcInformation_def

definition forward :: "'t DiagnosticTransport \<Rightarrow> bytes \<Rightarrow> 't \<Rightarrow> ReadOnlyResult \<times> 't" where
  "forward T payload t =
     (case dt_startSend T (Some payload) (length payload) t of
        (st, t1) \<Rightarrow> (\<lparr>ror_status = Forwarded, ror_transportStatus = st\<rparr>, t1))"

definition startObdSinglePid ::
    "'t DiagnosticTransport \<Rightarrow> ObdSinglePidRequest \<Rightarrow> 't \<Rightarrow> ReadOnlyResult \<times> 't" where
  "startObdSinglePid T request t =
     (case opr_pid request of
        None \<Rightarrow> (\<lparr>ror_status = InvalidRequest, ror_transportStatus = TsIdle\<rparr>, t)
      | Some pid \<Rightarrow>
         if opr_pidCount request \<noteq> 1
         then (\<lparr>ror_status = InvalidRequest, ror_transportStatus = TsIdle\<rparr>, t)
         else if opr_mode request \<noteq> kModeCurrentData \<and> opr_mode request \<noteq> kModeVehicleInformation
         then (\<lparr>ror_status = PolicyDenied, ror_transportStatus = TsIdle\<rparr>, t)
         else forward T [opr_mode request, pid ! 0] t)"

definition startObdStoredDtcRead ::
    "'t DiagnosticTransport \<Rightarrow> 't \<Rightarrow> ReadOnlyResult \<times> 't" where
  "startObdStoredDtcRead T t = forward T [kModeStoredDtcRead] t"

definition startUdsReadDataByIdentifier ::
    "'t DiagnosticTransport \<Rightarrow> u16 \<Rightarrow> 't \<Rightarrow> ReadOnlyResult \<times> 't" where
  "startUdsReadDataByIdentifier T did t =
     forward T [kUdsReadDataByIdentifier, ucast (drop_bit 8 did AND 0xFF), ucast (did AND 0xFF)] t"

definition startUdsReportDtcByStatusMask ::
    "'t DiagnosticTransport \<Rightarrow> u8 \<Rightarrow> 't \<Rightarrow> ReadOnlyResult \<times> 't" where
  "startUdsReportDtcByStatusMask T statusMask t =
     forward T [kUdsReadDtcInformation, 0x02, statusMask] t"

definition guard_poll :: "'t DiagnosticTransport \<Rightarrow> 't \<Rightarrow> TransportStatus \<times> 't" where
  "guard_poll T t = dt_poll T t"

definition guard_receive ::
    "'t DiagnosticTransport \<Rightarrow> bytes option \<Rightarrow> nat \<Rightarrow> 't \<Rightarrow>
     TransportStatus \<times> nat \<times> bytes option \<times> 't" where
  "guard_receive T payload capacity t = dt_receive T payload capacity t"

definition guard_discardPendingMessage :: "'t DiagnosticTransport \<Rightarrow> 't \<Rightarrow> 't" where
  "guard_discardPendingMessage T t = dt_discardPendingMessage T t"

section \<open>The policy\<close>

text \<open>
  The requests that only read: OBD modes 01 and 09 for one PID, mode 03, UDS service 22 for one
  identifier and service 19 subfunction 02.
\<close>

fun read_only :: "bytes \<Rightarrow> bool" where
  "read_only [m] = (m = 0x03)"
| "read_only [m, p] = (m = 0x01 \<or> m = 0x09)"
| "read_only [s, a, b] = (s = 0x22 \<or> s = 0x19 \<and> a = 0x02)"
| "read_only _ = False"

lemma read_only_short: "read_only q \<Longrightarrow> 0 < length q \<and> length q \<le> 3"
  by (cases q rule: read_only.cases) simp_all

text \<open>
  One call of the guard, or an event \<open>'o\<close> outside it that changes the transport as \<open>out\<close> says (a
  frame arrives, time passes).
\<close>

datatype 'o guard_event =
    GSinglePid ObdSinglePidRequest
  | GStoredDtc
  | GReadDid u16
  | GReportDtc u8
  | GPoll
  | GReceive "bytes option" nat
  | GDiscard
  | GOutside 'o

fun guard_step ::
    "'t DiagnosticTransport \<Rightarrow> ('o \<Rightarrow> 't \<Rightarrow> 't) \<Rightarrow> 'o guard_event \<Rightarrow> 't \<Rightarrow> 't" where
  "guard_step T out (GSinglePid r) t = snd (startObdSinglePid T r t)"
| "guard_step T out GStoredDtc t = snd (startObdStoredDtcRead T t)"
| "guard_step T out (GReadDid d) t = snd (startUdsReadDataByIdentifier T d t)"
| "guard_step T out (GReportDtc m) t = snd (startUdsReportDtcByStatusMask T m t)"
| "guard_step T out GPoll t = snd (guard_poll T t)"
| "guard_step T out (GReceive b c) t = snd (snd (snd (guard_receive T b c t)))"
| "guard_step T out GDiscard t = guard_discardPendingMessage T t"
| "guard_step T out (GOutside x) t = out x t"

definition guard_run ::
    "'t DiagnosticTransport \<Rightarrow> ('o \<Rightarrow> 't \<Rightarrow> 't) \<Rightarrow> 'o guard_event list \<Rightarrow> 't \<Rightarrow> 't" where
  "guard_run T out es t = fold (guard_step T out) es t"

text \<open>Any transport with a log of the payloads handed to its \<open>startSend\<close>.\<close>

definition log_transport :: "'t DiagnosticTransport \<Rightarrow> ('t \<times> bytes option list) DiagnosticTransport" where
  "log_transport T =
     \<lparr>dt_startSend = (\<lambda>p n (t, l). case dt_startSend T p n t of
        (st, t1) \<Rightarrow> (st, t1, l @ [map_option (take n) p])),
      dt_poll = (\<lambda>(t, l). case dt_poll T t of (st, t1) \<Rightarrow> (st, t1, l)),
      dt_receive = (\<lambda>b c (t, l). case dt_receive T b c t of (st, n, b1, t1) \<Rightarrow> (st, n, b1, t1, l)),
      dt_discardPendingMessage = (\<lambda>(t, l). (dt_discardPendingMessage T t, l))\<rparr>"

definition log_outside :: "('o \<Rightarrow> 't \<Rightarrow> 't) \<Rightarrow> 'o \<Rightarrow> 't \<times> bytes option list \<Rightarrow> 't \<times> bytes option list" where
  "log_outside out x y = (out x (fst y), snd y)"

definition logged_read_only :: "bytes option list \<Rightarrow> bool" where
  "logged_read_only l \<longleftrightarrow> list_all (\<lambda>p. case p of None \<Rightarrow> False | Some q \<Rightarrow> read_only q) l"

lemma forward_log:
  "read_only q \<Longrightarrow> logged_read_only l \<Longrightarrow> forward (log_transport T) q (t, l) = (r, t1, l1) \<Longrightarrow>
     logged_read_only l1"
  by (auto simp: forward_def log_transport_def logged_read_only_def split: prod.splits)

lemma guard_step_log:
  assumes "logged_read_only l" and "guard_step (log_transport T) (log_outside out) e (t, l) = (t1, l1)"
  shows "logged_read_only l1"
proof (cases "\<exists>q r. read_only q \<and> forward (log_transport T) q (t, l) = (r, t1, l1)")
  case True
  with assms(1) show ?thesis by (blast intro: forward_log)
next
  case False
  then have no: "\<And>q. read_only q \<Longrightarrow> snd (forward (log_transport T) q (t, l)) \<noteq> (t1, l1)"
    by (metis prod.collapse)
  have "l1 = l"
    using assms(2) no
    by (cases e)
      (auto simp: startObdSinglePid_def startObdStoredDtcRead_def startUdsReadDataByIdentifier_def
        startUdsReportDtcByStatusMask_def guard_poll_def guard_receive_def
        guard_discardPendingMessage_def mode_defs log_transport_def log_outside_def
        split: if_splits option.splits prod.splits)
  with assms(1) show ?thesis by simp
qed

lemma guard_run_log:
  assumes "logged_read_only l"
    and "guard_run (log_transport T) (log_outside out) es (t, l) = (t1, l1)"
  shows "logged_read_only l1"
  using assms
proof (induction es arbitrary: t l)
  case (Cons e es)
  obtain t' l' where e: "guard_step (log_transport T) (log_outside out) e (t, l) = (t', l')" by fastforce
  from guard_step_log [OF Cons.prems(1) this] Cons.IH [of l' t'] Cons.prems(2) show ?case
    by (simp add: guard_run_def e)
qed (simp add: guard_run_def)

section \<open>Properties\<close>

text \<open>
  Read-only policy. Whatever sequence of calls is made on the guard, with any arguments, over
  any transport, every payload the transport is asked to send is one of the allowed read requests.
\<close>

theorem guard_read_only:
  "list_all (\<lambda>p. case p of None \<Rightarrow> False | Some q \<Rightarrow> read_only q)
     (snd (guard_run (log_transport T) (log_outside out) es (t, [])))"
proof -
  obtain t1 l1 where r: "guard_run (log_transport T) (log_outside out) es (t, []) = (t1, l1)"
    by fastforce
  have "logged_read_only ([] :: bytes option list)" by (simp add: logged_read_only_def)
  from guard_run_log [OF this r] show ?thesis by (simp add: r logged_read_only_def)
qed

end
