(* ===== verification/Diagnostic_Contract.thy ===== *)
theory Diagnostic_Contract
  imports Read_Only_Guard IsoTp_Invariant
begin

text \<open>
  What the OBD and UDS services rely on when they talk to a \<open>DiagnosticTransport\<close> through the guard:
  the transport keeps its own invariant, writes inside the caller's buffer, reports a length within
  the capacity with \<open>Complete\<close>, and has no message after a discard. The contract is a locale; the
  ISO-TP transport satisfies it for every environment.
\<close>

locale diagnostic_transport =
  fixes T :: "'t DiagnosticTransport" and ok :: "'t \<Rightarrow> bool"
  assumes startSend_ok: "ok t \<Longrightarrow> ok (snd (dt_startSend T p n t))"
    and poll_ok: "ok t \<Longrightarrow> ok (snd (dt_poll T t))"
    and receive_ok: "ok t \<Longrightarrow> ok (snd (snd (snd (dt_receive T b c t))))"
    and discard_ok: "ok t \<Longrightarrow> ok (dt_discardPendingMessage T t)"
    and receive_buffer: "ok t \<Longrightarrow> dt_receive T (Some buf) (length buf) t = (st, n, b1, t1) \<Longrightarrow>
      \<exists>r. b1 = Some r \<and> length r = length buf"
    and receive_length: "ok t \<Longrightarrow> dt_receive T (Some buf) c t = (TsComplete, n, b1, t1) \<Longrightarrow>
      0 < n \<and> n \<le> c"
    and receive_discarded: "ok t \<Longrightarrow>
      fst (dt_receive T b c (dt_discardPendingMessage T t)) = TsNoData"
begin

lemma forward_ok: "ok t \<Longrightarrow> ok (snd (forward T q t))"
  using startSend_ok [of t] by (simp add: forward_def case_prod_beta)

lemma requests_ok:
  assumes "ok t"
  shows "ok (snd (startObdSinglePid T r t))" and "ok (snd (startObdStoredDtcRead T t))"
    and "ok (snd (startUdsReadDataByIdentifier T d t))"
    and "ok (snd (startUdsReportDtcByStatusMask T m t))"
  using assms forward_ok
  by (auto simp: startObdSinglePid_def startObdStoredDtcRead_def startUdsReadDataByIdentifier_def
      startUdsReportDtcByStatusMask_def split: option.split)

lemma guard_ok:
  assumes "ok t"
  shows "ok (snd (guard_poll T t))" and "ok (snd (snd (snd (guard_receive T b c t))))"
    and "ok (guard_discardPendingMessage T t)"
  using assms poll_ok receive_ok discard_ok
  by (simp_all add: guard_poll_def guard_receive_def guard_discardPendingMessage_def)

end

section \<open>The ISO-TP transport satisfies the contract\<close>

definition isotp_ok :: "IsoTp \<times> 'w \<Rightarrow> bool" where
  "isotp_ok x = isotp_inv (fst x)"

lemma isotp_receive_buffer:
  assumes "isotp_inv s" and "IsoTp_receive (Some buf) (length buf) s = (st, n, b1, s1)"
  shows "\<exists>r. b1 = Some r \<and> length r = length buf"
proof -
  have "length (take (rxMessageLength s) (rxPayload s)) \<le> rxMessageLength s" by simp
  with assms show ?thesis
    by (auto simp: IsoTp_receive_def Let_def split: if_splits)
qed

lemma isotp_receive_length:
  assumes "isotp_inv s" and "IsoTp_receive (Some buf) c s = (TsComplete, n, b1, s1)"
  shows "0 < n \<and> n \<le> c"
  using assms by (auto simp: IsoTp_receive_def Let_def isotp_inv_def rx_inv_def split: if_splits)

lemma isotp_ops_ok:
  assumes "isotp_inv s"
  shows "isotp_inv (fst (snd (IsoTp_startSend E p n s w)))"
    and "isotp_inv (fst (snd (IsoTp_poll E s w)))"
    and "isotp_inv (snd (snd (snd (IsoTp_receive b c s))))"
    and "isotp_inv (fst (snd (IsoTp_onCanFrame E f s w)))"
  using assms
  by (metis startSend_inv poll_inv receive_inv onCanFrame_inv prod.collapse)+

lemma isotp_receive_discarded:
  "IsoTp_receive b c (IsoTp_discardPendingMessage s) = (st, n, b1, s1) \<Longrightarrow> st = TsNoData"
  by (simp add: IsoTp_receive_def IsoTp_discardPendingMessage_def)

interpretation isotp: diagnostic_transport "IsoTp_transport E" isotp_ok for E :: "'w env"
  by unfold_locales
    (auto simp: isotp_ok_def IsoTp_transport_def isotp_ops_ok discard_inv
      split: prod.splits dest: isotp_receive_buffer isotp_receive_length receive_inv
      isotp_receive_discarded)

section \<open>A transport and a clock over the same world\<close>

locale timed_transport = diagnostic_transport T ok
  for T :: "'t DiagnosticTransport" and ok :: "'t \<Rightarrow> bool" +
  fixes clk :: "'t Clock"
  assumes clock_ok: "ok t \<Longrightarrow> ok (snd (clk t))"

definition isotp_clock :: "'w env \<Rightarrow> (IsoTp \<times> 'w) Clock" where
  "isotp_clock E x = (case env_clock E (snd x) of (now, w1) \<Rightarrow> (now, fst x, w1))"

interpretation isotp_timed: timed_transport "IsoTp_transport E" isotp_ok "isotp_clock E" for E :: "'w env"
  by unfold_locales (simp add: isotp_ok_def isotp_clock_def case_prod_beta)

section \<open>What happens outside the services\<close>

text \<open>A frame arrives from the bus, or the world behind the transport changes.\<close>

datatype 'w bus_event = BusFrame CanFrame | BusWorld "'w \<Rightarrow> 'w"

fun bus_step :: "'w env \<Rightarrow> 'w bus_event \<Rightarrow> IsoTp \<times> 'w \<Rightarrow> IsoTp \<times> 'w" where
  "bus_step E (BusFrame f) (s, w) = snd (IsoTp_onCanFrame E f s w)"
| "bus_step E (BusWorld g) (s, w) = (s, g w)"

lemma bus_step_ok: "isotp_ok x \<Longrightarrow> isotp_ok (bus_step E e x)"
  by (cases x; cases e) (simp_all add: isotp_ok_def isotp_ops_ok)

end
