(* ===== verification/Guarded_Bus.thy ===== *)
theory Guarded_Bus
  imports Diagnostic_Contract IsoTp_Link IsoTp_Timing
begin

text \<open>
  The guard over the ISO-TP transport, down to the CAN frames: whatever callers, the bus and the
  back end do, the frames the back end accepts are flow control or a single frame that carries one
  of the allowed read requests.
\<close>

section \<open>The guarded bus\<close>

text \<open>Outside events over the logged environment; the world changes behind the log.\<close>

fun logged_bus_step ::
    "'w env \<Rightarrow> 'w bus_event \<Rightarrow> IsoTp \<times> 'w \<times> CanFrame list \<Rightarrow> IsoTp \<times> 'w \<times> CanFrame list" where
  "logged_bus_step E (BusFrame f) x = bus_step (log_env E) (BusFrame f) x"
| "logged_bus_step E (BusWorld g) x = bus_step (log_env E) (BusWorld (\<lambda>(w, l). (g w, l))) x"

definition guarded_run ::
    "'w env \<Rightarrow> 'w bus_event guard_event list \<Rightarrow> IsoTp \<times> 'w \<times> CanFrame list \<Rightarrow>
     IsoTp \<times> 'w \<times> CanFrame list" where
  "guarded_run E es x = guard_run (IsoTp_transport (log_env E)) (logged_bus_step E) es x"

text \<open>The frames the configuration allows on the bus.\<close>

definition flow_frame :: "IsoTpConfig \<Rightarrow> u8 \<Rightarrow> CanFrame" where
  "flow_frame cfg fs = tx_frame cfg [0x30 OR fs, rxBlockSize cfg, rxStMin cfg]"

definition request_frame :: "IsoTpConfig \<Rightarrow> bytes \<Rightarrow> CanFrame" where
  "request_frame cfg q = tx_frame cfg (of_nat (length q) # q)"

definition guarded_frame :: "IsoTpConfig \<Rightarrow> CanFrame \<Rightarrow> bool" where
  "guarded_frame cfg f \<longleftrightarrow>
     f = flow_frame cfg 0 \<or> f = flow_frame cfg 2 \<or>
     (let q = take (unat (cf_payload f ! 0)) (drop 1 (cf_payload f))
      in read_only q \<and> f = request_frame cfg q)"

definition guarded :: "IsoTpConfig \<Rightarrow> IsoTp \<times> 'w \<times> CanFrame list \<Rightarrow> bool" where
  "guarded cfg x \<longleftrightarrow>
     config (fst x) = cfg \<and> txState (fst x) = TxIdle \<and> list_all (guarded_frame cfg) (snd (snd x))"

lemma request_guarded: "read_only q \<Longrightarrow> guarded_frame cfg (request_frame cfg q)"
  using read_only_short [of q]
  by (simp add: guarded_frame_def request_frame_def pdu_frame_def u8_of_nat_eq)

lemma flow_guarded: "fs = 0 \<or> fs = 2 \<Longrightarrow> guarded_frame (config s) (makeFlowControlFrame s fs)"
proof -
  have "makeFlowControlFrame s fs = flow_frame (config s) fs"
    by (simp add: makeFlowControlFrame_def makeTxFrame_def pdu_frame_def CanFrame_default_def
        flow_frame_def numeral_eq_Suc)
  then show "fs = 0 \<or> fs = 2 \<Longrightarrow> guarded_frame (config s) (makeFlowControlFrame s fs)"
    by (auto simp: guarded_frame_def)
qed

lemma sendFlow_guarded:
  assumes "sendFlowControl (log_env E) fs s (w, l) = (st, w1, l1)" and "fs = 0 \<or> fs = 2"
    and "list_all (guarded_frame (config s)) l"
  shows "list_all (guarded_frame (config s)) l1"
  using sendFrame_log [of E "makeFlowControlFrame s fs" w l st w1 l1] assms flow_guarded [of fs s]
  by (auto simp: sendFlowControl_def)

lemma startSend_guarded:
  assumes "IsoTp_startSend (log_env E) (Some q) (length q) s (w, l) = (st, s1, w1, l1)"
    and "read_only q" and "guarded cfg (s, w, l)"
  shows "guarded cfg (s1, w1, l1)"
proof -
  have q: "0 < length q" "length q \<le> 7" using read_only_short [OF assms(2)] by auto
  have "makeSingleFrame s q (length q) = request_frame cfg q"
    using makeSingleFrame_segment [of "length q" q s] q assms(3)
    by (simp add: segment_def request_frame_def guarded_def)
  then show ?thesis
    using assms q request_guarded [OF assms(2), of cfg]
    by (auto simp: IsoTp_startSend_def guarded_def Let_def split: if_splits prod.splits
        dest!: sendFrame_log)
qed

lemma poll_guarded:
  assumes "IsoTp_poll (log_env E) s (w, l) = (st, s1, w1, l1)" and "guarded cfg (s, w, l)"
  shows "guarded cfg (s1, w1, l1)"
proof -
  obtain t v m where t: "env_clock (log_env E) (w, l) = (t, v, m)" by (metis prod_cases3)
  then have "m = l" by (rule clock_log)
  with assms t show ?thesis
    by (auto simp: IsoTp_poll_def guarded_def resetRxAssembly_def split: if_splits)
qed

lemma handleFirst_guarded:
  assumes "handleFirstFrame (log_env E) f t s (w, l) = (st, s1, w1, l1)"
    and "list_all (guarded_frame (config s)) l"
  shows "list_all (guarded_frame (config s)) l1"
  using assms sendFlow_guarded [of E _ "stageRx f t (firstFrameLength f) s"]
  by (fastforce simp: handleFirstFrame_def Let_def split: if_splits prod.splits
      dest: sendFlow_guarded)

lemma handleConsecutive_guarded:
  assumes "handleConsecutiveFrame (log_env E) f t s (w, l) = (st, s1, w1, l1)"
    and "list_all (guarded_frame (config s)) l"
  shows "list_all (guarded_frame (config s)) l1"
proof (cases "l1 = l")
  case False
  then obtain s3 st' where "sendFlowControl (log_env E) 0 s3 (w, l) = (st', w1, l1)"
    "config s3 = config s"
    using assms(1)
    by (fastforce simp: handleConsecutiveFrame_def Let_def split: if_splits prod.splits)
  from sendFlow_guarded [OF this(1)] assms(2) this(2) show ?thesis by simp
qed (use assms in simp)

lemma onCanFrame_guarded:
  assumes "IsoTp_onCanFrame (log_env E) f s (w, l) = (st, s1, w1, l1)" and "guarded cfg (s, w, l)"
  shows "guarded cfg (s1, w1, l1)"
proof -
  obtain t v m where t: "env_clock (log_env E) (w, l) = (t, v, m)" by (metis prod_cases3)
  then have m: "m = l" by (rule clock_log)
  have idle: "txState s = TxIdle" and l: "list_all (guarded_frame (config s)) l"
    and cfg: "config s = cfg" using assms(2) by (auto simp: guarded_def)
  have c: "config s1 = cfg" using onCanFrame_config [OF assms(1)] cfg by simp
  have i: "txState s1 = TxIdle"
    using onCanFrame_tx_part [OF assms(1)] idle
    by (auto simp: tx_part_def resetTx_def handleFlowControl_def)
  consider "l1 = l" | "handleFirstFrame (log_env E) f t s (v, l) = (st, s1, w1, l1)"
    | "handleConsecutiveFrame (log_env E) f t s (v, l) = (st, s1, w1, l1)"
    using assms(1) t m by (auto simp: IsoTp_onCanFrame_def Let_def split: if_splits prod.splits)
  then have "list_all (guarded_frame (config s)) l1"
    by cases (use l in \<open>auto dest: handleFirst_guarded handleConsecutive_guarded\<close>)
  with c i cfg show ?thesis by (simp add: guarded_def)
qed

lemma receive_guarded:
  assumes "IsoTp_receive b n s = (st, k, b1, s1)" and "guarded cfg (s, wl)"
  shows "guarded cfg (s1, wl)"
  using receive_tx_part [OF assms(1)] assms(2) by (simp add: guarded_def tx_part_def)

lemma forward_guarded:
  assumes "forward (IsoTp_transport (log_env E)) q x = (r, y)" and "read_only q" and "guarded cfg x"
  shows "guarded cfg y"
proof -
  obtain s w l where x: "x = (s, w, l)" by (metis prod_cases3)
  obtain s1 w1 l1 where y: "y = (s1, w1, l1)" by (metis prod_cases3)
  from assms show ?thesis unfolding x y
    by (auto simp: forward_def IsoTp_transport_def split: prod.splits intro: startSend_guarded)
qed

lemma guard_step_guarded:
  assumes "guarded cfg x"
  shows "guarded cfg (guard_step (IsoTp_transport (log_env E)) (logged_bus_step E) e x)"
proof -
  obtain s w l where x: "x = (s, w, l)" by (metis prod_cases3)
  note req = forward_guarded [OF prod.collapse [symmetric] _ assms]
  show ?thesis
  proof (cases e)
    case (GSinglePid r)
    with assms req show ?thesis
      by (auto simp: startObdSinglePid_def mode_defs split: option.split)
  next
    case GPoll
    obtain st s1 w1 l1 where "IsoTp_poll (log_env E) s (w, l) = (st, s1, w1, l1)" by (metis prod_cases4)
    with poll_guarded [OF this] assms x GPoll show ?thesis
      by (simp add: guard_poll_def IsoTp_transport_def)
  next
    case (GReceive b n)
    with assms x show ?thesis
      by (auto simp: guard_receive_def IsoTp_transport_def split: prod.split intro: receive_guarded)
  next
    case GDiscard
    with assms x show ?thesis
      by (simp add: guard_discardPendingMessage_def IsoTp_transport_def guarded_def
          IsoTp_discardPendingMessage_def)
  next
    case (GOutside v)
    show ?thesis
    proof (cases v)
      case (BusFrame f)
      obtain st s1 w1 l1 where "IsoTp_onCanFrame (log_env E) f s (w, l) = (st, s1, w1, l1)"
        by (metis prod_cases4)
      with onCanFrame_guarded [OF this] assms x GOutside BusFrame show ?thesis by simp
    qed (use assms x GOutside in \<open>simp add: guarded_def\<close>)
  qed (use req in \<open>auto simp: startObdStoredDtcRead_def startUdsReadDataByIdentifier_def
         startUdsReportDtcByStatusMask_def mode_defs\<close>)
qed

lemma guarded_run_guarded: "guarded cfg x \<Longrightarrow> guarded cfg (guarded_run E es x)"
  by (induction es arbitrary: x) (simp_all add: guarded_run_def guard_run_def guard_step_guarded)

text \<open>
  C2: Read-only on the wire. For every transport configuration, CAN back end and clock, every
  sequence of guard calls, incoming frames and changes of the back end: every CAN frame the back
  end accepts is a flow-control frame of this configuration or a single frame with one of the
  allowed read requests. In particular no segmented request ever starts.
\<close>

theorem guarded_bus_read_only:
  "list_all (guarded_frame cfg) (snd (snd (guarded_run E es (IsoTp_init cfg, w, [])))) \<and>
   txState (fst (guarded_run E es (IsoTp_init cfg, w, []))) = TxIdle"
proof -
  have "guarded cfg (IsoTp_init cfg, w, [])" by (simp add: guarded_def IsoTp_init_def)
  from guarded_run_guarded [OF this, of E es] show ?thesis by (simp add: guarded_def)
qed

end
