(* ===== verification/Obd_Service.thy ===== *)
theory Obd_Service
  imports Diagnostic_Contract
begin

text \<open>
  The OBD service (\<open>protocol/obd_service.h\<close>, class \<open>ObdService\<close>): one request at a time through the
  read-only guard, a response deadline, and the decoding of the four kinds of response. The
  operations take the guarded transport \<open>T\<close>, the clock \<open>clk\<close> over the transport's world, the service
  and that world.
\<close>

section \<open>State\<close>

datatype ObdServiceStatus =
    ObdIdle
  | ObdInProgress
  | ObdBusy
  | ObdResponseReady
  | ObdTimeout
  | ObdInvalidResponse
  | ObdUnexpectedResponse
  | ObdPolicyDenied
  | ObdInvalidRequest
  | ObdTransportFailure

datatype ObdState = ObdStateIdle | ObdAwaitingTransmit | ObdAwaitingResponse

datatype ObdRequestKind =
  ObdNone | ObdCurrentData | ObdSupportedPids | ObdVin | ObdStoredDtcs

record ObdDtcRecord =
  odr_firstByte :: u8
  odr_secondByte :: u8

definition ObdDtcRecord_default :: ObdDtcRecord where
  "ObdDtcRecord_default = \<lparr>odr_firstByte = 0, odr_secondByte = 0\<rparr>"

definition kObdMaxRawDataLength :: nat where "kObdMaxRawDataLength = 64"
definition kVinLength :: nat where "kVinLength = 17"
definition kMaxStoredDtcRecords :: nat where "kMaxStoredDtcRecords = 16"
definition kVinPid :: u8 where "kVinPid = 0x02"

lemmas obd_sizes = kObdMaxRawDataLength_def kVinLength_def kMaxStoredDtcRecords_def

record ObdService =
  obs_responseTimeoutMs :: u32
  obs_state :: ObdState
  obs_requestKind :: ObdRequestKind
  obs_status :: ObdServiceStatus
  obs_lastTransportStatus :: TransportStatus
  obs_requestedPid :: u8
  obs_responseDeadlineMs :: u64
  obs_response :: bytes
  obs_rawData :: bytes
  obs_rawDataLength :: nat
  obs_supportedPidBitmap :: u32
  obs_vin :: bytes
  obs_storedDtcs :: "ObdDtcRecord list"
  obs_storedDtcCount :: nat

definition ObdServiceConfig_default :: u32 where
  "ObdServiceConfig_default = 1000"

definition ObdService_init :: "u32 \<Rightarrow> ObdService" where
  "ObdService_init timeout =
     \<lparr>obs_responseTimeoutMs = timeout, obs_state = ObdStateIdle, obs_requestKind = ObdNone,
      obs_status = ObdIdle, obs_lastTransportStatus = TsIdle, obs_requestedPid = 0,
      obs_responseDeadlineMs = 0, obs_response = replicate kObdMaxRawDataLength 0,
      obs_rawData = replicate kObdMaxRawDataLength 0, obs_rawDataLength = 0,
      obs_supportedPidBitmap = 0, obs_vin = replicate kVinLength 0,
      obs_storedDtcs = replicate kMaxStoredDtcRecords ObdDtcRecord_default,
      obs_storedDtcCount = 0\<rparr>"

section \<open>Helpers\<close>

definition obd_isRequestActive :: "ObdService \<Rightarrow> bool" where
  "obd_isRequestActive s \<longleftrightarrow> obs_state s \<noteq> ObdStateIdle"

definition isSupportedPidBlockBase :: "u8 \<Rightarrow> bool" where
  "isSupportedPidBlockBase pid \<longleftrightarrow> pid \<le> 0xC0 \<and> pid mod 0x20 = 0"

definition isNonFailingPollStatus :: "TransportStatus \<Rightarrow> bool" where
  "isNonFailingPollStatus st \<longleftrightarrow> st = TsIdle \<or> st = TsInProgress \<or> st = TsComplete"

fun expectedPositiveService :: "ObdRequestKind \<Rightarrow> u8" where
  "expectedPositiveService ObdVin = 0x49"
| "expectedPositiveService ObdStoredDtcs = 0x43"
| "expectedPositiveService ObdCurrentData = 0x41"
| "expectedPositiveService ObdSupportedPids = 0x41"
| "expectedPositiveService ObdNone = 0x41"

definition obd_setStatus ::
    "ObdServiceStatus \<Rightarrow> ObdService \<Rightarrow> 't \<Rightarrow> ObdServiceStatus \<times> ObdService \<times> 't" where
  "obd_setStatus st s t = (st, s\<lparr>obs_status := st\<rparr>, t)"

definition obd_finishWithoutTransport ::
    "ObdServiceStatus \<Rightarrow> ObdService \<Rightarrow> 't \<Rightarrow> ObdServiceStatus \<times> ObdService \<times> 't" where
  "obd_finishWithoutTransport st s t =
     obd_setStatus st (s\<lparr>obs_state := ObdStateIdle, obs_requestKind := ObdNone\<rparr>) t"

definition obd_finish ::
    "'t DiagnosticTransport \<Rightarrow> ObdServiceStatus \<Rightarrow> ObdService \<Rightarrow> 't \<Rightarrow>
     ObdServiceStatus \<times> ObdService \<times> 't" where
  "obd_finish T st s t =
     (let t1 = if obd_isRequestActive s then guard_discardPendingMessage T t else t
      in obd_setStatus st (s\<lparr>obs_state := ObdStateIdle, obs_requestKind := ObdNone\<rparr>) t1)"

definition obd_clearResult :: "ObdService \<Rightarrow> ObdService" where
  "obd_clearResult s =
     s\<lparr>obs_rawDataLength := 0, obs_supportedPidBitmap := 0, obs_vin := replicate kVinLength 0,
       obs_storedDtcs := replicate kMaxStoredDtcRecords ObdDtcRecord_default,
       obs_storedDtcCount := 0\<rparr>"

definition obd_beginResponseWait :: "'t Clock \<Rightarrow> ObdService \<Rightarrow> 't \<Rightarrow> ObdService \<times> 't" where
  "obd_beginResponseWait clk s t =
     (let (now, t1) = clk t
      in (s\<lparr>obs_state := ObdAwaitingResponse,
            obs_responseDeadlineMs := now + ucast (obs_responseTimeoutMs s)\<rparr>, t1))"

section \<open>Requests\<close>

text \<open>\<open>prepareRequest\<close> returns whether the request may go on; it does not touch the transport.\<close>

definition obd_prepareRequest :: "ObdRequestKind \<Rightarrow> ObdService \<Rightarrow> bool \<times> ObdService" where
  "obd_prepareRequest kind s =
     (if obd_isRequestActive s then (False, s\<lparr>obs_status := ObdBusy\<rparr>)
      else if obs_responseTimeoutMs s = 0 then
        (False, s\<lparr>obs_state := ObdStateIdle, obs_requestKind := ObdNone,
                  obs_status := ObdInvalidRequest\<rparr>)
      else (True, (obd_clearResult s)\<lparr>obs_requestKind := kind\<rparr>))"

definition obd_beginTransport ::
    "'t DiagnosticTransport \<Rightarrow> 't Clock \<Rightarrow> ReadOnlyResult \<Rightarrow> ObdService \<Rightarrow> 't \<Rightarrow>
     ObdServiceStatus \<times> ObdService \<times> 't" where
  "obd_beginTransport T clk result s t =
     (let s1 = s\<lparr>obs_lastTransportStatus := ror_transportStatus result\<rparr>
      in if ror_status result = PolicyDenied
         then obd_finishWithoutTransport ObdPolicyDenied s1 t
         else if ror_status result = InvalidRequest
         then obd_finishWithoutTransport ObdInvalidRequest s1 t
         else if ror_transportStatus result = TsComplete
         then (let (s2, t1) = obd_beginResponseWait clk s1 t
               in obd_setStatus ObdInProgress s2 t1)
         else if ror_transportStatus result = TsInProgress
         then obd_setStatus ObdInProgress (s1\<lparr>obs_state := ObdAwaitingTransmit\<rparr>) t
         else obd_finish T ObdTransportFailure s1 t)"

definition obd_beginRequest ::
    "'t DiagnosticTransport \<Rightarrow> 't Clock \<Rightarrow> u8 \<Rightarrow> u8 \<Rightarrow> ObdRequestKind \<Rightarrow> ObdService \<Rightarrow> 't \<Rightarrow>
     ObdServiceStatus \<times> ObdService \<times> 't" where
  "obd_beginRequest T clk mode pid kind s t =
     (let (go, s1) = obd_prepareRequest kind s
      in if \<not> go then (obs_status s1, s1, t)
         else
           (let s2 = s1\<lparr>obs_requestedPid := pid\<rparr>;
                (result, t1) = startObdSinglePid T
                   \<lparr>opr_mode = mode, opr_pid = Some [obs_requestedPid s2], opr_pidCount = 1\<rparr> t
            in obd_beginTransport T clk result s2 t1))"

definition obd_beginMode01Request ::
    "'t DiagnosticTransport \<Rightarrow> 't Clock \<Rightarrow> u8 \<Rightarrow> ObdRequestKind \<Rightarrow> ObdService \<Rightarrow> 't \<Rightarrow>
     ObdServiceStatus \<times> ObdService \<times> 't" where
  "obd_beginMode01Request T clk pid kind s t =
     obd_beginRequest T clk kModeCurrentData pid kind s t"

definition requestCurrentData ::
    "'t DiagnosticTransport \<Rightarrow> 't Clock \<Rightarrow> u8 \<Rightarrow> ObdService \<Rightarrow> 't \<Rightarrow>
     ObdServiceStatus \<times> ObdService \<times> 't" where
  "requestCurrentData T clk pid s t = obd_beginMode01Request T clk pid ObdCurrentData s t"

definition requestSupportedPids ::
    "'t DiagnosticTransport \<Rightarrow> 't Clock \<Rightarrow> u8 \<Rightarrow> ObdService \<Rightarrow> 't \<Rightarrow>
     ObdServiceStatus \<times> ObdService \<times> 't" where
  "requestSupportedPids T clk basePid s t =
     (if obd_isRequestActive s then obd_setStatus ObdBusy s t
      else if \<not> isSupportedPidBlockBase basePid
      then obd_finishWithoutTransport ObdInvalidRequest s t
      else obd_beginMode01Request T clk basePid ObdSupportedPids s t)"

definition requestVin ::
    "'t DiagnosticTransport \<Rightarrow> 't Clock \<Rightarrow> ObdService \<Rightarrow> 't \<Rightarrow>
     ObdServiceStatus \<times> ObdService \<times> 't" where
  "requestVin T clk s t = obd_beginRequest T clk kModeVehicleInformation kVinPid ObdVin s t"

definition requestStoredDtcs ::
    "'t DiagnosticTransport \<Rightarrow> 't Clock \<Rightarrow> ObdService \<Rightarrow> 't \<Rightarrow>
     ObdServiceStatus \<times> ObdService \<times> 't" where
  "requestStoredDtcs T clk s t =
     (let (go, s1) = obd_prepareRequest ObdStoredDtcs s
      in if \<not> go then (obs_status s1, s1, t)
         else
           (let (result, t1) = startObdStoredDtcRead T t
            in obd_beginTransport T clk result s1 t1))"

section \<open>Responses\<close>

text \<open>The parsing loop of the stored trouble codes: \<open>None\<close> when the table is full.\<close>

function parseStoredDtcs ::
    "bytes \<Rightarrow> nat \<Rightarrow> nat \<Rightarrow> ObdDtcRecord list \<Rightarrow> nat \<Rightarrow> (ObdDtcRecord list \<times> nat) option" where
  "parseStoredDtcs response responseLength offset parsed parsedCount =
     (if offset < responseLength then
        (let firstByte = response ! offset; secondByte = response ! (offset + 1)
         in if firstByte = 0 \<and> secondByte = 0
            then parseStoredDtcs response responseLength (offset + 2) parsed parsedCount
            else if parsedCount = length parsed then None
            else parseStoredDtcs response responseLength (offset + 2)
                   (parsed[parsedCount :=
                      \<lparr>odr_firstByte = firstByte, odr_secondByte = secondByte\<rparr>])
                   (parsedCount + 1))
      else Some (parsed, parsedCount))"
  by pat_completeness auto
termination
  by (relation "measure (\<lambda>(r, n, off, p, c). n - off)") auto

declare parseStoredDtcs.simps [simp del]

definition handleCurrentData ::
    "'t DiagnosticTransport \<Rightarrow> nat \<Rightarrow> ObdService \<Rightarrow> 't \<Rightarrow> ObdServiceStatus \<times> ObdService \<times> 't" where
  "handleCurrentData T responseLength s t =
     (if responseLength < 3 then obd_finish T ObdInvalidResponse s t
      else
        (let s1 = s\<lparr>obs_rawDataLength := responseLength - 2\<rparr>
         in if length (obs_rawData s1) < obs_rawDataLength s1
            then obd_finish T ObdInvalidResponse s1 t
            else obd_finish T ObdResponseReady
              (s1\<lparr>obs_rawData := blit (obs_rawData s1) 0
                   (take (obs_rawDataLength s1) (drop 2 (obs_response s1)))\<rparr>) t))"

definition handleSupportedPids ::
    "'t DiagnosticTransport \<Rightarrow> nat \<Rightarrow> ObdService \<Rightarrow> 't \<Rightarrow> ObdServiceStatus \<times> ObdService \<times> 't" where
  "handleSupportedPids T responseLength s t =
     (if responseLength \<noteq> 6 then obd_finish T ObdInvalidResponse s t
      else obd_finish T ObdResponseReady
        (s\<lparr>obs_supportedPidBitmap :=
             push_bit 24 (ucast (obs_response s ! 2)) OR
             push_bit 16 (ucast (obs_response s ! 3)) OR
             push_bit 8 (ucast (obs_response s ! 4)) OR
             ucast (obs_response s ! 5)\<rparr>) t)"

definition handleVin ::
    "'t DiagnosticTransport \<Rightarrow> nat \<Rightarrow> ObdService \<Rightarrow> 't \<Rightarrow> ObdServiceStatus \<times> ObdService \<times> 't" where
  "handleVin T responseLength s t =
     (if responseLength \<noteq> 20 \<or> obs_response s ! 2 \<noteq> 0x01
      then obd_finish T ObdInvalidResponse s t
      else obd_finish T ObdResponseReady
        (s\<lparr>obs_vin := fold (\<lambda>index v. v[index := obs_response s ! (index + 3)])
             [0..<kVinLength] (obs_vin s)\<rparr>) t)"

definition handleStoredDtcs ::
    "'t DiagnosticTransport \<Rightarrow> nat \<Rightarrow> ObdService \<Rightarrow> 't \<Rightarrow> ObdServiceStatus \<times> ObdService \<times> 't" where
  "handleStoredDtcs T responseLength s t =
     (let dtcPayloadLength = responseLength - 1
      in if dtcPayloadLength mod 2 \<noteq> 0 then obd_finish T ObdInvalidResponse s t
         else case parseStoredDtcs (obs_response s) responseLength 1
                     (replicate kMaxStoredDtcRecords ObdDtcRecord_default) 0 of
                None \<Rightarrow> obd_finish T ObdInvalidResponse s t
              | Some (parsed, parsedCount) \<Rightarrow>
                  obd_finish T ObdResponseReady
                    (s\<lparr>obs_storedDtcs := parsed, obs_storedDtcCount := parsedCount\<rparr>) t)"

definition obd_handleResponse ::
    "'t DiagnosticTransport \<Rightarrow> nat \<Rightarrow> ObdService \<Rightarrow> 't \<Rightarrow> ObdServiceStatus \<times> ObdService \<times> 't" where
  "obd_handleResponse T responseLength s t =
     (if responseLength = 0 then obd_setStatus ObdUnexpectedResponse s t
      else if obs_response s ! 0 \<noteq> expectedPositiveService (obs_requestKind s)
      then obd_setStatus ObdUnexpectedResponse s t
      else if obs_requestKind s \<noteq> ObdStoredDtcs \<and>
              (responseLength < 2 \<or> obs_response s ! 1 \<noteq> obs_requestedPid s)
      then obd_setStatus ObdUnexpectedResponse s t
      else case obs_requestKind s of
             ObdCurrentData \<Rightarrow> handleCurrentData T responseLength s t
           | ObdSupportedPids \<Rightarrow> handleSupportedPids T responseLength s t
           | ObdVin \<Rightarrow> handleVin T responseLength s t
           | ObdStoredDtcs \<Rightarrow> handleStoredDtcs T responseLength s t
           | ObdNone \<Rightarrow> obd_finish T ObdInvalidResponse s t)"

text \<open>The second half of \<open>poll\<close>: a request that awaits its response.\<close>

definition obd_pollResponse ::
    "'t DiagnosticTransport \<Rightarrow> 't Clock \<Rightarrow> ObdService \<Rightarrow> 't \<Rightarrow>
     ObdServiceStatus \<times> ObdService \<times> 't" where
  "obd_pollResponse T clk s t =
     (let (now, t1) = clk t
      in if obs_responseDeadlineMs s \<le> now then obd_finish T ObdTimeout s t1
         else
           (case guard_receive T (Some (obs_response s)) (length (obs_response s)) t1 of
              (receiveStatus, responseLength, buffer, t2) \<Rightarrow>
                (let s1 = s\<lparr>obs_response := (case buffer of Some b \<Rightarrow> b | None \<Rightarrow> obs_response s),
                            obs_lastTransportStatus := receiveStatus\<rparr>
                 in if receiveStatus = TsNoData then obd_setStatus ObdInProgress s1 t2
                    else if receiveStatus \<noteq> TsComplete
                    then obd_finish T ObdTransportFailure s1 t2
                    else obd_handleResponse T responseLength s1 t2)))"

definition obd_poll ::
    "'t DiagnosticTransport \<Rightarrow> 't Clock \<Rightarrow> ObdService \<Rightarrow> 't \<Rightarrow>
     ObdServiceStatus \<times> ObdService \<times> 't" where
  "obd_poll T clk s t =
     (if obs_state s = ObdStateIdle then (ObdIdle, s, t)
      else
        (let (pollStatus, t1) = guard_poll T t;
             s1 = s\<lparr>obs_lastTransportStatus := pollStatus\<rparr>
         in if obs_state s1 = ObdAwaitingTransmit then
              (if pollStatus = TsInProgress then obd_setStatus ObdInProgress s1 t1
               else if pollStatus = TsComplete then
                 (let (s2, t2) = obd_beginResponseWait clk s1 t1
                  in obd_setStatus ObdInProgress s2 t2)
               else obd_finish T ObdTransportFailure s1 t1)
            else if \<not> isNonFailingPollStatus pollStatus
            then obd_finish T ObdTransportFailure s1 t1
            else obd_pollResponse T clk s1 t1))"

end
