(* ===== verification/Obd_Properties.thy ===== *)
theory Obd_Properties
  imports Obd_Service
begin

text \<open>
  The OBD service against its specification: a verdict on a response message as a function of the
  request alone (\<open>obd_judge\<close>), the invariant of the service over any transport that keeps the
  contract \<open>diagnostic_transport\<close>, and the properties of \<open>poll\<close> over the ISO-TP transport.
\<close>

section \<open>What a response means\<close>

datatype obd_reply =
    ReplyRaw bytes
  | ReplySupported u32
  | ReplyVin bytes
  | ReplyDtcs "(u8 \<times> u8) list"

datatype obd_verdict = ObdVUnexpected | ObdVInvalid | ObdVReply obd_reply

fun dtc_pairs :: "bytes \<Rightarrow> (u8 \<times> u8) list" where
  "dtc_pairs (a # b # r) = (a, b) # dtc_pairs r"
| "dtc_pairs _ = []"

definition real_dtcs :: "bytes \<Rightarrow> (u8 \<times> u8) list" where
  "real_dtcs d = filter (\<lambda>c. c \<noteq> (0, 0)) (dtc_pairs d)"

text \<open>The body of a response for one PID, after the service byte and the PID.\<close>

fun judge_body :: "ObdRequestKind \<Rightarrow> bytes \<Rightarrow> obd_verdict" where
  "judge_body ObdCurrentData d = (if d = [] then ObdVInvalid else ObdVReply (ReplyRaw d))"
| "judge_body ObdSupportedPids d =
     (if length d = 4 then ObdVReply (ReplySupported (be_value d)) else ObdVInvalid)"
| "judge_body ObdVin d =
     (if length d = 18 \<and> hd d = 1 then ObdVReply (ReplyVin (tl d)) else ObdVInvalid)"
| "judge_body _ d = ObdVInvalid"

definition judge_dtcs :: "bytes \<Rightarrow> obd_verdict" where
  "judge_dtcs d =
     (if odd (length d) \<or> 16 < length (real_dtcs d) then ObdVInvalid
      else ObdVReply (ReplyDtcs (real_dtcs d)))"

definition obd_judge :: "ObdRequestKind \<Rightarrow> u8 \<Rightarrow> bytes \<Rightarrow> obd_verdict" where
  "obd_judge kind pid m =
     (case m of
        [] \<Rightarrow> ObdVUnexpected
      | c # d \<Rightarrow>
          if c \<noteq> expectedPositiveService kind then ObdVUnexpected
          else if kind = ObdStoredDtcs then judge_dtcs d
          else (case d of
                  [] \<Rightarrow> ObdVUnexpected
                | p # b \<Rightarrow> if p = pid then judge_body kind b else ObdVUnexpected))"

fun obd_verdict_status :: "obd_verdict \<Rightarrow> ObdServiceStatus" where
  "obd_verdict_status ObdVUnexpected = ObdUnexpectedResponse"
| "obd_verdict_status ObdVInvalid = ObdInvalidResponse"
| "obd_verdict_status (ObdVReply r) = ObdResponseReady"

text \<open>The result the service publishes for a kind of request.\<close>

fun obd_result :: "ObdRequestKind \<Rightarrow> ObdService \<Rightarrow> obd_reply option" where
  "obd_result ObdCurrentData s = Some (ReplyRaw (take (obs_rawDataLength s) (obs_rawData s)))"
| "obd_result ObdSupportedPids s = Some (ReplySupported (obs_supportedPidBitmap s))"
| "obd_result ObdVin s = Some (ReplyVin (obs_vin s))"
| "obd_result ObdStoredDtcs s = Some (ReplyDtcs
     (map (\<lambda>r. (odr_firstByte r, odr_secondByte r)) (take (obs_storedDtcCount s) (obs_storedDtcs s))))"
| "obd_result ObdNone s = None"

definition obd_published ::
    "ObdService \<Rightarrow> nat \<times> bytes \<times> u32 \<times> bytes \<times> ObdDtcRecord list \<times> nat" where
  "obd_published s = (obs_rawDataLength s, obs_rawData s, obs_supportedPidBitmap s, obs_vin s,
     obs_storedDtcs s, obs_storedDtcCount s)"

section \<open>The trouble code loop\<close>

definition dtc_record :: "u8 \<times> u8 \<Rightarrow> ObdDtcRecord" where
  "dtc_record c = \<lparr>odr_firstByte = fst c, odr_secondByte = snd c\<rparr>"

lemma drop_two:
  assumes "off + 2 \<le> n" and "n \<le> length xs"
  shows "drop off (take n xs) = xs ! off # xs ! (off + 1) # drop (off + 2) (take n xs)"
proof -
  have "drop off (take n xs) = take n xs ! off # drop (Suc off) (take n xs)"
    by (rule Cons_nth_drop_Suc [symmetric]) (use assms in simp)
  moreover have "drop (Suc off) (take n xs) = take n xs ! Suc off # drop (Suc (Suc off)) (take n xs)"
    by (rule Cons_nth_drop_Suc [symmetric]) (use assms in simp)
  ultimately show ?thesis using assms by simp
qed

lemma take_update_map:
  "c < length xs \<Longrightarrow> take (Suc c) (xs[c := y]) = take c xs @ [y]"
  by (simp add: take_Suc_conv_app_nth)

lemma parseStoredDtcs_spec:
  fixes resp :: bytes
  assumes "n \<le> length resp" and "even (n - off)" and "off \<le> n" and "c \<le> length parsed"
  defines "cs \<equiv> real_dtcs (drop off (take n resp))"
  shows "parseStoredDtcs resp n off parsed c =
    (if c + length cs \<le> length parsed
     then Some (take c parsed @ map dtc_record cs @ drop (c + length cs) parsed, c + length cs)
     else None)"
  using assms(1-4) unfolding cs_def
proof (induction resp n off parsed c rule: parseStoredDtcs.induct)
  case (1 resp n off parsed c)
  show ?case
  proof (cases "off < n")
    case False
    with 1(5,6) show ?thesis by (subst parseStoredDtcs.simps) (simp add: real_dtcs_def)
  next
    case True
    with 1(4) have off2: "off + 2 \<le> n" "even (n - (off + 2))" by presburger+
    let ?a = "resp ! off" and ?b = "resp ! (off + 1)"
    note d = drop_two [OF off2(1) 1(3)]
    show ?thesis
    proof (cases "?a = 0 \<and> ?b = 0")
      case zero: True
      have "real_dtcs (drop off (take n resp)) = real_dtcs (drop (off + 2) (take n resp))"
        using zero by (simp add: d real_dtcs_def)
      with 1(1) [OF True refl refl zero 1(3) off2(2,1) 1(6)] True zero show ?thesis
        by (subst parseStoredDtcs.simps) simp
    next
      case keep: False
      have cs: "real_dtcs (drop off (take n resp)) =
          (?a, ?b) # real_dtcs (drop (off + 2) (take n resp))"
        using keep by (auto simp: d real_dtcs_def)
      show ?thesis
      proof (cases "c = length parsed")
        case full: True
        with True keep cs show ?thesis by (subst parseStoredDtcs.simps) (auto simp: Let_def)
      next
        case room: False
        let ?p = "parsed[c := \<lparr>odr_firstByte = ?a, odr_secondByte = ?b\<rparr>]"
        have c1: "c + 1 \<le> length ?p" using room 1(6) by simp
        note ih = 1(2) [OF True refl refl keep room 1(3) off2(2,1) c1]
        have step: "parseStoredDtcs resp n off parsed c = parseStoredDtcs resp n (off + 2) ?p (c + 1)"
          using True keep room by (subst parseStoredDtcs.simps) (auto simp: Let_def)
        have pre: "take (c + 1) ?p = take c parsed @ [dtc_record (?a, ?b)]"
          using take_update_map [of c parsed] c1 by (simp add: dtc_record_def)
        show ?thesis unfolding step ih pre cs using c1 by (simp add: drop_update_cancel)
      qed
    qed
  qed
qed

section \<open>A response and its verdict\<close>

lemma obd_finish_simps:
  "obd_finish T st s t =
     (st, s\<lparr>obs_state := ObdStateIdle, obs_requestKind := ObdNone, obs_status := st\<rparr>,
      if obs_state s = ObdStateIdle then t else guard_discardPendingMessage T t)"
  by (simp add: obd_finish_def obd_setStatus_def obd_isRequestActive_def)

definition obd_arrays :: "ObdService \<Rightarrow> bool" where
  "obd_arrays s \<longleftrightarrow>
     length (obs_response s) = 64 \<and> length (obs_rawData s) = 64 \<and> obs_rawDataLength s \<le> 62 \<and>
     length (obs_vin s) = 17 \<and> length (obs_storedDtcs s) = 16 \<and> obs_storedDtcCount s \<le> 16"

text \<open>What a handled response leaves behind: the verdict, the result and the request's end.\<close>

definition obd_handled ::
    "obd_verdict \<Rightarrow> ObdService \<Rightarrow> ObdServiceStatus \<times> ObdService \<times> 't \<Rightarrow> bool" where
  "obd_handled v s out \<longleftrightarrow>
     (case out of (st, s1, t1) \<Rightarrow>
        st = obd_verdict_status v \<and> obs_status s1 = st \<and> obd_arrays s1 \<and>
        (obs_state s1 = (if v = ObdVUnexpected then obs_state s else ObdStateIdle)) \<and>
        (obs_requestKind s1 = (if v = ObdVUnexpected then obs_requestKind s else ObdNone)) \<and>
        (case v of
           ObdVReply r \<Rightarrow> obd_result (obs_requestKind s) s1 = Some r
         | _ \<Rightarrow> obd_published s1 = obd_published s) \<and>
        obs_responseTimeoutMs s1 = obs_responseTimeoutMs s)"

lemma obd_handled_finish:
  assumes "obd_arrays s" and "obs_state s \<noteq> ObdStateIdle" and "v \<noteq> ObdVUnexpected"
    and "obd_arrays s1" and "obs_responseTimeoutMs s1 = obs_responseTimeoutMs s"
    and "case v of ObdVReply r \<Rightarrow> obd_result (obs_requestKind s) s1 = Some r
         | _ \<Rightarrow> obd_published s1 = obd_published s"
  shows "obd_handled v s (obd_finish T (obd_verdict_status v) s1 t)"
proof -
  have a: "obd_arrays (s1\<lparr>obs_state := q, obs_requestKind := k, obs_status := st\<rparr>)" for q k st
    using assms(4) by (simp add: obd_arrays_def)
  have r: "obd_result j (s1\<lparr>obs_state := q, obs_requestKind := k, obs_status := st\<rparr>) = obd_result j s1"
    for j q k st by (cases j) simp_all
  have p: "obd_published (s1\<lparr>obs_state := q, obs_requestKind := k, obs_status := st\<rparr>) = obd_published s1"
    for q k st by (simp add: obd_published_def)
  show ?thesis
    using assms(3,5,6) by (cases v) (simp_all add: obd_handled_def obd_finish_simps a r p)
qed

lemma obd_handled_unexpected:
  "obd_arrays s \<Longrightarrow> obd_handled ObdVUnexpected s (obd_setStatus ObdUnexpectedResponse s t)"
  by (simp add: obd_handled_def obd_setStatus_def obd_arrays_def obd_published_def)

lemma obd_finish_invalid:
  "obd_arrays s \<Longrightarrow> obs_state s \<noteq> ObdStateIdle \<Longrightarrow>
     obd_handled ObdVInvalid s (obd_finish T ObdInvalidResponse s t)"
  using obd_handled_finish [of s ObdVInvalid s T t] by simp

lemma handleCurrentData_spec:
  assumes "obd_arrays s" and "obs_state s \<noteq> ObdStateIdle" and "obs_requestKind s = ObdCurrentData"
    and "2 \<le> n" and "n \<le> 64"
  shows "obd_handled (judge_body ObdCurrentData (drop 2 (take n (obs_response s)))) s
    (handleCurrentData T n s t)"
proof (cases "n = 2")
  case True
  with obd_finish_invalid [OF assms(1,2)] assms show ?thesis by (simp add: handleCurrentData_def obd_arrays_def)
next
  case False
  let ?d = "drop 2 (take n (obs_response s))"
  have d: "?d = take (n - 2) (drop 2 (obs_response s))" by (simp add: drop_take)
  let ?s = "s\<lparr>obs_rawDataLength := n - 2, obs_rawData := blit (obs_rawData s) 0 ?d\<rparr>"
  have len: "length ?d = n - 2" "?d \<noteq> []"
    using assms False by (auto simp: obd_arrays_def)
  have b: "length (blit (obs_rawData s) 0 ?d) = 64" "take (n - 2) (blit (obs_rawData s) 0 ?d) = ?d"
    using len assms by (simp_all add: obd_arrays_def blit_def del: length_take)
  have "obd_arrays ?s" using assms b(1) by (simp add: obd_arrays_def)
  then have "obd_handled (ObdVReply (ReplyRaw ?d)) s (obd_finish T ObdResponseReady ?s t)"
    using obd_handled_finish [of s "ObdVReply (ReplyRaw ?d)" ?s T t] assms(1-3) b(2) by simp
  moreover have "handleCurrentData T n s t = obd_finish T ObdResponseReady ?s t"
  proof -
    have "\<not> n < 3" "\<not> 64 < n - 2" "length (obs_rawData s) = 64"
      using assms False by (simp_all add: obd_arrays_def)
    then show ?thesis by (simp add: handleCurrentData_def Let_def d)
  qed
  moreover have "judge_body ObdCurrentData ?d = ObdVReply (ReplyRaw ?d)"
    using len(2) by (simp only: judge_body.simps if_False)
  ultimately show ?thesis by (simp only:)
qed

lemma be_value_4:
  "(be_value [a, b, c, d] :: u32) =
     push_bit 24 (ucast a) OR push_bit 16 (ucast b) OR push_bit 8 (ucast c) OR ucast d"
  by (simp add: be_value_def push_bit_or ac_simps)

lemma handleSupportedPids_spec:
  assumes "obd_arrays s" and "obs_state s \<noteq> ObdStateIdle" and "obs_requestKind s = ObdSupportedPids"
    and "2 \<le> n" and "n \<le> 64"
  shows "obd_handled (judge_body ObdSupportedPids (drop 2 (take n (obs_response s)))) s
    (handleSupportedPids T n s t)"
proof (cases "n = 6")
  case False
  with obd_finish_invalid [OF assms(1,2)] assms show ?thesis
    by (auto simp: handleSupportedPids_def obd_arrays_def)
next
  case True
  let ?r = "obs_response s"
  have len: "length ?r = 64" using assms(1) by (simp add: obd_arrays_def)
  have d: "drop 2 (take 6 ?r) = [?r ! 2, ?r ! 3, ?r ! 4, ?r ! 5]"
    using drop_two [of 2 6 ?r] drop_two [of 4 6 ?r] len by simp
  let ?s = "s\<lparr>obs_supportedPidBitmap := be_value [?r ! 2, ?r ! 3, ?r ! 4, ?r ! 5]\<rparr>"
  have "obd_handled (ObdVReply (ReplySupported (be_value [?r ! 2, ?r ! 3, ?r ! 4, ?r ! 5]))) s
      (obd_finish T ObdResponseReady ?s t)"
    using obd_handled_finish [of s "ObdVReply (ReplySupported (be_value [?r ! 2, ?r ! 3, ?r ! 4, ?r ! 5]))" ?s T t] assms
    by (simp add: obd_arrays_def)
  then show ?thesis by (simp add: True d handleSupportedPids_def be_value_4)
qed

lemma handleVin_spec:
  assumes "obd_arrays s" and "obs_state s \<noteq> ObdStateIdle" and "obs_requestKind s = ObdVin"
    and "2 \<le> n" and "n \<le> 64"
  shows "obd_handled (judge_body ObdVin (drop 2 (take n (obs_response s)))) s (handleVin T n s t)"
proof -
  let ?r = "obs_response s"
  have len: "length ?r = 64" "length (obs_vin s) = 17" using assms(1) by (simp_all add: obd_arrays_def)
  have hd: "hd (drop 2 (take 20 ?r)) = ?r ! 2"
    using len by (simp add: hd_drop_conv_nth)
  have tl: "tl (drop 2 (take 20 ?r)) = take 17 (drop 3 ?r)"
    by (rule nth_equalityI) (simp_all add: len nth_tl numeral_3_eq_3)
  show ?thesis
  proof (cases "n = 20 \<and> ?r ! 2 = 1")
    case False
    then have h: "handleVin T n s t = obd_finish T ObdInvalidResponse s t" by (auto simp: handleVin_def)
    have "judge_body ObdVin (drop 2 (take n ?r)) = ObdVInvalid"
    proof (cases "n = 20")
      case False
      then have "n - 2 \<noteq> 18" using assms(4) by simp
      then show ?thesis using len assms(5) by simp
    qed (use False hd in auto)
    with h obd_finish_invalid [OF assms(1,2)] show ?thesis by simp
  next
    case True
    let ?v = "take 17 (drop 3 ?r)"
    have "fold (\<lambda>i v. v[i := ?r ! (i + 3)]) [0..<17] (obs_vin s) = ?v"
      using fold_update_upt [of 17 "obs_vin s" "\<lambda>i. ?r ! (i + 3)"] map_nth_shift [of 3 17 ?r] len
      by simp
    then have h: "handleVin T n s t = obd_finish T ObdResponseReady (s\<lparr>obs_vin := ?v\<rparr>) t"
      using True by (simp add: handleVin_def kVinLength_def)
    have j: "judge_body ObdVin (drop 2 (take n ?r)) = ObdVReply (ReplyVin ?v)"
      using True len hd tl by simp
    show ?thesis
      unfolding h j
      using obd_handled_finish [of s "ObdVReply (ReplyVin ?v)" "s\<lparr>obs_vin := ?v\<rparr>" T t] assms
      by (simp add: obd_arrays_def)
  qed
qed

lemma handleStoredDtcs_spec:
  assumes "obd_arrays s" and "obs_state s \<noteq> ObdStateIdle" and "obs_requestKind s = ObdStoredDtcs"
    and "1 \<le> n" and "n \<le> 64"
  shows "obd_handled (judge_dtcs (drop 1 (take n (obs_response s)))) s (handleStoredDtcs T n s t)"
proof -
  let ?r = "obs_response s" and ?d = "drop 1 (take n (obs_response s))"
  let ?e = "replicate 16 ObdDtcRecord_default"
  have len: "length ?r = 64" "length ?d = n - 1" using assms by (simp_all add: obd_arrays_def)
  show ?thesis
  proof (cases "odd (n - 1)")
    case True
    then have "judge_dtcs ?d = ObdVInvalid" using len by (simp only: judge_dtcs_def) simp
    moreover have "(n - 1) mod 2 \<noteq> 0" using True by (simp only: odd_iff_mod_2_eq_one)
    then have "handleStoredDtcs T n s t = obd_finish T ObdInvalidResponse s t"
      unfolding handleStoredDtcs_def Let_def by (rule if_P)
    ultimately show ?thesis using obd_finish_invalid [OF assms(1,2)] by simp
  next
    case False
    then have ev: "even (n - 1)" by simp
    have ev2: "(n - 1) mod 2 = 0" using ev by (simp add: even_iff_mod_2_eq_zero)
    note parse = parseStoredDtcs_spec [of n ?r 1 0 ?e, OF _ ev assms(4)]
    show ?thesis
    proof (cases "16 < length (real_dtcs ?d)")
      case True
      then have "judge_dtcs ?d = ObdVInvalid" by (simp add: judge_dtcs_def)
      moreover have "handleStoredDtcs T n s t = obd_finish T ObdInvalidResponse s t"
        using parse True assms len ev2 by (simp add: handleStoredDtcs_def obd_sizes)
      ultimately show ?thesis using obd_finish_invalid [OF assms(1,2)] by simp
    next
      case fits: False
      let ?cs = "real_dtcs ?d"
      let ?t = "map dtc_record ?cs @ drop (length ?cs) ?e"
      have j: "judge_dtcs ?d = ObdVReply (ReplyDtcs ?cs)" using fits len ev by (simp add: judge_dtcs_def)
      have h: "handleStoredDtcs T n s t = obd_finish T ObdResponseReady
          (s\<lparr>obs_storedDtcs := ?t, obs_storedDtcCount := length ?cs\<rparr>) t"
        using parse fits assms len ev2 by (simp add: handleStoredDtcs_def obd_sizes)
      have "map (\<lambda>r. (odr_firstByte r, odr_secondByte r)) (map dtc_record ?cs) = ?cs"
        by (simp add: comp_def dtc_record_def)
      then show ?thesis
        unfolding h j
        using obd_handled_finish [of s "ObdVReply (ReplyDtcs ?cs)"
            "s\<lparr>obs_storedDtcs := ?t, obs_storedDtcCount := length ?cs\<rparr>" T t] assms fits
        by (simp add: obd_arrays_def)
    qed
  qed
qed

lemma obd_handleResponse_spec:
  assumes "obd_arrays s" and "obs_state s \<noteq> ObdStateIdle" and "obs_requestKind s \<noteq> ObdNone"
    and "n \<le> 64"
  shows "obd_handled (obd_judge (obs_requestKind s) (obs_requestedPid s) (take n (obs_response s))) s
    (obd_handleResponse T n s t)"
proof -
  let ?r = "obs_response s" and ?k = "obs_requestKind s"
  have len: "length ?r = 64" using assms(1) by (simp add: obd_arrays_def)
  note unexpected = obd_handled_unexpected [OF assms(1)]
  consider "n = 0" | "n = 1" | "2 \<le> n" by linarith
  then show ?thesis
  proof cases
    case 1
    with unexpected show ?thesis by (simp add: obd_judge_def obd_handleResponse_def)
  next
    case 2
    have m: "take 1 ?r = [?r ! 0]" using len by (cases ?r) simp_all
    show ?thesis
      using 2 unexpected handleStoredDtcs_spec [OF assms(1,2), of n] m
      by (cases ?k) (auto simp: obd_judge_def obd_handleResponse_def assms(3))
  next
    case 3
    have m: "take n ?r = ?r ! 0 # drop 1 (take n ?r)" "drop 1 (take n ?r) = ?r ! 1 # drop 2 (take n ?r)"
    proof -
      have e: "take n ?r = ?r ! 0 # ?r ! 1 # drop 2 (take n ?r)"
        using drop_two [of 0 n ?r] 3 len assms(4) by (simp only: drop_0 add_0 add_0_left le_refl)
      show "drop 1 (take n ?r) = ?r ! 1 # drop 2 (take n ?r)" by (subst e) simp
      then show "take n ?r = ?r ! 0 # drop 1 (take n ?r)" using e by simp
    qed
    note judge = m(1) [THEN arg_cong, of "obd_judge ?k (obs_requestedPid s)"]
    show ?thesis
      unfolding judge
      using 3 assms unexpected handleStoredDtcs_spec [OF assms(1,2), of n] m(2)
        handleCurrentData_spec [OF assms(1,2), of n] handleSupportedPids_spec [OF assms(1,2), of n]
        handleVin_spec [OF assms(1,2), of n]
      by (cases ?k) (auto simp: obd_judge_def obd_handleResponse_def simp del: judge_body.simps)
  qed
qed

end
