(* ===== verification/Obd_Runs.thy ===== *)
theory Obd_Runs
  imports Obd_Properties
begin

text \<open>
  Runs of the OBD service over a transport and a clock: its invariant, the end of every request,
  and when results are published. The lemmas are proved once in the locale \<open>timed_transport\<close>; the
  properties at the end are over the ISO-TP transport, through its interpretation.
\<close>

section \<open>The invariant\<close>

definition obd_inv :: "ObdService \<Rightarrow> bool" where
  "obd_inv s \<longleftrightarrow>
     obd_arrays s \<and> (obs_state s = ObdStateIdle \<longleftrightarrow> obs_requestKind s = ObdNone) \<and>
     (obs_state s \<noteq> ObdStateIdle \<longrightarrow> obs_responseTimeoutMs s \<noteq> 0)"

lemma obd_inv_init: "obd_inv (ObdService_init cfg)"
  by (simp add: obd_inv_def obd_arrays_def ObdService_init_def obd_sizes)

datatype 'o obd_event =
    OCurrentData u8
  | OSupportedPids u8
  | OVin
  | OStoredDtcs
  | OPoll
  | OOutside 'o

fun obd_step ::
    "'t DiagnosticTransport \<Rightarrow> 't Clock \<Rightarrow> ('o \<Rightarrow> 't \<Rightarrow> 't) \<Rightarrow> 'o obd_event \<Rightarrow>
     ObdService \<times> 't \<Rightarrow> ObdService \<times> 't" where
  "obd_step T clk out (OCurrentData p) (s, t) = snd (requestCurrentData T clk p s t)"
| "obd_step T clk out (OSupportedPids p) (s, t) = snd (requestSupportedPids T clk p s t)"
| "obd_step T clk out OVin (s, t) = snd (requestVin T clk s t)"
| "obd_step T clk out OStoredDtcs (s, t) = snd (requestStoredDtcs T clk s t)"
| "obd_step T clk out OPoll (s, t) = snd (obd_poll T clk s t)"
| "obd_step T clk out (OOutside e) (s, t) = (s, out e t)"

definition obd_run ::
    "'t DiagnosticTransport \<Rightarrow> 't Clock \<Rightarrow> ('o \<Rightarrow> 't \<Rightarrow> 't) \<Rightarrow> 'o obd_event list \<Rightarrow>
     ObdService \<times> 't \<Rightarrow> ObdService \<times> 't" where
  "obd_run T clk out es x = fold (obd_step T clk out) es x"

section \<open>Small steps\<close>

lemma obd_arrays_updates [simp]:
  "obd_arrays (s\<lparr>obs_status := a\<rparr>) = obd_arrays s"
  "obd_arrays (s\<lparr>obs_state := b\<rparr>) = obd_arrays s"
  "obd_arrays (s\<lparr>obs_requestKind := c\<rparr>) = obd_arrays s"
  "obd_arrays (s\<lparr>obs_lastTransportStatus := d\<rparr>) = obd_arrays s"
  "obd_arrays (s\<lparr>obs_requestedPid := e\<rparr>) = obd_arrays s"
  "obd_arrays (s\<lparr>obs_responseDeadlineMs := f\<rparr>) = obd_arrays s"
  "obd_arrays s \<Longrightarrow> length r = 64 \<Longrightarrow> obd_arrays (s\<lparr>obs_response := r\<rparr>)"
  "obd_arrays s \<Longrightarrow> obd_arrays (obd_clearResult s)"
  by (simp_all add: obd_arrays_def obd_clearResult_def obd_sizes)

lemma obd_published_updates [simp]:
  "obd_published (s\<lparr>obs_status := a\<rparr>) = obd_published s"
  "obd_published (s\<lparr>obs_state := b\<rparr>) = obd_published s"
  "obd_published (s\<lparr>obs_requestKind := c\<rparr>) = obd_published s"
  "obd_published (s\<lparr>obs_lastTransportStatus := d\<rparr>) = obd_published s"
  "obd_published (s\<lparr>obs_responseDeadlineMs := f\<rparr>) = obd_published s"
  "obd_published (s\<lparr>obs_response := r\<rparr>) = obd_published s"
  by (simp_all add: obd_published_def)

lemma obd_clearResult_simps [simp]:
  "obs_state (obd_clearResult s) = obs_state s"
  "obs_responseTimeoutMs (obd_clearResult s) = obs_responseTimeoutMs s"
  by (simp_all add: obd_clearResult_def)

lemmas obd_small_defs = obd_setStatus_def obd_finishWithoutTransport_def obd_finish_simps
  obd_beginResponseWait_def

context timed_transport
begin

text \<open>Starting: the guard's answer decides, from a prepared state.\<close>

lemma obd_beginTransport_inv:
  assumes "obd_arrays s" and "obs_state s = ObdStateIdle" and "obs_requestKind s \<noteq> ObdNone"
    and "obs_responseTimeoutMs s \<noteq> 0" and "ok t"
    and "obd_beginTransport T clk r s t = (st, s1, t1)"
  shows "obd_inv s1 \<and> ok t1"
proof -
  obtain now u where c: "clk t = (now, u)" by fastforce
  then have "ok u" using clock_ok [OF assms(5)] by simp
  with assms c show ?thesis
    by (auto simp: obd_beginTransport_def obd_small_defs obd_inv_def Let_def split: if_splits)
qed

lemma obd_beginRequest_inv:
  assumes "obd_inv s" and "ok t" and "k \<noteq> ObdNone"
    and "obd_beginRequest T clk m p k s t = (st, s1, t1)"
  shows "obd_inv s1 \<and> ok t1"
proof -
  consider "obd_isRequestActive s" | "\<not> obd_isRequestActive s" "obs_responseTimeoutMs s = 0"
    | (go) "\<not> obd_isRequestActive s" "obs_responseTimeoutMs s \<noteq> 0" by blast
  then show ?thesis
  proof cases
    case go
    let ?r = "\<lparr>opr_mode = m, opr_pid = Some [p], opr_pidCount = 1\<rparr>"
    let ?s = "(obd_clearResult s)\<lparr>obs_requestKind := k, obs_requestedPid := p\<rparr>"
    obtain r u where r: "startObdSinglePid T ?r t = (r, u)" by fastforce
    have u: "ok u" using requests_ok(1) [OF assms(2), of ?r] r by simp
    have "obd_beginTransport T clk r ?s u = (st, s1, t1)"
      using assms(4) go r by (simp add: obd_beginRequest_def obd_prepareRequest_def)
    from obd_beginTransport_inv [OF _ _ _ _ u this] show ?thesis
      using go assms(1,3) by (simp add: obd_inv_def obd_isRequestActive_def)
  qed (use assms in \<open>auto simp: obd_beginRequest_def obd_prepareRequest_def obd_inv_def
         obd_isRequestActive_def\<close>)
qed

lemma requestStoredDtcs_inv:
  assumes "obd_inv s" and "ok t" and "requestStoredDtcs T clk s t = (st, s1, t1)"
  shows "obd_inv s1 \<and> ok t1"
proof -
  consider "obd_isRequestActive s" | "\<not> obd_isRequestActive s" "obs_responseTimeoutMs s = 0"
    | (go) "\<not> obd_isRequestActive s" "obs_responseTimeoutMs s \<noteq> 0" by blast
  then show ?thesis
  proof cases
    case go
    let ?s = "(obd_clearResult s)\<lparr>obs_requestKind := ObdStoredDtcs\<rparr>"
    obtain r u where r: "startObdStoredDtcRead T t = (r, u)" by fastforce
    have u: "ok u" using requests_ok(2) [OF assms(2)] r by simp
    have "obd_beginTransport T clk r ?s u = (st, s1, t1)"
      using assms(3) go r by (simp add: requestStoredDtcs_def obd_prepareRequest_def)
    from obd_beginTransport_inv [OF _ _ _ _ u this] show ?thesis
      using go assms(1) by (simp add: obd_inv_def obd_isRequestActive_def)
  qed (use assms in \<open>auto simp: requestStoredDtcs_def obd_prepareRequest_def obd_inv_def
         obd_isRequestActive_def\<close>)
qed

lemma requestSupportedPids_inv:
  assumes "obd_inv s" and "ok t" and "requestSupportedPids T clk p s t = (st, s1, t1)"
  shows "obd_inv s1 \<and> ok t1"
proof (cases "obd_isRequestActive s \<or> \<not> isSupportedPidBlockBase p")
  case True
  with assms show ?thesis
    by (auto simp: requestSupportedPids_def obd_small_defs obd_inv_def split: if_splits)
next
  case False
  with assms(3) have "obd_beginRequest T clk kModeCurrentData p ObdSupportedPids s t = (st, s1, t1)"
    by (simp add: requestSupportedPids_def obd_beginMode01Request_def)
  from obd_beginRequest_inv [OF assms(1,2) _ this] show ?thesis by simp
qed

text \<open>The outcomes of waiting for a response.\<close>

lemma obd_pollResponse_cases:
  assumes "ok t" and "obd_arrays s" and "obd_pollResponse T clk s t = out"
  obtains (timeout) now t1 where "clk t = (now, t1)" "ok t1" "obs_responseDeadlineMs s \<le> now"
      "out = obd_finish T ObdTimeout s t1"
  | (wait) st r now t1 t2 where "clk t = (now, t1)" "now < obs_responseDeadlineMs s" "ok t2"
      "length r = 64"
      "out = obd_setStatus ObdInProgress (s\<lparr>obs_response := r, obs_lastTransportStatus := st\<rparr>) t2"
  | (fail) st r now t1 t2 where "clk t = (now, t1)" "now < obs_responseDeadlineMs s" "ok t2"
      "length r = 64"
      "out = obd_finish T ObdTransportFailure (s\<lparr>obs_response := r, obs_lastTransportStatus := st\<rparr>) t2"
  | (message) n r now t1 t2 where "clk t = (now, t1)" "now < obs_responseDeadlineMs s" "ok t2"
      "length r = 64" "0 < n" "n \<le> 64"
      "dt_receive T (Some (obs_response s)) 64 t1 = (TsComplete, n, Some r, t2)"
      "out = obd_handleResponse T n (s\<lparr>obs_response := r, obs_lastTransportStatus := TsComplete\<rparr>) t2"
proof -
  obtain now t1 where c: "clk t = (now, t1)" by fastforce
  have t1: "ok t1" using clock_ok [OF assms(1)] c by simp
  have len: "length (obs_response s) = 64" using assms(2) by (simp add: obd_arrays_def)
  obtain st n b t2 where r: "dt_receive T (Some (obs_response s)) 64 t1 = (st, n, b, t2)"
    by (metis prod_cases4)
  from receive_buffer [OF t1, of "obs_response s"] r len
  obtain buf where buf: "b = Some buf" "length buf = 64" by auto
  have t2: "ok t2" using receive_ok [OF t1, of "Some (obs_response s)" 64] r by simp
  have n: "st = TsComplete \<Longrightarrow> 0 < n \<and> n \<le> 64" using receive_length [OF t1] r by blast
  show ?thesis
  proof (cases "obs_responseDeadlineMs s \<le> now")
    case True
    with assms(3) c t1 show ?thesis by (intro timeout) (auto simp: obd_pollResponse_def)
  next
    case False
    then have lt: "now < obs_responseDeadlineMs s" by simp
    have out: "out = (let s1 = s\<lparr>obs_response := buf, obs_lastTransportStatus := st\<rparr>
        in if st = TsNoData then obd_setStatus ObdInProgress s1 t2
           else if st \<noteq> TsComplete then obd_finish T ObdTransportFailure s1 t2
           else obd_handleResponse T n s1 t2)"
      unfolding assms(3) [symmetric]
      using c False r buf len by (simp add: obd_pollResponse_def guard_receive_def Let_def)
    consider "st = TsNoData" | "st \<noteq> TsNoData" "st \<noteq> TsComplete" | "st = TsComplete" by blast
    then show ?thesis
    proof cases
      case 1
      with out c lt t2 buf show ?thesis by (intro wait) auto
    next
      case 2
      with out c lt t2 buf show ?thesis by (intro fail) auto
    next
      case 3
      with out c lt t2 buf n r show ?thesis by (intro message) auto
    qed
  qed
qed

end

lemma obd_handleResponse_transport:
  assumes "obs_state s \<noteq> ObdStateIdle" and "obd_handleResponse T n s t = (st, s1, t1)"
  shows "t1 = (if obs_state s1 = ObdStateIdle then dt_discardPendingMessage T t else t)"
  using assms
  by (auto simp: obd_handleResponse_def handleCurrentData_def handleSupportedPids_def handleVin_def
      handleStoredDtcs_def obd_small_defs guard_discardPendingMessage_def Let_def
      split: if_splits ObdRequestKind.splits option.splits)

text \<open>
  A poll of an active request: the invariant holds, the request ends exactly with the four final
  statuses, and a result is published only with \<open>ResponseReady\<close>.
\<close>

definition obd_polled :: "ObdService \<Rightarrow> ObdServiceStatus \<Rightarrow> ObdService \<Rightarrow> bool" where
  "obd_polled s st s1 \<longleftrightarrow>
     obd_inv s1 \<and> obs_status s1 = st \<and>
     (obs_state s1 = ObdStateIdle \<longleftrightarrow>
        st \<in> {ObdResponseReady, ObdInvalidResponse, ObdTimeout, ObdTransportFailure}) \<and>
     (st \<noteq> ObdResponseReady \<longrightarrow> obd_published s1 = obd_published s)"

context timed_transport
begin

lemma obd_pollResponse_polled:
  assumes "obd_inv s" and "ok t" and "obs_state s = ObdAwaitingResponse"
    and "obd_pollResponse T clk s t = (st, s1, t1)"
  shows "obd_polled s st s1 \<and> ok t1 \<and>
    (obs_state s1 = ObdStateIdle \<longrightarrow> (\<exists>u. ok u \<and> t1 = dt_discardPendingMessage T u))"
proof -
  have a: "obd_arrays s" and k: "obs_requestKind s \<noteq> ObdNone" and o: "obs_responseTimeoutMs s \<noteq> 0"
    using assms(1,3) by (auto simp: obd_inv_def)
  from assms(2) a assms(4) show ?thesis
  proof (cases rule: obd_pollResponse_cases)
    case (timeout now u)
    with discard_ok [of u] assms(3) a show ?thesis
      by (auto simp: obd_polled_def obd_finish_simps guard_discardPendingMessage_def obd_inv_def)
  next
    case (wait p r now u v)
    with assms(3) a k o show ?thesis by (auto simp: obd_polled_def obd_setStatus_def obd_inv_def)
  next
    case (fail p r now u v)
    with discard_ok [of v] assms(3) a show ?thesis
      by (auto simp: obd_polled_def obd_finish_simps guard_discardPendingMessage_def obd_inv_def)
  next
    case (message n r now u v)
    let ?s = "s\<lparr>obs_response := r, obs_lastTransportStatus := TsComplete\<rparr>"
    let ?j = "obd_judge (obs_requestKind s) (obs_requestedPid s) (take n r)"
    have "obd_handled ?j ?s (st, s1, t1)"
      using obd_handleResponse_spec [of ?s n T v] message assms(3) a k by simp
    then have h: "st = obd_verdict_status ?j" "obs_status s1 = st" "obd_arrays s1"
      "obs_state s1 = (if ?j = ObdVUnexpected then ObdAwaitingResponse else ObdStateIdle)"
      "obs_requestKind s1 = (if ?j = ObdVUnexpected then obs_requestKind s else ObdNone)"
      "obs_responseTimeoutMs s1 = obs_responseTimeoutMs s"
      "st \<noteq> ObdResponseReady \<Longrightarrow> obd_published s1 = obd_published s"
      using assms(3) by (auto simp: obd_handled_def split: obd_verdict.splits)
    have t1: "t1 = (if obs_state s1 = ObdStateIdle then dt_discardPendingMessage T v else v)"
      using obd_handleResponse_transport [of ?s T n v st s1 t1] message assms(3) by simp
    have "ok t1" using t1 message(3) discard_ok by simp
    with h t1 k o message(3) show ?thesis
      by (cases ?j) (auto simp: obd_polled_def obd_inv_def)
  qed
qed

lemma obd_poll_polled:
  assumes "obd_inv s" and "ok t" and "obs_state s \<noteq> ObdStateIdle"
    and "obd_poll T clk s t = (st, s1, t1)"
  shows "obd_polled s st s1 \<and> ok t1 \<and>
    (obs_state s1 = ObdStateIdle \<longrightarrow> (\<exists>u. ok u \<and> t1 = dt_discardPendingMessage T u))"
proof -
  obtain p u where p: "dt_poll T t = (p, u)" by fastforce
  have u: "ok u" using poll_ok [OF assms(2)] p by simp
  obtain now v where c: "clk u = (now, v)" by fastforce
  have v: "ok v" using clock_ok [OF u] c by simp
  let ?s = "s\<lparr>obs_lastTransportStatus := p\<rparr>"
  have i: "obd_inv ?s" using assms(1) by (simp add: obd_inv_def)
  consider (response) "obs_state s = ObdAwaitingResponse" "isNonFailingPollStatus p"
    | (fail) "obs_state s = ObdAwaitingResponse" "\<not> isNonFailingPollStatus p"
    | (transmit) "obs_state s = ObdAwaitingTransmit"
    using assms(3) by (cases "obs_state s") auto
  then show ?thesis
  proof cases
    case response
    then have "obd_pollResponse T clk ?s u = (st, s1, t1)"
      using assms(4) p by (simp add: obd_poll_def guard_poll_def)
    from obd_pollResponse_polled [OF i u _ this] response show ?thesis
      by (simp add: obd_polled_def)
  next
    case fail
    with assms p u discard_ok [of u] show ?thesis
      by (auto simp: obd_poll_def guard_poll_def obd_polled_def obd_finish_simps
          guard_discardPendingMessage_def obd_inv_def)
  next
    case transmit
    with assms p u v c discard_ok [of u] show ?thesis
      by (auto simp: obd_poll_def guard_poll_def obd_polled_def obd_small_defs
          guard_discardPendingMessage_def obd_inv_def Let_def split: if_splits)
  qed
qed

lemma obd_poll_inv:
  assumes "obd_inv s" and "ok t" and "obd_poll T clk s t = (st, s1, t1)"
  shows "obd_inv s1 \<and> ok t1"
proof (cases "obs_state s = ObdStateIdle")
  case True
  with assms show ?thesis by (simp add: obd_poll_def)
next
  case False
  with obd_poll_polled [OF assms(1,2) _ assms(3)] show ?thesis by (simp add: obd_polled_def)
qed

lemma obd_step_inv:
  assumes "obd_inv s" and "ok t" and "\<And>e u. ok u \<Longrightarrow> ok (out e u)"
    and "obd_step T clk out e (s, t) = (s1, t1)"
  shows "obd_inv s1 \<and> ok t1"
proof (cases e)
  case (OCurrentData p)
  with assms(4) have "obd_beginRequest T clk kModeCurrentData p ObdCurrentData s t =
      (fst (requestCurrentData T clk p s t), s1, t1)"
    by (simp add: requestCurrentData_def obd_beginMode01Request_def prod_eq_iff)
  from obd_beginRequest_inv [OF assms(1,2) _ this] show ?thesis by simp
next
  case (OSupportedPids p)
  with assms(4) have "requestSupportedPids T clk p s t =
      (fst (requestSupportedPids T clk p s t), s1, t1)" by (simp add: prod_eq_iff)
  from requestSupportedPids_inv [OF assms(1,2) this] show ?thesis .
next
  case OVin
  with assms(4) have "obd_beginRequest T clk kModeVehicleInformation kVinPid ObdVin s t =
      (fst (requestVin T clk s t), s1, t1)" by (simp add: requestVin_def prod_eq_iff)
  from obd_beginRequest_inv [OF assms(1,2) _ this] show ?thesis by simp
next
  case OStoredDtcs
  with assms(4) have "requestStoredDtcs T clk s t = (fst (requestStoredDtcs T clk s t), s1, t1)"
    by (simp add: prod_eq_iff)
  from requestStoredDtcs_inv [OF assms(1,2) this] show ?thesis .
next
  case OPoll
  with assms(4) have "obd_poll T clk s t = (fst (obd_poll T clk s t), s1, t1)"
    by (simp add: prod_eq_iff)
  from obd_poll_inv [OF assms(1,2) this] show ?thesis .
qed (use assms in auto)

lemma obd_run_inv:
  assumes "obd_inv (fst x)" and "ok (snd x)" and "\<And>e u. ok u \<Longrightarrow> ok (out e u)"
  shows "obd_inv (fst (obd_run T clk out es x)) \<and> ok (snd (obd_run T clk out es x))"
  using assms(1,2)
proof (induction es arbitrary: x)
  case (Cons e es)
  obtain s t where x: "x = (s, t)" by fastforce
  obtain s1 t1 where s: "obd_step T clk out e (s, t) = (s1, t1)" by fastforce
  have "obd_inv s1 \<and> ok t1"
    by (rule obd_step_inv [OF _ _ assms(3) s]) (use Cons.prems x in simp_all)
  with Cons.IH [of "(s1, t1)"] show ?case by (simp add: obd_run_def x s)
qed (simp add: obd_run_def)

end

end
