(* ===== verification/Obd_Behaviour.thy ===== *)
theory Obd_Behaviour
  imports Obd_Runs IsoTp_Properties
begin

text \<open>
  The properties of the OBD service over the ISO-TP transport, for every CAN back end and clock.
\<close>

section \<open>Concrete states\<close>

definition obd_waiting :: "ObdRequestKind \<Rightarrow> u8 \<Rightarrow> ObdService" where
  "obd_waiting kind pid = (ObdService_init 1000)
     \<lparr>obs_state := ObdAwaitingResponse, obs_requestKind := kind, obs_status := ObdInProgress,
      obs_requestedPid := pid, obs_responseDeadlineMs := 1000\<rparr>"

lemma obd_waiting_simps:
  "kind \<noteq> ObdNone \<Longrightarrow> obd_inv (obd_waiting kind pid)"
  "obs_state (obd_waiting kind pid) = ObdAwaitingResponse"
  "obs_requestKind (obd_waiting kind pid) = kind" "obs_requestedPid (obd_waiting kind pid) = pid"
  "obs_responseDeadlineMs (obd_waiting kind pid) = 1000"
  by (simp_all add: obd_waiting_def obd_inv_def obd_arrays_def ObdService_init_def obd_sizes)

lemma obd_handled_input:
  "obd_handled v (s\<lparr>obs_response := r, obs_lastTransportStatus := q\<rparr>) out = obd_handled v s out"
  by (cases out; cases v) (simp_all add: obd_handled_def)

section \<open>Properties\<close>

text \<open>
  C24: In every run of OBD requests, polls, incoming frames and changes of the back end, the service
  and the transport keep their invariants: buffers of fixed size, counts within the tables, a
  request kind exactly while a request is active.
\<close>

theorem obd_run_invariant:
  "case obd_run (IsoTp_transport E) (isotp_clock E) (bus_step E) es
          (ObdService_init timeout, IsoTp_init cfg, w) of
     (s, b, w1) \<Rightarrow> obd_inv s \<and> isotp_inv b"
proof -
  let ?x = "(ObdService_init timeout, IsoTp_init cfg, w)"
  let ?y = "obd_run (IsoTp_transport E) (isotp_clock E) (bus_step E) es ?x"
  have "obd_inv (fst ?y) \<and> isotp_ok (snd ?y)"
    by (rule isotp_timed.obd_run_inv)
      (simp_all add: obd_inv_init isotp_ok_def isotp_inv_init bus_step_ok [unfolded isotp_ok_def])
  then show ?thesis by (cases ?y) (auto simp: isotp_ok_def)
qed

text \<open>
  C5: Decoding. When the transport holds a message of at most 64 bytes before the deadline, a poll
  gives the verdict of the specification on that message: an answer to another request leaves the
  request waiting, a malformed answer ends it, and a well-formed one is published exactly.
\<close>

theorem obd_poll_decodes:
  assumes "obd_inv s" and "obs_state s = ObdAwaitingResponse" and "isotp_inv b"
    and "txState b = TxIdle" and "delivered m b" and "length m \<le> 64"
    and "env_clock E w = (t0, w0)" and "env_clock E w0 = (now, w1)"
    and "now < obs_responseDeadlineMs s"
  shows "obd_handled (obd_judge (obs_requestKind s) (obs_requestedPid s) m) s
    (obd_poll (IsoTp_transport E) (isotp_clock E) s (b, w))"
proof -
  have r: "rxState b = RxIdle" "isConfigValid b"
    using assms(3,5) by (auto simp: isotp_inv_def rx_inv_def delivered_def)
  have a: "obd_arrays s" "obs_requestKind s \<noteq> ObdNone" "length (obs_response s) = 64"
    using assms(1,2) by (auto simp: obd_inv_def obd_arrays_def)
  have p: "IsoTp_poll E b w = (TsIdle, b, w0)"
    using r assms(4,7) by (simp add: IsoTp_poll_def)
  let ?r = "m @ drop (length m) (obs_response s)"
  have len: "length m \<le> length (obs_response s)" using assms(6) a by simp
  note recv = delivered_receive [OF assms(5) len, unfolded a(3)]
  let ?s = "s\<lparr>obs_response := ?r, obs_lastTransportStatus := TsComplete\<rparr>"
  let ?t = "(IsoTp_discardPendingMessage b, w1)"
  have "obd_poll (IsoTp_transport E) (isotp_clock E) s (b, w) =
      obd_handleResponse (IsoTp_transport E) (length m) ?s ?t"
    using p recv assms(2,8,9) a(3)
    by (simp add: obd_poll_def obd_pollResponse_def guard_poll_def guard_receive_def
        IsoTp_transport_def isotp_clock_def isNonFailingPollStatus_def not_le [symmetric])
  moreover have "obd_handled (obd_judge (obs_requestKind s) (obs_requestedPid s) m) ?s
      (obd_handleResponse (IsoTp_transport E) (length m) ?s ?t)"
    using obd_handleResponse_spec [of ?s "length m" "IsoTp_transport E" ?t] a assms(2,6) len
    by simp
  ultimately show ?thesis by (simp only: obd_handled_input)
qed

lemma obd_poll_decodes_witness:
  "obd_handled (ObdVReply (ReplyRaw [0x1A, 0xF8])) (obd_waiting ObdCurrentData 0x0C)
     (obd_poll (IsoTp_transport mock_env) (isotp_clock mock_env) (obd_waiting ObdCurrentData 0x0C)
        (holding [0x41, 0x0C, 0x1A, 0xF8], mock_world))"
  using obd_poll_decodes [of "obd_waiting ObdCurrentData 0x0C" "holding [0x41, 0x0C, 0x1A, 0xF8]"
      "[0x41, 0x0C, 0x1A, 0xF8]" mock_env mock_world 0 mock_world 0 mock_world]
  by (simp add: obd_waiting_simps holding_simps mock_env_def FakeClock_nowMs_def mock_world_def
      obd_judge_def)

text \<open>
  C22: No torn or stale results. A poll of an active request, over any environment, ends it exactly
  with one of the four final statuses and then leaves no message in the transport; the published
  data change only with \<open>ResponseReady\<close>.
\<close>

theorem obd_poll_outcome:
  assumes "obd_inv s" and "isotp_inv b" and "obs_state s \<noteq> ObdStateIdle"
    and "obd_poll (IsoTp_transport E) (isotp_clock E) s (b, w) = (st, s1, b1, w1)"
  shows "(obs_state s1 = ObdStateIdle \<longleftrightarrow>
      st \<in> {ObdResponseReady, ObdInvalidResponse, ObdTimeout, ObdTransportFailure}) \<and>
    (obs_state s1 = ObdStateIdle \<longrightarrow> \<not> rxMessageReady b1) \<and>
    (st \<noteq> ObdResponseReady \<longrightarrow> obd_published s1 = obd_published s)"
proof -
  have ok: "isotp_ok (b, w)" using assms(2) by (simp add: isotp_ok_def)
  note p = isotp_timed.obd_poll_polled [OF assms(1) ok assms(3,4)]
  have "obs_state s1 = ObdStateIdle \<Longrightarrow> \<not> rxMessageReady b1"
    using p by (auto simp: IsoTp_transport_def IsoTp_discardPendingMessage_def)
  with p show ?thesis by (simp add: obd_polled_def)
qed

lemma obd_poll_outcome_witness:
  "case obd_poll (IsoTp_transport mock_env) (isotp_clock mock_env) (obd_waiting ObdVin 2)
      (holding [0x49, 2], mock_world) of
    (st, s1, b1, w1) \<Rightarrow> obs_state s1 = ObdStateIdle \<longrightarrow> \<not> rxMessageReady b1"
proof -
  obtain st s1 b1 w1 where p: "obd_poll (IsoTp_transport mock_env) (isotp_clock mock_env)
      (obd_waiting ObdVin 2) (holding [0x49, 2], mock_world) = (st, s1, b1, w1)"
    by (metis prod_cases4)
  from obd_poll_outcome [OF _ _ _ p] p show ?thesis
    by (simp add: obd_waiting_simps holding_simps)
qed

text \<open>
  C26: Deadline. A poll whose clock reading has reached the deadline of the response ends the
  request, over any transport, even when a message is waiting: \<open>Timeout\<close>, or \<open>TransportFailure\<close> when
  the transport's own poll failed.
\<close>

theorem obd_poll_deadline:
  assumes "obs_state s = ObdAwaitingResponse" and "dt_poll T t = (p, u)" and "clk u = (now, v)"
    and "obs_responseDeadlineMs s \<le> now" and "obd_poll T clk s t = (st, s1, t1)"
  shows "obs_state s1 = ObdStateIdle \<and> obs_requestKind s1 = ObdNone \<and>
    obd_published s1 = obd_published s \<and>
    st = (if p \<in> {TsIdle, TsInProgress, TsComplete} then ObdTimeout else ObdTransportFailure)"
  using assms
  by (auto simp: obd_poll_def obd_pollResponse_def guard_poll_def obd_finish_simps
      isNonFailingPollStatus_def split: if_splits)

lemma obd_poll_deadline_witness:
  "obs_state (fst (snd (obd_poll (IsoTp_transport mock_env) (isotp_clock mock_env)
     (obd_waiting ObdVin 2) (holding [0x49, 2], (MockCan_init, 1000))))) = ObdStateIdle"
proof -
  let ?w = "(MockCan_init, 1000) :: MockCan \<times> u64"
  obtain st s1 t1 where p: "obd_poll (IsoTp_transport mock_env) (isotp_clock mock_env)
      (obd_waiting ObdVin 2) (holding [0x49, 2], ?w) = (st, s1, t1)" by (metis prod_cases3)
  obtain q b w where d: "dt_poll (IsoTp_transport mock_env) (holding [0x49, 2], ?w) = (q, b, w)"
    by (metis prod_cases3)
  have w: "w = ?w"
    using d by (auto simp: IsoTp_transport_def IsoTp_poll_def mock_env_def FakeClock_nowMs_def
        holding_def IsoTp_init_def split: if_splits)
  have c: "isotp_clock mock_env (b, w) = (1000, b, ?w)"
    by (simp add: w isotp_clock_def mock_env_def FakeClock_nowMs_def)
  from obd_poll_deadline [OF _ d c _ p] p show ?thesis by (simp add: obd_waiting_simps)
qed

text \<open>
  C32: One request at a time. While a request is active every further request, over any transport,
  answers \<open>Busy\<close>, changes nothing but the status and does not touch the transport.
\<close>

theorem obd_busy:
  assumes "obd_isRequestActive s"
  shows "requestCurrentData T clk p s t = (ObdBusy, s\<lparr>obs_status := ObdBusy\<rparr>, t) \<and>
    requestSupportedPids T clk p s t = (ObdBusy, s\<lparr>obs_status := ObdBusy\<rparr>, t) \<and>
    requestVin T clk s t = (ObdBusy, s\<lparr>obs_status := ObdBusy\<rparr>, t) \<and>
    requestStoredDtcs T clk s t = (ObdBusy, s\<lparr>obs_status := ObdBusy\<rparr>, t)"
  using assms
  by (simp add: requestCurrentData_def requestSupportedPids_def requestVin_def requestStoredDtcs_def
      obd_beginMode01Request_def obd_beginRequest_def obd_prepareRequest_def obd_setStatus_def)

lemma obd_busy_witness:
  "requestVin (IsoTp_transport mock_env) (isotp_clock mock_env) (obd_waiting ObdVin 2)
     (holding [1], mock_world) =
   (ObdBusy, (obd_waiting ObdVin 2)\<lparr>obs_status := ObdBusy\<rparr>, (holding [1], mock_world))"
  using obd_busy [of "obd_waiting ObdVin 2" "IsoTp_transport mock_env" "isotp_clock mock_env" 0
      "(holding [1], mock_world)"]
  by (simp add: obd_isRequestActive_def obd_waiting_simps)

end
