(* ===== verification/Uds_Service.thy ===== *)
theory Uds_Service
  imports Diagnostic_Contract
begin

text \<open>
  The UDS service (\<open>protocol/uds_service.h\<close>, class \<open>UdsService\<close>): read data by identifier and report
  trouble codes by status mask, with negative responses and a bounded number of response-pending
  answers. Same conventions as for the OBD service.
\<close>

section \<open>State\<close>

datatype UdsServiceStatus =
    UdsIdle
  | UdsInProgress
  | UdsBusy
  | UdsResponseReady
  | UdsResponsePending
  | UdsNegativeResponse
  | UdsPendingLimitExceeded
  | UdsTimeout
  | UdsInvalidResponse
  | UdsUnexpectedResponse
  | UdsPolicyDenied
  | UdsInvalidRequest
  | UdsTransportFailure

record UdsServiceConfig =
  udc_responseTimeoutMs :: u32
  udc_responsePendingTimeoutMs :: u32
  udc_maxPendingResponses :: u8

definition UdsServiceConfig_default :: UdsServiceConfig where
  "UdsServiceConfig_default =
     \<lparr>udc_responseTimeoutMs = 1000, udc_responsePendingTimeoutMs = 1000,
      udc_maxPendingResponses = 3\<rparr>"

record UdsDtcRecord =
  udr_dtc :: bytes
  udr_status :: u8

definition UdsDtcRecord_default :: UdsDtcRecord where
  "UdsDtcRecord_default = \<lparr>udr_dtc = replicate 3 0, udr_status = 0\<rparr>"

datatype UdsState = UdsStateIdle | UdsAwaitingTransmit | UdsAwaitingResponse

datatype UdsRequestKind = ReadDataByIdentifier | ReportDtcByStatusMask

definition kUdsMaxRawDataLength :: nat where "kUdsMaxRawDataLength = 64"
definition kMaxDtcRecords :: nat where "kMaxDtcRecords = (kUdsMaxRawDataLength - 3) div 4"
definition kReadDataByIdentifier :: u8 where "kReadDataByIdentifier = 0x22"
definition kPositiveReadDataByIdentifier :: u8 where "kPositiveReadDataByIdentifier = 0x62"
definition kReadDtcInformation :: u8 where "kReadDtcInformation = 0x19"
definition kPositiveReadDtcInformation :: u8 where "kPositiveReadDtcInformation = 0x59"
definition kReportDtcByStatusMask :: u8 where "kReportDtcByStatusMask = 0x02"
definition kNegativeResponse :: u8 where "kNegativeResponse = 0x7F"
definition kResponsePendingNrc :: u8 where "kResponsePendingNrc = 0x78"

lemmas uds_sizes = kUdsMaxRawDataLength_def kMaxDtcRecords_def
lemmas uds_codes = kReadDataByIdentifier_def kPositiveReadDataByIdentifier_def
  kReadDtcInformation_def kPositiveReadDtcInformation_def kReportDtcByStatusMask_def
  kNegativeResponse_def kResponsePendingNrc_def

record UdsService =
  uds_config :: UdsServiceConfig
  uds_state :: UdsState
  uds_requestKind :: UdsRequestKind
  uds_status :: UdsServiceStatus
  uds_lastTransportStatus :: TransportStatus
  uds_requestedDid :: u16
  uds_lastNrc :: u8
  uds_pendingResponseCount :: u8
  uds_responseDeadlineMs :: u64
  uds_response :: bytes
  uds_rawData :: bytes
  uds_rawDataLength :: nat
  uds_dtcRecords :: "UdsDtcRecord list"
  uds_dtcRecordCount :: nat
  uds_dtcStatusAvailabilityMask :: u8

definition UdsService_init :: "UdsServiceConfig \<Rightarrow> UdsService" where
  "UdsService_init cfg =
     \<lparr>uds_config = cfg, uds_state = UdsStateIdle, uds_requestKind = ReadDataByIdentifier,
      uds_status = UdsIdle, uds_lastTransportStatus = TsIdle, uds_requestedDid = 0,
      uds_lastNrc = 0, uds_pendingResponseCount = 0, uds_responseDeadlineMs = 0,
      uds_response = replicate kUdsMaxRawDataLength 0,
      uds_rawData = replicate kUdsMaxRawDataLength 0, uds_rawDataLength = 0,
      uds_dtcRecords = replicate kMaxDtcRecords UdsDtcRecord_default, uds_dtcRecordCount = 0,
      uds_dtcStatusAvailabilityMask = 0\<rparr>"

section \<open>Helpers\<close>

definition uds_isRequestActive :: "UdsService \<Rightarrow> bool" where
  "uds_isRequestActive s \<longleftrightarrow> uds_state s \<noteq> UdsStateIdle"

definition uds_isNonFailingPollStatus :: "TransportStatus \<Rightarrow> bool" where
  "uds_isNonFailingPollStatus st \<longleftrightarrow> st = TsIdle \<or> st = TsInProgress \<or> st = TsComplete"

definition uds_setStatus ::
    "UdsServiceStatus \<Rightarrow> UdsService \<Rightarrow> 't \<Rightarrow> UdsServiceStatus \<times> UdsService \<times> 't" where
  "uds_setStatus st s t = (st, s\<lparr>uds_status := st\<rparr>, t)"

definition uds_finishWithoutTransport ::
    "UdsServiceStatus \<Rightarrow> UdsService \<Rightarrow> 't \<Rightarrow> UdsServiceStatus \<times> UdsService \<times> 't" where
  "uds_finishWithoutTransport st s t = uds_setStatus st (s\<lparr>uds_state := UdsStateIdle\<rparr>) t"

definition uds_finish ::
    "'t DiagnosticTransport \<Rightarrow> UdsServiceStatus \<Rightarrow> UdsService \<Rightarrow> 't \<Rightarrow>
     UdsServiceStatus \<times> UdsService \<times> 't" where
  "uds_finish T st s t =
     (let t1 = if uds_isRequestActive s then guard_discardPendingMessage T t else t
      in uds_setStatus st (s\<lparr>uds_state := UdsStateIdle\<rparr>) t1)"

definition uds_clearResult :: "UdsService \<Rightarrow> UdsService" where
  "uds_clearResult s =
     s\<lparr>uds_rawDataLength := 0, uds_dtcRecordCount := 0, uds_dtcStatusAvailabilityMask := 0,
       uds_dtcRecords := replicate kMaxDtcRecords UdsDtcRecord_default, uds_lastNrc := 0,
       uds_pendingResponseCount := 0\<rparr>"

definition uds_beginResponseWait :: "'t Clock \<Rightarrow> u32 \<Rightarrow> UdsService \<Rightarrow> 't \<Rightarrow> UdsService \<times> 't" where
  "uds_beginResponseWait clk timeoutMs s t =
     (let (now, t1) = clk t
      in (s\<lparr>uds_state := UdsAwaitingResponse, uds_responseDeadlineMs := now + ucast timeoutMs\<rparr>, t1))"

section \<open>Requests\<close>

definition uds_prepareRequest :: "UdsService \<Rightarrow> bool \<times> UdsService" where
  "uds_prepareRequest s =
     (if uds_isRequestActive s then (False, s\<lparr>uds_status := UdsBusy\<rparr>)
      else if udc_responseTimeoutMs (uds_config s) = 0 \<or>
              udc_responsePendingTimeoutMs (uds_config s) = 0
      then (False, s\<lparr>uds_state := UdsStateIdle, uds_status := UdsInvalidRequest\<rparr>)
      else (True, uds_clearResult s))"

definition startGuardedRequest ::
    "'t DiagnosticTransport \<Rightarrow> 't Clock \<Rightarrow> ReadOnlyResult \<Rightarrow> UdsService \<Rightarrow> 't \<Rightarrow>
     UdsServiceStatus \<times> UdsService \<times> 't" where
  "startGuardedRequest T clk result s t =
     (let s1 = s\<lparr>uds_lastTransportStatus := ror_transportStatus result\<rparr>
      in if ror_status result = PolicyDenied
         then uds_finishWithoutTransport UdsPolicyDenied s1 t
         else if ror_status result = InvalidRequest
         then uds_finishWithoutTransport UdsInvalidRequest s1 t
         else if ror_transportStatus result = TsComplete
         then (let (s2, t1) = uds_beginResponseWait clk (udc_responseTimeoutMs (uds_config s1)) s1 t
               in uds_setStatus UdsInProgress s2 t1)
         else if ror_transportStatus result = TsInProgress
         then uds_setStatus UdsInProgress (s1\<lparr>uds_state := UdsAwaitingTransmit\<rparr>) t
         else uds_finish T UdsTransportFailure s1 t)"

definition requestReadDataByIdentifier ::
    "'t DiagnosticTransport \<Rightarrow> 't Clock \<Rightarrow> u16 \<Rightarrow> UdsService \<Rightarrow> 't \<Rightarrow>
     UdsServiceStatus \<times> UdsService \<times> 't" where
  "requestReadDataByIdentifier T clk did s t =
     (let (go, s1) = uds_prepareRequest s
      in if \<not> go then (uds_status s1, s1, t)
         else
           (let s2 = s1\<lparr>uds_requestKind := ReadDataByIdentifier, uds_requestedDid := did\<rparr>;
                (result, t1) = startUdsReadDataByIdentifier T did t
            in startGuardedRequest T clk result s2 t1))"

definition requestReportDtcByStatusMask ::
    "'t DiagnosticTransport \<Rightarrow> 't Clock \<Rightarrow> u8 \<Rightarrow> UdsService \<Rightarrow> 't \<Rightarrow>
     UdsServiceStatus \<times> UdsService \<times> 't" where
  "requestReportDtcByStatusMask T clk statusMask s t =
     (let (go, s1) = uds_prepareRequest s
      in if \<not> go then (uds_status s1, s1, t)
         else
           (let s2 = s1\<lparr>uds_requestKind := ReportDtcByStatusMask\<rparr>;
                (result, t1) = startUdsReportDtcByStatusMask T statusMask t
            in startGuardedRequest T clk result s2 t1))"

section \<open>Responses\<close>

definition handleNegativeResponse ::
    "'t DiagnosticTransport \<Rightarrow> 't Clock \<Rightarrow> nat \<Rightarrow> UdsService \<Rightarrow> 't \<Rightarrow>
     UdsServiceStatus \<times> UdsService \<times> 't" where
  "handleNegativeResponse T clk responseLength s t =
     (if responseLength \<noteq> 3 then uds_finish T UdsInvalidResponse s t
      else
        (let expectedService = (if uds_requestKind s = ReadDataByIdentifier
                                then kReadDataByIdentifier else kReadDtcInformation)
         in if uds_response s ! 1 \<noteq> expectedService
            then uds_setStatus UdsUnexpectedResponse s t
            else
              (let s1 = s\<lparr>uds_lastNrc := uds_response s ! 2\<rparr>
               in if uds_lastNrc s1 \<noteq> kResponsePendingNrc
                  then uds_finish T UdsNegativeResponse s1 t
                  else if udc_maxPendingResponses (uds_config s1) \<le> uds_pendingResponseCount s1
                  then uds_finish T UdsPendingLimitExceeded s1 t
                  else
                    (let s2 = s1\<lparr>uds_pendingResponseCount := uds_pendingResponseCount s1 + 1\<rparr>;
                         (s3, t1) = uds_beginResponseWait clk
                            (udc_responsePendingTimeoutMs (uds_config s2)) s2 t
                     in uds_setStatus UdsResponsePending s3 t1))))"

definition uds_record :: "bytes \<Rightarrow> nat \<Rightarrow> UdsDtcRecord" where
  "uds_record response offset =
     \<lparr>udr_dtc = [response ! offset, response ! (offset + 1), response ! (offset + 2)],
      udr_status = response ! (offset + 3)\<rparr>"

definition handleDtcResponse ::
    "'t DiagnosticTransport \<Rightarrow> nat \<Rightarrow> UdsService \<Rightarrow> 't \<Rightarrow> UdsServiceStatus \<times> UdsService \<times> 't" where
  "handleDtcResponse T responseLength s t =
     (if uds_response s ! 0 \<noteq> kPositiveReadDtcInformation
      then uds_setStatus UdsUnexpectedResponse s t
      else if responseLength < 2 then uds_finish T UdsInvalidResponse s t
      else if uds_response s ! 1 \<noteq> kReportDtcByStatusMask
      then uds_setStatus UdsUnexpectedResponse s t
      else if responseLength < 3 \<or> (responseLength - 3) mod 4 \<noteq> 0
      then uds_finish T UdsInvalidResponse s t
      else
        (let recordCount = (responseLength - 3) div 4
         in if length (uds_dtcRecords s) < recordCount then uds_finish T UdsInvalidResponse s t
            else
              (let records = fold (\<lambda>index rs. rs[index := uds_record (uds_response s) (3 + 4 * index)])
                     [0..<recordCount] (replicate kMaxDtcRecords UdsDtcRecord_default)
               in uds_finish T UdsResponseReady
                    (s\<lparr>uds_dtcRecords := records, uds_dtcRecordCount := recordCount,
                       uds_dtcStatusAvailabilityMask := uds_response s ! 2\<rparr>) t)))"

definition handleDataResponse ::
    "'t DiagnosticTransport \<Rightarrow> nat \<Rightarrow> UdsService \<Rightarrow> 't \<Rightarrow> UdsServiceStatus \<times> UdsService \<times> 't" where
  "handleDataResponse T responseLength s t =
     (if uds_response s ! 0 \<noteq> kPositiveReadDataByIdentifier
      then uds_setStatus UdsUnexpectedResponse s t
      else if responseLength < 3 then uds_finish T UdsInvalidResponse s t
      else
        (let responseDid = push_bit 8 (ucast (uds_response s ! 1)) OR ucast (uds_response s ! 2)
         in if responseDid \<noteq> uds_requestedDid s then uds_setStatus UdsUnexpectedResponse s t
            else if responseLength = 3 then uds_finish T UdsInvalidResponse s t
            else
              (let s1 = s\<lparr>uds_rawDataLength := responseLength - 3\<rparr>
               in if length (uds_rawData s1) < uds_rawDataLength s1
                  then uds_finish T UdsInvalidResponse s1 t
                  else uds_finish T UdsResponseReady
                    (s1\<lparr>uds_rawData := blit (uds_rawData s1) 0
                         (take (uds_rawDataLength s1) (drop 3 (uds_response s1)))\<rparr>) t)))"

definition uds_handleResponse ::
    "'t DiagnosticTransport \<Rightarrow> 't Clock \<Rightarrow> nat \<Rightarrow> UdsService \<Rightarrow> 't \<Rightarrow>
     UdsServiceStatus \<times> UdsService \<times> 't" where
  "uds_handleResponse T clk responseLength s t =
     (if length (uds_response s) < responseLength then uds_finish T UdsInvalidResponse s t
      else if responseLength = 0 then
        (if uds_requestKind s = ReportDtcByStatusMask then uds_finish T UdsInvalidResponse s t
         else uds_setStatus UdsUnexpectedResponse s t)
      else if uds_response s ! 0 = kNegativeResponse
      then handleNegativeResponse T clk responseLength s t
      else if uds_requestKind s = ReportDtcByStatusMask then handleDtcResponse T responseLength s t
      else handleDataResponse T responseLength s t)"

definition uds_pollResponse ::
    "'t DiagnosticTransport \<Rightarrow> 't Clock \<Rightarrow> UdsService \<Rightarrow> 't \<Rightarrow>
     UdsServiceStatus \<times> UdsService \<times> 't" where
  "uds_pollResponse T clk s t =
     (let (now, t1) = clk t
      in if uds_responseDeadlineMs s \<le> now then uds_finish T UdsTimeout s t1
         else
           (case guard_receive T (Some (uds_response s)) (length (uds_response s)) t1 of
              (receiveStatus, responseLength, buffer, t2) \<Rightarrow>
                (let s1 = s\<lparr>uds_response := (case buffer of Some b \<Rightarrow> b | None \<Rightarrow> uds_response s),
                            uds_lastTransportStatus := receiveStatus\<rparr>
                 in if receiveStatus = TsNoData then uds_setStatus UdsInProgress s1 t2
                    else if receiveStatus \<noteq> TsComplete
                    then uds_finish T UdsTransportFailure s1 t2
                    else uds_handleResponse T clk responseLength s1 t2)))"

definition uds_poll ::
    "'t DiagnosticTransport \<Rightarrow> 't Clock \<Rightarrow> UdsService \<Rightarrow> 't \<Rightarrow>
     UdsServiceStatus \<times> UdsService \<times> 't" where
  "uds_poll T clk s t =
     (if uds_state s = UdsStateIdle then (UdsIdle, s, t)
      else
        (let (pollStatus, t1) = guard_poll T t;
             s1 = s\<lparr>uds_lastTransportStatus := pollStatus\<rparr>
         in if uds_state s1 = UdsAwaitingTransmit then
              (if pollStatus = TsInProgress then uds_setStatus UdsInProgress s1 t1
               else if pollStatus = TsComplete then
                 (let (s2, t2) = uds_beginResponseWait clk
                        (udc_responseTimeoutMs (uds_config s1)) s1 t1
                  in uds_setStatus UdsInProgress s2 t2)
               else uds_finish T UdsTransportFailure s1 t1)
            else if \<not> uds_isNonFailingPollStatus pollStatus
            then uds_finish T UdsTransportFailure s1 t1
            else uds_pollResponse T clk s1 t1))"

end
