(* ===== verification/Uds_Properties.thy ===== *)
theory Uds_Properties
  imports Uds_Service
begin

text \<open>
  The UDS service against its specification: the verdict \<open>uds_judge\<close> on a response message, and the
  proof that the handlers compute it, negative responses and response-pending answers included.
\<close>

section \<open>What a response means\<close>

datatype uds_reply =
    UReplyData bytes
  | UReplyDtcs u8 "(bytes \<times> u8) list"

datatype uds_verdict =
    UdsVUnexpected
  | UdsVInvalid
  | UdsVNegative u8
  | UdsVPending
  | UdsVPendingLimit
  | UdsVReply uds_reply

fun quads :: "bytes \<Rightarrow> (bytes \<times> u8) list" where
  "quads (a # b # c # d # r) = ([a, b, c], d) # quads r"
| "quads _ = []"

fun uds_service :: "UdsRequestKind \<Rightarrow> u8" where
  "uds_service ReadDataByIdentifier = 0x22"
| "uds_service ReportDtcByStatusMask = 0x19"

text \<open>\<open>again\<close>: another response-pending answer is allowed.\<close>

definition judge_negative :: "UdsRequestKind \<Rightarrow> bool \<Rightarrow> bytes \<Rightarrow> uds_verdict" where
  "judge_negative kind again d =
     (case d of
        [svc, nrc] \<Rightarrow>
          if svc \<noteq> uds_service kind then UdsVUnexpected
          else if nrc \<noteq> 0x78 then UdsVNegative nrc
          else if again then UdsVPending
          else UdsVPendingLimit
      | _ \<Rightarrow> UdsVInvalid)"

definition judge_dtc_report :: "bytes \<Rightarrow> uds_verdict" where
  "judge_dtc_report d =
     (case d of
        [] \<Rightarrow> UdsVInvalid
      | sub # e \<Rightarrow>
          if sub \<noteq> 2 then UdsVUnexpected
          else (case e of
                  [] \<Rightarrow> UdsVInvalid
                | avail # recs \<Rightarrow>
                    if length recs mod 4 \<noteq> 0 then UdsVInvalid
                    else UdsVReply (UReplyDtcs avail (quads recs))))"

definition judge_data :: "u16 \<Rightarrow> bytes \<Rightarrow> uds_verdict" where
  "judge_data did d =
     (case d of
        hi # lo # b \<Rightarrow>
          if be_value [hi, lo] \<noteq> did then UdsVUnexpected
          else if b = [] then UdsVInvalid
          else UdsVReply (UReplyData b)
      | _ \<Rightarrow> UdsVInvalid)"

definition uds_judge :: "UdsRequestKind \<Rightarrow> u16 \<Rightarrow> bool \<Rightarrow> bytes \<Rightarrow> uds_verdict" where
  "uds_judge kind did again m =
     (case m of
        [] \<Rightarrow> if kind = ReportDtcByStatusMask then UdsVInvalid else UdsVUnexpected
      | c # d \<Rightarrow>
          if c = 0x7F then judge_negative kind again d
          else if kind = ReportDtcByStatusMask
          then (if c = 0x59 then judge_dtc_report d else UdsVUnexpected)
          else (if c = 0x62 then judge_data did d else UdsVUnexpected))"

fun uds_verdict_status :: "uds_verdict \<Rightarrow> UdsServiceStatus" where
  "uds_verdict_status UdsVUnexpected = UdsUnexpectedResponse"
| "uds_verdict_status UdsVInvalid = UdsInvalidResponse"
| "uds_verdict_status (UdsVNegative n) = UdsNegativeResponse"
| "uds_verdict_status UdsVPending = UdsResponsePending"
| "uds_verdict_status UdsVPendingLimit = UdsPendingLimitExceeded"
| "uds_verdict_status (UdsVReply r) = UdsResponseReady"

fun uds_result :: "UdsRequestKind \<Rightarrow> UdsService \<Rightarrow> uds_reply" where
  "uds_result ReadDataByIdentifier s = UReplyData (take (uds_rawDataLength s) (uds_rawData s))"
| "uds_result ReportDtcByStatusMask s = UReplyDtcs (uds_dtcStatusAvailabilityMask s)
     (map (\<lambda>r. (udr_dtc r, udr_status r)) (take (uds_dtcRecordCount s) (uds_dtcRecords s)))"

definition uds_published :: "UdsService \<Rightarrow> nat \<times> bytes \<times> UdsDtcRecord list \<times> nat \<times> u8" where
  "uds_published s = (uds_rawDataLength s, uds_rawData s, uds_dtcRecords s, uds_dtcRecordCount s,
     uds_dtcStatusAvailabilityMask s)"

definition uds_arrays :: "UdsService \<Rightarrow> bool" where
  "uds_arrays s \<longleftrightarrow>
     length (uds_response s) = 64 \<and> length (uds_rawData s) = 64 \<and> uds_rawDataLength s \<le> 61 \<and>
     length (uds_dtcRecords s) = 15 \<and> uds_dtcRecordCount s \<le> 15"

fun uds_verdict_nrc :: "uds_verdict \<Rightarrow> u8 option" where
  "uds_verdict_nrc (UdsVNegative n) = Some n"
| "uds_verdict_nrc UdsVPending = Some 0x78"
| "uds_verdict_nrc UdsVPendingLimit = Some 0x78"
| "uds_verdict_nrc _ = None"

definition more_pending :: "UdsService \<Rightarrow> bool" where
  "more_pending s \<longleftrightarrow> uds_pendingResponseCount s < udc_maxPendingResponses (uds_config s)"

text \<open>
  What a handled response leaves behind. Only a well-formed answer changes the published data; a
  response-pending answer counts and moves the deadline; all but the unexpected and the pending
  ones end the request.
\<close>

definition uds_handled ::
    "uds_verdict \<Rightarrow> u64 \<Rightarrow> UdsService \<Rightarrow> UdsServiceStatus \<times> UdsService \<times> 't \<Rightarrow> bool" where
  "uds_handled v now s out \<longleftrightarrow>
     (case out of (st, s1, t1) \<Rightarrow>
        st = uds_verdict_status v \<and> uds_status s1 = st \<and> uds_arrays s1 \<and>
        uds_config s1 = uds_config s \<and> uds_requestKind s1 = uds_requestKind s \<and>
        uds_requestedDid s1 = uds_requestedDid s \<and>
        uds_state s1 = (if v = UdsVUnexpected \<or> v = UdsVPending then uds_state s else UdsStateIdle) \<and>
        uds_pendingResponseCount s1 =
          (if v = UdsVPending then uds_pendingResponseCount s + 1 else uds_pendingResponseCount s) \<and>
        uds_responseDeadlineMs s1 =
          (if v = UdsVPending then now + ucast (udc_responsePendingTimeoutMs (uds_config s))
           else uds_responseDeadlineMs s) \<and>
        uds_lastNrc s1 = (case uds_verdict_nrc v of Some n \<Rightarrow> n | None \<Rightarrow> uds_lastNrc s) \<and>
        (case v of
           UdsVReply r \<Rightarrow> uds_result (uds_requestKind s) s1 = r
         | _ \<Rightarrow> uds_published s1 = uds_published s))"

section \<open>The handlers compute the verdict\<close>

lemma uds_finish_simps:
  "uds_finish T st s t =
     (st, s\<lparr>uds_state := UdsStateIdle, uds_status := st\<rparr>,
      if uds_state s = UdsStateIdle then t else guard_discardPendingMessage T t)"
  by (simp add: uds_finish_def uds_setStatus_def uds_isRequestActive_def)

lemmas uds_small_defs = uds_setStatus_def uds_finishWithoutTransport_def uds_finish_simps
  uds_beginResponseWait_def

lemma uds_handled_unexpected:
  "uds_arrays s \<Longrightarrow> uds_handled UdsVUnexpected now s (uds_setStatus UdsUnexpectedResponse s t)"
  by (simp add: uds_handled_def uds_setStatus_def uds_arrays_def uds_published_def)

lemma uds_handled_invalid:
  "uds_arrays s \<Longrightarrow> uds_handled UdsVInvalid now s (uds_finish T UdsInvalidResponse s t)"
  by (simp add: uds_handled_def uds_finish_simps uds_arrays_def uds_published_def)

lemma uds_handled_nrc:
  "uds_arrays s \<Longrightarrow>
     uds_handled (UdsVNegative n) now s (uds_finish T UdsNegativeResponse (s\<lparr>uds_lastNrc := n\<rparr>) t)"
  "uds_arrays s \<Longrightarrow>
     uds_handled UdsVPendingLimit now s
       (uds_finish T UdsPendingLimitExceeded (s\<lparr>uds_lastNrc := 0x78\<rparr>) t)"
  by (simp_all add: uds_handled_def uds_finish_simps uds_arrays_def uds_published_def)

lemma length_3_cases:
  assumes "length m = (3 :: nat)" obtains a b c where "m = [a, b, c]"
  using assms by (auto simp: numeral_3_eq_3 length_Suc_conv)

lemma handleNegativeResponse_spec:
  assumes "uds_arrays s" and "uds_state s = UdsAwaitingResponse" and "0 < n" and "n \<le> 64"
    and "uds_response s ! 0 = 0x7F" and "clk t = (now, u)"
  shows "uds_handled (judge_negative (uds_requestKind s) (more_pending s)
      (drop 1 (take n (uds_response s)))) now s (handleNegativeResponse T clk n s t)"
proof (cases "n = 3")
  case False
  have "length (drop 1 (take n (uds_response s))) \<noteq> 2"
    using assms(1,3,4) False by (auto simp: uds_arrays_def)
  then have "judge_negative (uds_requestKind s) (more_pending s) (drop 1 (take n (uds_response s))) =
      UdsVInvalid"
    by (auto simp: judge_negative_def simp del: length_drop length_take split: list.split)
  with uds_handled_invalid [OF assms(1)] False show ?thesis by (simp add: handleNegativeResponse_def)
next
  case True
  let ?r = "uds_response s"
  have "length (take 3 ?r) = 3" using assms(1) by (simp add: uds_arrays_def)
  then obtain a b c where e: "take 3 ?r = [a, b, c]" by (rule length_3_cases)
  then have nth: "?r ! 1 = b" "?r ! 2 = c"
    using nth_take [of 1 3 ?r] nth_take [of 2 3 ?r] by simp_all
  have svc: "(if uds_requestKind s = ReadDataByIdentifier then kReadDataByIdentifier
      else kReadDtcInformation) = uds_service (uds_requestKind s)"
    by (cases "uds_requestKind s") (simp_all add: uds_codes)
  consider "b \<noteq> uds_service (uds_requestKind s)" | "b = uds_service (uds_requestKind s)" "c \<noteq> 0x78"
    | "b = uds_service (uds_requestKind s)" "c = 0x78" "\<not> more_pending s"
    | (pending) "b = uds_service (uds_requestKind s)" "c = 0x78" "more_pending s" by blast
  then show ?thesis
  proof cases
    case pending
    let ?s = "s\<lparr>uds_lastNrc := 0x78, uds_pendingResponseCount := uds_pendingResponseCount s + 1,
        uds_state := UdsAwaitingResponse,
        uds_responseDeadlineMs := now + ucast (udc_responsePendingTimeoutMs (uds_config s)),
        uds_status := UdsResponsePending\<rparr>"
    have "handleNegativeResponse T clk n s t = (UdsResponsePending, ?s, u)"
      using pending True nth svc assms(6)
      by (simp add: handleNegativeResponse_def uds_setStatus_def uds_beginResponseWait_def Let_def
          more_pending_def kResponsePendingNrc_def not_less [symmetric])
    then show ?thesis
      using pending True e assms(1,2)
      by (simp add: judge_negative_def uds_handled_def uds_arrays_def uds_published_def)
  qed (use True e nth svc uds_handled_unexpected [OF assms(1)] uds_handled_nrc [OF assms(1)] in
      \<open>auto simp: handleNegativeResponse_def Let_def judge_negative_def more_pending_def
         kResponsePendingNrc_def dest: leD\<close>)
qed

lemma length_quads: "length (quads xs) = length xs div 4"
  by (induction xs rule: quads.induct) simp_all

lemma nth_quads:
  "i < length xs div 4 \<Longrightarrow>
     quads xs ! i = ([xs ! (4 * i), xs ! (4 * i + 1), xs ! (4 * i + 2)], xs ! (4 * i + 3))"
proof (induction xs arbitrary: i rule: quads.induct)
  case (1 a b c d r)
  show ?case
  proof (cases i)
    case (Suc j)
    with 1 show ?thesis by (simp add: add.commute)
  qed simp
qed simp_all

lemma handleDtcResponse_spec:
  assumes "uds_arrays s" and "uds_requestKind s = ReportDtcByStatusMask"
    and "0 < n" and "n \<le> 64"
  shows "uds_handled
      (if uds_response s ! 0 = 0x59 then judge_dtc_report (drop 1 (take n (uds_response s)))
       else UdsVUnexpected) now s (handleDtcResponse T n s t)"
proof -
  let ?r = "uds_response s" and ?d = "drop 1 (take n (uds_response s))"
  have len: "length ?r = 64" "length ?d = n - 1" using assms by (simp_all add: uds_arrays_def)
  note bad = uds_handled_unexpected [OF assms(1)] uds_handled_invalid [OF assms(1)]
  consider "?r ! 0 \<noteq> 0x59" | "?r ! 0 = 0x59" "n = 1" | (two) "?r ! 0 = 0x59" "2 \<le> n"
    using assms(3) by linarith
  then show ?thesis
  proof cases
    case 2
    then have "?d = []" by simp
    with 2 bad show ?thesis
      by (simp add: handleDtcResponse_def judge_dtc_report_def uds_codes)
  next
    case two
    have e: "?d = ?r ! 1 # drop 2 (take n ?r)"
    proof -
      have "drop 1 (take n ?r) = take n ?r ! 1 # drop (Suc 1) (take n ?r)"
        by (rule Cons_nth_drop_Suc [symmetric]) (use two len assms(4) in simp)
      with two len show ?thesis by (simp add: numeral_2_eq_2)
    qed
    consider "?r ! 1 \<noteq> 2" | "?r ! 1 = 2" "n = 2" | (three) "?r ! 1 = 2" "3 \<le> n"
      using two by linarith
    then show ?thesis
    proof cases
      case 1
      with two bad e show ?thesis by (simp add: handleDtcResponse_def judge_dtc_report_def uds_codes)
    next
      case 2
      then have "drop 2 (take n ?r) = []" by simp
      with two 2 bad e show ?thesis
        by (simp add: handleDtcResponse_def judge_dtc_report_def uds_codes)
    next
      case three
      let ?q = "drop 3 (take n ?r)"
      have e2: "drop 2 (take n ?r) = ?r ! 2 # ?q"
      proof -
        have "drop 2 (take n ?r) = take n ?r ! 2 # drop (Suc 2) (take n ?r)"
          by (rule Cons_nth_drop_Suc [symmetric]) (use three len assms(4) in simp)
        with three len show ?thesis by (simp add: numeral_3_eq_3 numeral_2_eq_2)
      qed
      have lq: "length ?q = n - 3" using len assms(4) by simp
      have judge: "judge_dtc_report ?d = (if (n - 3) mod 4 \<noteq> 0 then UdsVInvalid
          else UdsVReply (UReplyDtcs (?r ! 2) (quads ?q)))"
        using three lq by (simp only: e e2 judge_dtc_report_def) simp
      show ?thesis
      proof (cases "(n - 3) mod 4 = 0")
        case False
        with two three bad judge show ?thesis by (simp add: handleDtcResponse_def uds_codes)
      next
        case True
        let ?k = "(n - 3) div 4"
        let ?f = "\<lambda>i. uds_record ?r (3 + 4 * i)"
        let ?t = "map ?f [0..<?k] @ drop ?k (replicate 15 UdsDtcRecord_default)"
        have k: "?k \<le> 15" "4 * ?k = n - 3" using True assms(4) by (simp, presburger)
        have fold: "fold (\<lambda>i rs. rs[i := ?f i]) [0..<?k] (replicate kMaxDtcRecords UdsDtcRecord_default) = ?t"
          using fold_update_upt [of ?k "replicate 15 UdsDtcRecord_default" ?f] k
          by (simp add: uds_sizes)
        have code: "handleDtcResponse T n s t = uds_finish T UdsResponseReady
            (s\<lparr>uds_dtcRecords := ?t, uds_dtcRecordCount := ?k,
               uds_dtcStatusAvailabilityMask := ?r ! 2\<rparr>) t"
          unfolding fold [symmetric]
          using two three True assms(1) k(1)
          by (simp add: handleDtcResponse_def uds_codes uds_arrays_def Let_def)
        have q: "map (\<lambda>x. (udr_dtc x, udr_status x)) (take ?k ?t) = quads ?q"
        proof (rule nth_equalityI)
          fix i assume "i < length (map (\<lambda>x. (udr_dtc x, udr_status x)) (take ?k ?t))"
          then have i: "i < ?k" by simp
          then have "4 * i + 3 < n - 3" using k(2) by linarith
          with i show "map (\<lambda>x. (udr_dtc x, udr_status x)) (take ?k ?t) ! i = quads ?q ! i"
            using nth_quads [of i ?q] lq k len assms(4)
            by (simp add: uds_record_def ac_simps)
        qed (use lq k in \<open>simp add: length_quads\<close>)
        have lt: "length ?t = 15" using k by simp
        obtain ts where ts: "ts = ?t" by blast
        show ?thesis
          using True two assms(1,2) k(1) q lt
          unfolding judge code ts [symmetric]
          by (simp add: uds_handled_def uds_finish_simps uds_arrays_def)
      qed
    qed
  qed (use bad in \<open>simp add: handleDtcResponse_def uds_codes\<close>)
qed

lemma be_value_2: "(be_value [a, b] :: u16) = push_bit 8 (ucast a) OR ucast b"
  by (simp add: be_value_def)

lemma handleDataResponse_spec:
  assumes "uds_arrays s" and "uds_requestKind s = ReadDataByIdentifier"
    and "0 < n" and "n \<le> 64"
  shows "uds_handled
      (if uds_response s ! 0 = 0x62
       then judge_data (uds_requestedDid s) (drop 1 (take n (uds_response s)))
       else UdsVUnexpected) now s (handleDataResponse T n s t)"
proof -
  let ?r = "uds_response s" and ?d = "drop 1 (take n (uds_response s))"
  have len: "length ?r = 64" "length ?d = n - 1" using assms by (simp_all add: uds_arrays_def)
  note bad = uds_handled_unexpected [OF assms(1)] uds_handled_invalid [OF assms(1)]
  consider (service) "?r ! 0 \<noteq> 0x62" | (short) "?r ! 0 = 0x62" "n < 3"
    | (three) "?r ! 0 = 0x62" "3 \<le> n" by linarith
  then show ?thesis
  proof cases
    case short
    have "judge_data (uds_requestedDid s) ?d = UdsVInvalid"
    proof (cases ?d)
      case (Cons a e)
      then have "e = []" using len(2) short by (cases e) auto
      with Cons show ?thesis by (simp add: judge_data_def)
    qed (simp add: judge_data_def)
    with short bad show ?thesis by (simp add: handleDataResponse_def uds_codes)
  next
    case three
    let ?q = "drop 3 (take n ?r)"
    have e: "?d = ?r ! 1 # ?r ! 2 # ?q"
    proof -
      have "drop 1 (take n ?r) = take n ?r ! 1 # drop (Suc 1) (take n ?r)"
        by (rule Cons_nth_drop_Suc [symmetric]) (use three len assms(4) in simp)
      moreover have "drop 2 (take n ?r) = take n ?r ! 2 # drop (Suc 2) (take n ?r)"
        by (rule Cons_nth_drop_Suc [symmetric]) (use three len assms(4) in simp)
      ultimately show ?thesis using three by (simp add: numeral_3_eq_3 numeral_2_eq_2)
    qed
    have judge: "judge_data (uds_requestedDid s) ?d =
        (if be_value [?r ! 1, ?r ! 2] \<noteq> uds_requestedDid s then UdsVUnexpected
         else if n = 3 then UdsVInvalid else UdsVReply (UReplyData ?q))"
    proof -
      have "?q = [] \<longleftrightarrow> n = 3" using three len assms(4) by auto
      then show ?thesis by (simp only: e judge_data_def list.case)
    qed
    show ?thesis
    proof (cases "be_value [?r ! 1, ?r ! 2] \<noteq> uds_requestedDid s \<or> n = 3")
      case True
      with three bad judge show ?thesis
        by (auto simp: handleDataResponse_def uds_codes be_value_2)
    next
      case False
      have lq: "length ?q = n - 3" using len assms(4) by simp
      obtain q where q: "q = ?q" by blast
      let ?b = "blit (uds_rawData s) 0 q"
      have b: "length ?b = 64" "take (n - 3) ?b = q"
        using lq assms(1,4) q by (simp_all add: uds_arrays_def blit_def)
      have big: "\<not> n < 3" "\<not> 64 < n - 3" "length (uds_rawData s) = 64" "n - 3 \<le> 61"
        using three assms(1,4) by (auto simp: uds_arrays_def)
      have code: "handleDataResponse T n s t = uds_finish T UdsResponseReady
          (s\<lparr>uds_rawDataLength := n - 3, uds_rawData := ?b\<rparr>) t"
        using False three big q
        by (simp add: handleDataResponse_def uds_codes be_value_2 Let_def drop_take)
      show ?thesis
        using False three assms(1,2) b big unfolding judge code q [symmetric]
        by (simp add: uds_handled_def uds_finish_simps uds_arrays_def)
    qed
  qed (use bad in \<open>simp add: handleDataResponse_def uds_codes\<close>)
qed

lemma uds_handleResponse_spec:
  assumes "uds_arrays s" and "uds_state s = UdsAwaitingResponse" and "n \<le> 64" and "clk t = (now, u)"
  shows "uds_handled (uds_judge (uds_requestKind s) (uds_requestedDid s) (more_pending s)
      (take n (uds_response s))) now s (uds_handleResponse T clk n s t)"
proof (cases "n = 0")
  case True
  with uds_handled_unexpected [OF assms(1), of now t] uds_handled_invalid [OF assms(1), of now T t]
  show ?thesis by (simp add: uds_judge_def uds_handleResponse_def)
next
  case False
  let ?r = "uds_response s"
  have len: "length ?r = 64" using assms(1) by (simp add: uds_arrays_def)
  have e: "take n ?r = ?r ! 0 # drop 1 (take n ?r)"
    using Cons_nth_drop_Suc [of 0 "take n ?r"] False len by simp
  have judge: "uds_judge k did b (take n ?r) =
      (if ?r ! 0 = 0x7F then judge_negative k b (drop 1 (take n ?r))
       else if k = ReportDtcByStatusMask
       then (if ?r ! 0 = 0x59 then judge_dtc_report (drop 1 (take n ?r)) else UdsVUnexpected)
       else (if ?r ! 0 = 0x62 then judge_data did (drop 1 (take n ?r)) else UdsVUnexpected))"
    for k did b by (subst e) (simp only: uds_judge_def list.case)
  have n: "\<not> length ?r < n" "0 < n" using assms(3) len False by simp_all
  show ?thesis
  proof (cases "?r ! 0 = 0x7F")
    case True
    with handleNegativeResponse_spec
      [where clk = clk and t = t and now = now and u = u, OF assms(1,2) n(2) assms(3) True assms(4)] n False judge
    show ?thesis by (simp add: uds_handleResponse_def kNegativeResponse_def)
  next
    case other: False
    show ?thesis
    proof (cases "uds_requestKind s")
      case ReadDataByIdentifier
      with handleDataResponse_spec [OF assms(1) _ n(2) assms(3), of now T t] n False judge other show ?thesis
        by (simp add: uds_handleResponse_def kNegativeResponse_def)
    next
      case ReportDtcByStatusMask
      with handleDtcResponse_spec [OF assms(1) _ n(2) assms(3), of now T t] n False judge other show ?thesis
        by (simp add: uds_handleResponse_def kNegativeResponse_def)
    qed
  qed
qed

end
