(* ===== verification/Uds_Runs.thy ===== *)
theory Uds_Runs
  imports Uds_Properties
begin

text \<open>
  Runs of the UDS service over a transport and a clock: its invariant, the end of every request,
  when results are published, and the bound on response-pending answers.
\<close>

section \<open>The invariant\<close>

definition uds_inv :: "UdsService \<Rightarrow> bool" where
  "uds_inv s \<longleftrightarrow>
     uds_arrays s \<and>
     (uds_state s \<noteq> UdsStateIdle \<longrightarrow>
        udc_responseTimeoutMs (uds_config s) \<noteq> 0 \<and>
        udc_responsePendingTimeoutMs (uds_config s) \<noteq> 0 \<and>
        uds_pendingResponseCount s \<le> udc_maxPendingResponses (uds_config s))"

lemma uds_inv_init: "uds_inv (UdsService_init cfg)"
  by (simp add: uds_inv_def uds_arrays_def UdsService_init_def uds_sizes)

datatype 'o uds_event =
    UReadDid u16
  | UReportDtc u8
  | UPoll
  | UOutside 'o

fun uds_step ::
    "'t DiagnosticTransport \<Rightarrow> 't Clock \<Rightarrow> ('o \<Rightarrow> 't \<Rightarrow> 't) \<Rightarrow> 'o uds_event \<Rightarrow>
     UdsService \<times> 't \<Rightarrow> UdsServiceStatus option \<times> UdsService \<times> 't" where
  "uds_step T clk out (UReadDid d) (s, t) =
     (case requestReadDataByIdentifier T clk d s t of (st, x) \<Rightarrow> (Some st, x))"
| "uds_step T clk out (UReportDtc m) (s, t) =
     (case requestReportDtcByStatusMask T clk m s t of (st, x) \<Rightarrow> (Some st, x))"
| "uds_step T clk out UPoll (s, t) = (case uds_poll T clk s t of (st, x) \<Rightarrow> (Some st, x))"
| "uds_step T clk out (UOutside e) (s, t) = (None, s, out e t)"

text \<open>A run and the statuses its calls returned.\<close>

fun uds_run ::
    "'t DiagnosticTransport \<Rightarrow> 't Clock \<Rightarrow> ('o \<Rightarrow> 't \<Rightarrow> 't) \<Rightarrow> 'o uds_event list \<Rightarrow>
     UdsService \<times> 't \<Rightarrow> UdsServiceStatus option list \<times> UdsService \<times> 't" where
  "uds_run T clk out [] x = ([], x)"
| "uds_run T clk out (e # es) x =
     (case uds_step T clk out e x of (st, y) \<Rightarrow>
        (case uds_run T clk out es y of (sts, z) \<Rightarrow> (st # sts, z)))"

fun is_request :: "'o uds_event \<Rightarrow> bool" where
  "is_request (UReadDid d) = True"
| "is_request (UReportDtc m) = True"
| "is_request _ = False"

section \<open>Small steps\<close>

lemma uds_arrays_updates [simp]:
  "uds_arrays (s\<lparr>uds_status := a\<rparr>) = uds_arrays s"
  "uds_arrays (s\<lparr>uds_state := b\<rparr>) = uds_arrays s"
  "uds_arrays (s\<lparr>uds_requestKind := c\<rparr>) = uds_arrays s"
  "uds_arrays (s\<lparr>uds_lastTransportStatus := d\<rparr>) = uds_arrays s"
  "uds_arrays (s\<lparr>uds_requestedDid := e\<rparr>) = uds_arrays s"
  "uds_arrays (s\<lparr>uds_responseDeadlineMs := f\<rparr>) = uds_arrays s"
  "uds_arrays s \<Longrightarrow> length r = 64 \<Longrightarrow> uds_arrays (s\<lparr>uds_response := r\<rparr>)"
  "uds_arrays s \<Longrightarrow> uds_arrays (uds_clearResult s)"
  by (simp_all add: uds_arrays_def uds_clearResult_def uds_sizes)

lemma uds_published_updates [simp]:
  "uds_published (s\<lparr>uds_status := a\<rparr>) = uds_published s"
  "uds_published (s\<lparr>uds_state := b\<rparr>) = uds_published s"
  "uds_published (s\<lparr>uds_lastTransportStatus := d\<rparr>) = uds_published s"
  "uds_published (s\<lparr>uds_responseDeadlineMs := f\<rparr>) = uds_published s"
  "uds_published (s\<lparr>uds_response := r\<rparr>) = uds_published s"
  by (simp_all add: uds_published_def)

lemma uds_clearResult_simps [simp]:
  "uds_state (uds_clearResult s) = uds_state s" "uds_config (uds_clearResult s) = uds_config s"
  "uds_pendingResponseCount (uds_clearResult s) = 0"
  by (simp_all add: uds_clearResult_def)

text \<open>
  A poll of an active request: the invariant holds, the request ends exactly with the six final
  statuses, a result is published only with \<open>ResponseReady\<close>, and only \<open>ResponsePending\<close> counts, while
  the limit is not reached.
\<close>

definition uds_polled :: "UdsService \<Rightarrow> UdsServiceStatus \<Rightarrow> UdsService \<Rightarrow> bool" where
  "uds_polled s st s1 \<longleftrightarrow>
     uds_inv s1 \<and> uds_config s1 = uds_config s \<and>
     (uds_state s1 = UdsStateIdle \<longleftrightarrow>
        st \<in> {UdsResponseReady, UdsNegativeResponse, UdsPendingLimitExceeded, UdsInvalidResponse,
               UdsTimeout, UdsTransportFailure}) \<and>
     (st \<noteq> UdsResponseReady \<longrightarrow> uds_published s1 = uds_published s) \<and>
     (if st = UdsResponsePending
      then more_pending s \<and> uds_pendingResponseCount s1 = uds_pendingResponseCount s + 1
      else uds_pendingResponseCount s1 = uds_pendingResponseCount s)"

lemma uds_handleResponse_transport:
  assumes "uds_state s \<noteq> UdsStateIdle" and "uds_handleResponse T clk n s t = (st, s1, t1)"
  shows "t1 = (if uds_state s1 = UdsStateIdle then dt_discardPendingMessage T t
    else if st = UdsResponsePending then snd (clk t) else t)"
proof -
  consider "handleNegativeResponse T clk n s t = (st, s1, t1)" | "handleDtcResponse T n s t = (st, s1, t1)"
    | "handleDataResponse T n s t = (st, s1, t1)"
    | "uds_finish T UdsInvalidResponse s t = (st, s1, t1)"
    | "uds_setStatus UdsUnexpectedResponse s t = (st, s1, t1)"
    using assms(2) by (auto simp: uds_handleResponse_def split: if_splits)
  then show ?thesis
  proof cases
    case 1
    with assms(1) show ?thesis
      by (auto simp: handleNegativeResponse_def uds_small_defs guard_discardPendingMessage_def
          Let_def split: if_splits prod.splits)
  next
    case 2
    with assms(1) show ?thesis
      by (auto simp: handleDtcResponse_def uds_small_defs guard_discardPendingMessage_def Let_def
          split: if_splits)
  next
    case 3
    with assms(1) show ?thesis
      by (auto simp: handleDataResponse_def uds_small_defs guard_discardPendingMessage_def Let_def
          split: if_splits)
  qed (use assms(1) in \<open>auto simp: uds_small_defs guard_discardPendingMessage_def\<close>)
qed

lemma uds_pending_below:
  "more_pending s \<Longrightarrow> uds_pendingResponseCount s + 1 \<le> udc_maxPendingResponses (uds_config s)"
  unfolding more_pending_def by (rule inc_le)

lemma uds_handled_polled:
  assumes "uds_handled (uds_judge k d (more_pending s) m) now s (st, s1, t1)" and "uds_inv s"
    and "uds_state s = UdsAwaitingResponse"
  shows "uds_polled s st s1"
proof -
  let ?v = "uds_judge k d (more_pending s) m"
  have pend: "?v = UdsVPending \<Longrightarrow> more_pending s"
    by (auto simp: uds_judge_def judge_negative_def judge_dtc_report_def judge_data_def
        split: list.splits if_splits)
  show ?thesis
    using assms pend uds_pending_below [of s]
    by (cases ?v) (auto simp: uds_handled_def uds_polled_def uds_inv_def)
qed

lemma uds_polled_input:
  "uds_polled (s\<lparr>uds_response := r, uds_lastTransportStatus := p\<rparr>) st s1 = uds_polled s st s1"
  "uds_polled (s\<lparr>uds_lastTransportStatus := p\<rparr>) st s1 = uds_polled s st s1"
  by (cases "st = UdsResponsePending"; simp add: uds_polled_def more_pending_def)+

context timed_transport
begin

lemma startGuardedRequest_inv:
  assumes "uds_inv s" and "uds_state s = UdsStateIdle" and "uds_pendingResponseCount s = 0"
    and "udc_responseTimeoutMs (uds_config s) \<noteq> 0" and "udc_responsePendingTimeoutMs (uds_config s) \<noteq> 0"
    and "ok t" and "startGuardedRequest T clk r s t = (st, s1, t1)"
  shows "uds_inv s1 \<and> ok t1"
proof -
  obtain now u where c: "clk t = (now, u)" by fastforce
  then have "ok u" using clock_ok [OF assms(6)] by simp
  with assms c show ?thesis
    by (auto simp: startGuardedRequest_def uds_small_defs uds_inv_def Let_def split: if_splits)
qed

lemma uds_request_inv:
  assumes "uds_inv s" and "ok t"
  shows "requestReadDataByIdentifier T clk d s t = (st, s1, t1) \<Longrightarrow> uds_inv s1 \<and> ok t1"
    and "requestReportDtcByStatusMask T clk m s t = (st, s1, t1) \<Longrightarrow> uds_inv s1 \<and> ok t1"
proof -
  let ?bad = "uds_isRequestActive s \<or> udc_responseTimeoutMs (uds_config s) = 0 \<or>
      udc_responsePendingTimeoutMs (uds_config s) = 0"
  obtain r u where r: "startUdsReadDataByIdentifier T d t = (r, u)" by fastforce
  obtain q v where q: "startUdsReportDtcByStatusMask T m t = (q, v)" by fastforce
  have ok: "ok u" "ok v" using requests_ok(3,4) [OF assms(2)] r q by (metis snd_conv)+
  note start = startGuardedRequest_inv [OF _ _ _ _ _ ok(1)] startGuardedRequest_inv [OF _ _ _ _ _ ok(2)]
  show "uds_inv s1 \<and> ok t1" if "requestReadDataByIdentifier T clk d s t = (st, s1, t1)"
  proof (cases ?bad)
    case True
    with that assms show ?thesis
      by (auto simp: requestReadDataByIdentifier_def uds_prepareRequest_def uds_inv_def split: if_splits)
  next
    case False
    let ?s = "(uds_clearResult s)\<lparr>uds_requestKind := ReadDataByIdentifier, uds_requestedDid := d\<rparr>"
    have "startGuardedRequest T clk r ?s u = (st, s1, t1)"
      using that False r by (simp add: requestReadDataByIdentifier_def uds_prepareRequest_def)
    from start(1) [OF _ _ _ _ _ this] False assms(1) show ?thesis
      by (simp add: uds_inv_def uds_isRequestActive_def)
  qed
  show "uds_inv s1 \<and> ok t1" if "requestReportDtcByStatusMask T clk m s t = (st, s1, t1)"
  proof (cases ?bad)
    case True
    with that assms show ?thesis
      by (auto simp: requestReportDtcByStatusMask_def uds_prepareRequest_def uds_inv_def split: if_splits)
  next
    case False
    let ?s = "(uds_clearResult s)\<lparr>uds_requestKind := ReportDtcByStatusMask\<rparr>"
    have "startGuardedRequest T clk q ?s v = (st, s1, t1)"
      using that False q by (simp add: requestReportDtcByStatusMask_def uds_prepareRequest_def)
    from start(2) [OF _ _ _ _ _ this] False assms(1) show ?thesis
      by (simp add: uds_inv_def uds_isRequestActive_def)
  qed
qed

lemma uds_pollResponse_polled:
  assumes inv: "uds_inv s" and t: "ok t" and q: "uds_state s = UdsAwaitingResponse"
    and run: "uds_pollResponse T clk s t = (st, s1, t1)"
  shows "uds_polled s st s1 \<and> ok t1 \<and>
    (uds_state s1 = UdsStateIdle \<longrightarrow> (\<exists>u. ok u \<and> t1 = dt_discardPendingMessage T u))"
proof -
  have a: "uds_arrays s" "length (uds_response s) = 64" using inv by (auto simp: uds_inv_def uds_arrays_def)
  obtain now u where c: "clk t = (now, u)" by fastforce
  have u: "ok u" using clock_ok [OF t] c by simp
  obtain p n b v where r: "dt_receive T (Some (uds_response s)) 64 u = (p, n, b, v)"
    by (metis prod_cases4)
  from receive_buffer [OF u, of "uds_response s"] r a(2)
  obtain buf where buf: "b = Some buf" "length buf = 64" by auto
  have v: "ok v" using receive_ok [OF u, of "Some (uds_response s)" 64] r by simp
  let ?s = "s\<lparr>uds_response := buf, uds_lastTransportStatus := p\<rparr>"
  consider (timeout) "uds_responseDeadlineMs s \<le> now"
    | (wait) "\<not> uds_responseDeadlineMs s \<le> now" "p = TsNoData"
    | (fail) "\<not> uds_responseDeadlineMs s \<le> now" "p \<noteq> TsNoData" "p \<noteq> TsComplete"
    | (message) "\<not> uds_responseDeadlineMs s \<le> now" "p = TsComplete" by blast
  then show ?thesis
  proof cases
    case timeout
    with run c u inv q discard_ok [of u] show ?thesis
      by (auto simp: uds_pollResponse_def uds_finish_simps guard_discardPendingMessage_def
          uds_polled_def uds_inv_def)
  next
    case wait
    with run c r v inv q a buf show ?thesis
      by (auto simp: uds_pollResponse_def guard_receive_def uds_setStatus_def uds_polled_def uds_inv_def)
  next
    case fail
    with run c r v inv q a buf discard_ok [of v] show ?thesis
      by (auto simp: uds_pollResponse_def guard_receive_def uds_finish_simps
          guard_discardPendingMessage_def uds_polled_def uds_inv_def)
  next
    case message
    have n: "n \<le> 64" using receive_length [OF u] r message(2) by blast
    have h: "uds_handleResponse T clk n ?s v = (st, s1, t1)"
      using run c r message a(2) buf
      by (simp add: uds_pollResponse_def guard_receive_def)
    obtain now' w where c': "clk v = (now', w)" by fastforce
    have w: "ok w" using clock_ok [OF v] c' by simp
    have i: "uds_inv ?s" using inv a buf by (simp add: uds_inv_def)
    have "uds_handled (uds_judge (uds_requestKind ?s) (uds_requestedDid ?s) (more_pending ?s)
        (take n (uds_response ?s))) now' ?s (st, s1, t1)"
      unfolding h [symmetric]
      by (rule uds_handleResponse_spec [where clk = clk and u = w, OF _ _ n c']) (use a buf q in simp_all)
    from uds_handled_polled [OF this i] q have "uds_polled ?s st s1" by simp
    then have s: "uds_polled s st s1" by (simp only: uds_polled_input(1))
    have "t1 = (if uds_state s1 = UdsStateIdle then dt_discardPendingMessage T v
        else if st = UdsResponsePending then w else v)"
      using uds_handleResponse_transport [OF _ h] q c' by simp
    with s v w discard_ok [of v] show ?thesis by auto
  qed
qed

lemma uds_poll_polled:
  assumes "uds_inv s" and "ok t" and "uds_state s \<noteq> UdsStateIdle"
    and "uds_poll T clk s t = (st, s1, t1)"
  shows "uds_polled s st s1 \<and> ok t1 \<and>
    (uds_state s1 = UdsStateIdle \<longrightarrow> (\<exists>u. ok u \<and> t1 = dt_discardPendingMessage T u))"
proof -
  obtain p u where p: "dt_poll T t = (p, u)" by fastforce
  have u: "ok u" using poll_ok [OF assms(2)] p by simp
  obtain now v where c: "clk u = (now, v)" by fastforce
  have v: "ok v" using clock_ok [OF u] c by simp
  let ?s = "s\<lparr>uds_lastTransportStatus := p\<rparr>"
  have i: "uds_inv ?s" using assms(1) by (simp add: uds_inv_def)
  consider (response) "uds_state s = UdsAwaitingResponse" "uds_isNonFailingPollStatus p"
    | (fail) "uds_state s = UdsAwaitingResponse" "\<not> uds_isNonFailingPollStatus p"
    | (transmit) "uds_state s = UdsAwaitingTransmit"
    using assms(3) by (cases "uds_state s") auto
  then show ?thesis
  proof cases
    case response
    then have "uds_pollResponse T clk ?s u = (st, s1, t1)"
      using assms(4) p by (simp add: uds_poll_def guard_poll_def)
    from uds_pollResponse_polled [OF i u _ this] response show ?thesis
      by (simp add: uds_polled_input)
  next
    case fail
    with assms p u discard_ok [of u] show ?thesis
      by (auto simp: uds_poll_def guard_poll_def uds_polled_def uds_finish_simps
          guard_discardPendingMessage_def uds_inv_def)
  next
    case transmit
    with assms p u v c discard_ok [of u] show ?thesis
      by (auto simp: uds_poll_def guard_poll_def uds_polled_def uds_small_defs
          guard_discardPendingMessage_def uds_inv_def Let_def split: if_splits)
  qed
qed

lemma uds_poll_inv:
  assumes "uds_inv s" and "ok t" and "uds_poll T clk s t = (st, s1, t1)"
  shows "uds_inv s1 \<and> ok t1"
proof (cases "uds_state s = UdsStateIdle")
  case True
  with assms show ?thesis by (simp add: uds_poll_def)
next
  case False
  with uds_poll_polled [OF assms(1,2) _ assms(3)] show ?thesis by (simp add: uds_polled_def)
qed

lemma uds_step_inv:
  assumes "uds_inv s" and "ok t" and "\<And>e u. ok u \<Longrightarrow> ok (out e u)"
    and "uds_step T clk out e (s, t) = (st, s1, t1)"
  shows "uds_inv s1 \<and> ok t1"
  using assms(3,4) uds_request_inv [OF assms(1,2)] uds_poll_inv [OF assms(1,2)] assms(1,2)
  by (cases e) (auto split: prod.splits)

lemma uds_run_inv:
  assumes "uds_inv (fst x)" and "ok (snd x)" and "\<And>e u. ok u \<Longrightarrow> ok (out e u)"
  shows "uds_inv (fst (snd (uds_run T clk out es x))) \<and> ok (snd (snd (uds_run T clk out es x)))"
  using assms(1,2)
proof (induction es arbitrary: x)
  case (Cons e es)
  obtain s t where x: "x = (s, t)" by fastforce
  obtain st s1 t1 where s: "uds_step T clk out e (s, t) = (st, s1, t1)" by (metis prod_cases3)
  have "uds_inv s1 \<and> ok t1"
    by (rule uds_step_inv [OF _ _ assms(3) s]) (use Cons.prems x in simp_all)
  with Cons.IH [of "(s1, t1)"] show ?case by (simp add: x s case_prod_beta)
qed simp

text \<open>The response-pending answers of a run without new requests.\<close>

lemma uds_run_pending:
  assumes "uds_inv s" and "ok t" and "\<And>e u. ok u \<Longrightarrow> ok (out e u)"
    and "list_all (\<lambda>e. \<not> is_request e) es"
    and "uds_run T clk out es (s, t) = (sts, s1, t1)"
    and "uds_pendingResponseCount s \<le> udc_maxPendingResponses (uds_config s)"
  shows "length (filter (\<lambda>st. st = Some UdsResponsePending) sts) + unat (uds_pendingResponseCount s) \<le>
    unat (udc_maxPendingResponses (uds_config s))"
  using assms(1,2,4-6)
proof (induction es arbitrary: s t sts)
  case Nil
  then show ?case by (simp add: word_le_nat_alt)
next
  case (Cons e es)
  obtain st s' t' where e: "uds_step T clk out e (s, t) = (st, s', t')" by (metis prod_cases3)
  obtain sts' where r: "uds_run T clk out es (s', t') = (sts', s1, t1)" and sts: "sts = st # sts'"
    using Cons.prems(4) e by (auto split: prod.splits)
  have inv: "uds_inv s' \<and> ok t'" by (rule uds_step_inv [OF Cons.prems(1,2) assms(3) e])
  consider (same) "st \<noteq> Some UdsResponsePending" "uds_pendingResponseCount s' = uds_pendingResponseCount s"
      "uds_config s' = uds_config s"
    | (pending) "st = Some UdsResponsePending" "more_pending s"
      "uds_pendingResponseCount s' = uds_pendingResponseCount s + 1" "uds_config s' = uds_config s"
  proof (cases e)
    case UPoll
    then obtain p where p: "uds_poll T clk s t = (p, s', t')" "st = Some p"
      using e by (auto split: prod.splits)
    show ?thesis
    proof (cases "uds_state s = UdsStateIdle")
      case True
      with p same show ?thesis by (auto simp: uds_poll_def)
    next
      case False
      with uds_poll_polled [OF Cons.prems(1,2) _ p(1)] p same pending show ?thesis
        by (auto simp: uds_polled_def split: if_splits)
    qed
  qed (use Cons.prems(3) e same in auto)
  then show ?case
  proof cases
    case same
    with Cons.IH [OF _ _ _ r] Cons.prems inv sts show ?thesis by simp
  next
    case pending
    have "unat (uds_pendingResponseCount s + 1) = Suc (unat (uds_pendingResponseCount s))"
      using unat_inc_below [of "uds_pendingResponseCount s"] pending(2) by (simp add: more_pending_def)
    with Cons.IH [OF _ _ _ r] Cons.prems inv sts pending uds_pending_below [OF pending(2)]
    show ?thesis by simp
  qed
qed

end

end
