(* ===== verification/Uds_Behaviour.thy ===== *)
theory Uds_Behaviour
  imports Uds_Runs IsoTp_Properties
begin

text \<open>
  The properties of the UDS service over the ISO-TP transport, for every CAN back end and clock.
\<close>

section \<open>Concrete states\<close>

definition uds_waiting :: "UdsRequestKind \<Rightarrow> u16 \<Rightarrow> UdsService" where
  "uds_waiting kind did = (UdsService_init UdsServiceConfig_default)
     \<lparr>uds_state := UdsAwaitingResponse, uds_requestKind := kind, uds_status := UdsInProgress,
      uds_requestedDid := did, uds_responseDeadlineMs := 1000\<rparr>"

lemma uds_waiting_simps:
  "uds_inv (uds_waiting kind did)" "uds_state (uds_waiting kind did) = UdsAwaitingResponse"
  "uds_requestKind (uds_waiting kind did) = kind" "uds_requestedDid (uds_waiting kind did) = did"
  "uds_responseDeadlineMs (uds_waiting kind did) = 1000" "more_pending (uds_waiting kind did)"
  "uds_pendingResponseCount (uds_waiting kind did) = 0"
  "udc_maxPendingResponses (uds_config (uds_waiting kind did)) = 3"
  by (simp_all add: uds_waiting_def uds_inv_def uds_arrays_def UdsService_init_def uds_sizes
      UdsServiceConfig_default_def more_pending_def)

lemma holding_idle: "txState (holding m) = TxIdle" "rxState (holding m) = RxIdle"
  by (simp_all add: holding_def IsoTp_init_def)

lemma uds_handled_input:
  "uds_handled v now (s\<lparr>uds_response := r, uds_lastTransportStatus := q\<rparr>) out = uds_handled v now s out"
  by (cases out; cases v) (simp_all add: uds_handled_def)

section \<open>Properties\<close>

text \<open>
  C25: In every run of UDS requests, polls, incoming frames and changes of the back end, the service
  and the transport keep their invariants, the bound on response-pending answers included.
\<close>

theorem uds_run_invariant:
  "case uds_run (IsoTp_transport E) (isotp_clock E) (bus_step E) es
          (UdsService_init ucfg, IsoTp_init cfg, w) of
     (sts, s, b, w1) \<Rightarrow> uds_inv s \<and> isotp_inv b"
proof -
  let ?x = "(UdsService_init ucfg, IsoTp_init cfg, w)"
  let ?y = "uds_run (IsoTp_transport E) (isotp_clock E) (bus_step E) es ?x"
  have "uds_inv (fst (snd ?y)) \<and> isotp_ok (snd (snd ?y))"
    by (rule isotp_timed.uds_run_inv)
      (simp_all add: uds_inv_init isotp_ok_def isotp_inv_init bus_step_ok [unfolded isotp_ok_def])
  then show ?thesis by (cases ?y) (auto simp: isotp_ok_def)
qed

text \<open>
  C4: Decoding. When the transport holds a message of at most 64 bytes before the deadline, a poll
  gives the verdict of the specification on that message: positive, negative, response pending,
  pending limit exceeded, malformed, or an answer to something else.
\<close>

theorem uds_poll_decodes:
  assumes "uds_inv s" and "uds_state s = UdsAwaitingResponse" and "isotp_inv b"
    and "txState b = TxIdle" and "delivered m b" and "length m \<le> 64"
    and "env_clock E w = (t0, w0)" and "env_clock E w0 = (t1, w1)" and "env_clock E w1 = (now, w2)"
    and "t1 < uds_responseDeadlineMs s"
  shows "uds_handled (uds_judge (uds_requestKind s) (uds_requestedDid s) (more_pending s) m) now s
    (uds_poll (IsoTp_transport E) (isotp_clock E) s (b, w))"
proof -
  have r: "rxState b = RxIdle" "isConfigValid b"
    using assms(3,5) by (auto simp: isotp_inv_def rx_inv_def delivered_def)
  have a: "uds_arrays s" "length (uds_response s) = 64"
    using assms(1) by (auto simp: uds_inv_def uds_arrays_def)
  have p: "IsoTp_poll E b w = (TsIdle, b, w0)"
    using r assms(4,7) by (simp add: IsoTp_poll_def)
  let ?r = "m @ drop (length m) (uds_response s)"
  have len: "length m \<le> length (uds_response s)" using assms(6) a by simp
  note recv = delivered_receive [OF assms(5) len, unfolded a(2)]
  let ?s = "s\<lparr>uds_response := ?r, uds_lastTransportStatus := TsComplete\<rparr>"
  let ?t = "(IsoTp_discardPendingMessage b, w1)"
  have "uds_poll (IsoTp_transport E) (isotp_clock E) s (b, w) =
      uds_handleResponse (IsoTp_transport E) (isotp_clock E) (length m) ?s ?t"
    using p recv assms(2,8,10) a(2)
    by (simp add: uds_poll_def uds_pollResponse_def guard_poll_def guard_receive_def
        IsoTp_transport_def isotp_clock_def uds_isNonFailingPollStatus_def not_le [symmetric])
  moreover have c: "isotp_clock E ?t = (now, IsoTp_discardPendingMessage b, w2)"
    using assms(9) by (simp add: isotp_clock_def)
  have "uds_handled (uds_judge (uds_requestKind ?s) (uds_requestedDid ?s) (more_pending ?s)
      (take (length m) (uds_response ?s))) now ?s
      (uds_handleResponse (IsoTp_transport E) (isotp_clock E) (length m) ?s ?t)"
    by (rule uds_handleResponse_spec [where clk = "isotp_clock E", OF _ _ assms(6) c])
      (use a len assms(2) in simp_all)
  then have "uds_handled (uds_judge (uds_requestKind s) (uds_requestedDid s) (more_pending s) m) now ?s
      (uds_handleResponse (IsoTp_transport E) (isotp_clock E) (length m) ?s ?t)"
    by (simp add: more_pending_def)
  ultimately show ?thesis by (simp only: uds_handled_input)
qed

lemma uds_poll_decodes_witness:
  "uds_handled (UdsVReply (UReplyData [1, 2])) 0 (uds_waiting ReadDataByIdentifier 0xF190)
     (uds_poll (IsoTp_transport mock_env) (isotp_clock mock_env)
        (uds_waiting ReadDataByIdentifier 0xF190) (holding [0x62, 0xF1, 0x90, 1, 2], mock_world))"
proof -
  have "be_value [0xF1, 0x90] = (0xF190 :: u16)" by (simp add: be_value_2)
  with uds_poll_decodes [of "uds_waiting ReadDataByIdentifier 0xF190"
      "holding [0x62, 0xF1, 0x90, 1, 2]" "[0x62, 0xF1, 0x90, 1, 2]" mock_env mock_world
      0 mock_world 0 mock_world 0 mock_world]
  show ?thesis
    by (simp add: uds_waiting_simps holding_simps mock_env_def FakeClock_nowMs_def mock_world_def
        uds_judge_def judge_data_def)
qed

text \<open>
  C18: Response pending. In a run without new requests the calls report \<open>ResponsePending\<close> at most as
  often as the configuration still allows: an ECU cannot hold a request open for ever.
\<close>

theorem uds_pending_bounded:
  assumes "uds_inv s" and "isotp_inv b" and "uds_state s \<noteq> UdsStateIdle"
    and "list_all (\<lambda>e. \<not> is_request e) es"
    and "uds_run (IsoTp_transport E) (isotp_clock E) (bus_step E) es (s, b, w) = (sts, y)"
  shows "length (filter (\<lambda>st. st = Some UdsResponsePending) sts) \<le>
    unat (udc_maxPendingResponses (uds_config s)) - unat (uds_pendingResponseCount s)"
proof -
  obtain s1 t1 where y: "y = (s1, t1)" by (cases y)
  have ok: "isotp_ok (b, w)" using assms(2) by (simp add: isotp_ok_def)
  have p: "uds_pendingResponseCount s \<le> udc_maxPendingResponses (uds_config s)"
    using assms(1,3) by (simp add: uds_inv_def)
  from isotp_timed.uds_run_pending [OF assms(1) ok bus_step_ok assms(4) assms(5) [unfolded y] p]
  show ?thesis by simp
qed

lemma uds_pending_bounded_witness:
  "length (filter (\<lambda>st. st = Some UdsResponsePending) (fst (uds_run (IsoTp_transport mock_env)
     (isotp_clock mock_env) (bus_step mock_env) [UPoll, UOutside (BusWorld (mock_tick 5)), UPoll]
     (uds_waiting ReadDataByIdentifier 0xF190, holding [0x7F, 0x22, 0x78], mock_world)))) \<le> 3"
proof -
  obtain sts y where r: "uds_run (IsoTp_transport mock_env) (isotp_clock mock_env) (bus_step mock_env)
      [UPoll, UOutside (BusWorld (mock_tick 5)), UPoll]
      (uds_waiting ReadDataByIdentifier 0xF190, holding [0x7F, 0x22, 0x78], mock_world) = (sts, y)"
    by (metis surj_pair)
  from uds_pending_bounded [OF _ _ _ _ r] show ?thesis
    unfolding r by (simp add: uds_waiting_simps holding_simps)
qed

text \<open>
  C23: No torn or stale results. A poll of an active request, over any environment, ends it exactly
  with one of the six final statuses and then leaves no message in the transport; the published
  data change only with \<open>ResponseReady\<close>.
\<close>

theorem uds_poll_outcome:
  assumes "uds_inv s" and "isotp_inv b" and "uds_state s \<noteq> UdsStateIdle"
    and "uds_poll (IsoTp_transport E) (isotp_clock E) s (b, w) = (st, s1, b1, w1)"
  shows "(uds_state s1 = UdsStateIdle \<longleftrightarrow>
      st \<in> {UdsResponseReady, UdsNegativeResponse, UdsPendingLimitExceeded, UdsInvalidResponse,
             UdsTimeout, UdsTransportFailure}) \<and>
    (uds_state s1 = UdsStateIdle \<longrightarrow> \<not> rxMessageReady b1) \<and>
    (st \<noteq> UdsResponseReady \<longrightarrow> uds_published s1 = uds_published s)"
proof -
  have ok: "isotp_ok (b, w)" using assms(2) by (simp add: isotp_ok_def)
  note p = isotp_timed.uds_poll_polled [OF assms(1) ok assms(3,4)]
  have "uds_state s1 = UdsStateIdle \<Longrightarrow> \<not> rxMessageReady b1"
    using p by (auto simp: IsoTp_transport_def IsoTp_discardPendingMessage_def)
  with p show ?thesis by (simp add: uds_polled_def)
qed

lemma uds_poll_outcome_witness:
  "case uds_poll (IsoTp_transport mock_env) (isotp_clock mock_env)
      (uds_waiting ReadDataByIdentifier 1) (holding [0x62], mock_world) of
    (st, s1, b1, w1) \<Rightarrow> uds_state s1 = UdsStateIdle \<longrightarrow> \<not> rxMessageReady b1"
proof -
  obtain st s1 b1 w1 where p: "uds_poll (IsoTp_transport mock_env) (isotp_clock mock_env)
      (uds_waiting ReadDataByIdentifier 1) (holding [0x62], mock_world) = (st, s1, b1, w1)"
    by (metis prod_cases4)
  from uds_poll_outcome [OF _ _ _ p] p show ?thesis
    by (simp add: uds_waiting_simps holding_simps)
qed

text \<open>
  C27: Deadline. A poll whose clock reading has reached the deadline of the response ends the
  request, over any transport, even when a message is waiting, with nothing published.
\<close>

theorem uds_poll_deadline:
  assumes "uds_state s = UdsAwaitingResponse" and "dt_poll T t = (p, u)" and "clk u = (now, v)"
    and "uds_responseDeadlineMs s \<le> now" and "uds_poll T clk s t = (st, s1, t1)"
  shows "uds_state s1 = UdsStateIdle \<and> uds_published s1 = uds_published s \<and>
    st = (if p \<in> {TsIdle, TsInProgress, TsComplete} then UdsTimeout else UdsTransportFailure)"
  using assms
  by (auto simp: uds_poll_def uds_pollResponse_def guard_poll_def uds_finish_simps
      uds_isNonFailingPollStatus_def split: if_splits)

lemma uds_poll_deadline_witness:
  "uds_state (fst (snd (uds_poll (IsoTp_transport mock_env) (isotp_clock mock_env)
     (uds_waiting ReadDataByIdentifier 1) (holding [0x62], (MockCan_init, 1000))))) = UdsStateIdle"
proof -
  let ?w = "(MockCan_init, 1000) :: MockCan \<times> u64"
  obtain st s1 t1 where p: "uds_poll (IsoTp_transport mock_env) (isotp_clock mock_env)
      (uds_waiting ReadDataByIdentifier 1) (holding [0x62], ?w) = (st, s1, t1)" by (metis prod_cases3)
  obtain q b w where d: "dt_poll (IsoTp_transport mock_env) (holding [0x62], ?w) = (q, b, w)"
    by (metis prod_cases3)
  have w: "w = ?w"
    using d by (auto simp: IsoTp_transport_def IsoTp_poll_def mock_env_def FakeClock_nowMs_def
        holding_idle split: if_splits)
  have c: "isotp_clock mock_env (b, w) = (1000, b, ?w)"
    by (simp add: w isotp_clock_def mock_env_def FakeClock_nowMs_def)
  from uds_poll_deadline [OF _ d c _ p] p show ?thesis by (simp add: uds_waiting_simps)
qed

end
