(* ===== verification/Scheduler.thy ===== *)
theory Scheduler
  imports Can_Types
begin

text \<open>
  The job scheduler (\<open>core/scheduler.h\<close>, class template \<open>Scheduler<Capacity>\<close>): a fixed table of
  jobs, startup, periodic or on demand, at most one of them active. The capacity is the length of
  the table; deadlines are 64-bit and kept at their width.
\<close>

section \<open>State\<close>

type_synonym SchedulerJobId = u32

datatype SchedulePolicy = Startup | Periodic | OnDemand | OtherPolicy u8

datatype SchedulerResult =
    SchRegistered
  | SchDuplicateId
  | SchFull
  | SchInvalidConfig
  | SchTimeOverflow
  | SchRequested
  | SchAlreadyPending
  | SchNotFound
  | SchNotOnDemand
  | SchTaken
  | SchNoDueJob
  | SchBusy
  | SchCompleted
  | SchNoActiveJob
  | SchWrongJob

record Job =
  job_id :: SchedulerJobId
  job_policy :: SchedulePolicy
  job_periodMs :: u64
  job_deadlineMs :: u64
  job_pending :: bool

definition Job_default :: Job where
  "Job_default = \<lparr>job_id = 0, job_policy = OnDemand, job_periodMs = 0, job_deadlineMs = 0,
     job_pending = False\<rparr>"

record Scheduler =
  sch_jobs :: "Job list"
  sch_size :: nat
  sch_activeIndex :: nat

definition Scheduler_init :: "nat \<Rightarrow> Scheduler" where
  "Scheduler_init Capacity =
     \<lparr>sch_jobs = replicate Capacity Job_default, sch_size = 0, sch_activeIndex = Capacity\<rparr>"

definition sch_capacity :: "Scheduler \<Rightarrow> nat" where
  "sch_capacity s = length (sch_jobs s)"

definition kMaxTime :: u64 where
  "kMaxTime = - 1"

definition hasActiveJob :: "Scheduler \<Rightarrow> bool" where
  "hasActiveJob s \<longleftrightarrow> sch_activeIndex s \<noteq> sch_capacity s"

section \<open>Operations\<close>

text \<open>The search loop from an index on; \<open>size_\<close> when nothing is found.\<close>

function find_from :: "Job list \<Rightarrow> nat \<Rightarrow> SchedulerJobId \<Rightarrow> nat \<Rightarrow> nat" where
  "find_from jobs len i index =
     (if index < len
      then (if job_id (jobs ! index) = i then index else find_from jobs len i (index + 1))
      else len)"
  by pat_completeness auto
termination
  by (relation "measure (\<lambda>(jobs, n, i, k). n - k)") auto

declare find_from.simps [simp del]

definition sch_find :: "SchedulerJobId \<Rightarrow> Scheduler \<Rightarrow> nat" where
  "sch_find i s = find_from (sch_jobs s) (sch_size s) i 0"

definition registerJob ::
    "'w Clock \<Rightarrow> SchedulerJobId \<Rightarrow> SchedulePolicy \<Rightarrow> u64 \<Rightarrow> Scheduler \<Rightarrow> 'w \<Rightarrow>
     SchedulerResult \<times> Scheduler \<times> 'w" where
  "registerJob clk i policy periodMs s w =
     (if (policy \<noteq> Startup \<and> policy \<noteq> Periodic \<and> policy \<noteq> OnDemand) \<or>
         (if policy = Periodic then periodMs = 0 else periodMs \<noteq> 0)
      then (SchInvalidConfig, s, w)
      else if sch_find i s \<noteq> sch_size s then (SchDuplicateId, s, w)
      else if sch_size s = sch_capacity s then (SchFull, s, w)
      else
        (let store = (\<lambda>deadline. s\<lparr>sch_jobs := (sch_jobs s)[sch_size s :=
                 \<lparr>job_id = i, job_policy = policy, job_periodMs = periodMs,
                  job_deadlineMs = deadline, job_pending = (policy = Startup)\<rparr>],
               sch_size := sch_size s + 1\<rparr>)
         in if policy = Periodic then
              (let (now, w1) = clk w
               in if kMaxTime - now < periodMs then (SchTimeOverflow, s, w1)
                  else (SchRegistered, store (now + periodMs), w1))
            else (SchRegistered, store 0, w)))"

definition sch_request :: "SchedulerJobId \<Rightarrow> Scheduler \<Rightarrow> SchedulerResult \<times> Scheduler" where
  "sch_request i s =
     (let index = sch_find i s
      in if index = sch_size s then (SchNotFound, s)
         else
           (let job = sch_jobs s ! index
            in if job_policy job \<noteq> OnDemand then (SchNotOnDemand, s)
               else if index = sch_activeIndex s \<or> job_pending job then (SchAlreadyPending, s)
               else (SchRequested,
                     s\<lparr>sch_jobs := (sch_jobs s)[index := job\<lparr>job_pending := True\<rparr>]\<rparr>)))"

definition job_due :: "u64 \<Rightarrow> Job \<Rightarrow> bool" where
  "job_due now job = (if job_policy job = Periodic then job_deadlineMs job \<le> now else job_pending job)"

function due_from :: "Job list \<Rightarrow> nat \<Rightarrow> u64 \<Rightarrow> nat \<Rightarrow> nat option" where
  "due_from jobs len now index =
     (if index < len
      then (if job_due now (jobs ! index) then Some index else due_from jobs len now (index + 1))
      else None)"
  by pat_completeness auto
termination
  by (relation "measure (\<lambda>(jobs, n, t, k). n - k)") auto

declare due_from.simps [simp del]

text \<open>The job identity is an out parameter: it comes in with the call and goes out with the result.\<close>

definition takeNextDue ::
    "'w Clock \<Rightarrow> SchedulerJobId \<Rightarrow> Scheduler \<Rightarrow> 'w \<Rightarrow>
     SchedulerResult \<times> SchedulerJobId \<times> Scheduler \<times> 'w" where
  "takeNextDue clk i s w =
     (if hasActiveJob s then (SchBusy, i, s, w)
      else
        (let (now, w1) = clk w
         in case due_from (sch_jobs s) (sch_size s) now 0 of
              Some index \<Rightarrow>
                (SchTaken, job_id (sch_jobs s ! index), s\<lparr>sch_activeIndex := index\<rparr>, w1)
            | None \<Rightarrow> (SchNoDueJob, i, s, w1)))"

definition sch_complete ::
    "'w Clock \<Rightarrow> SchedulerJobId \<Rightarrow> Scheduler \<Rightarrow> 'w \<Rightarrow> SchedulerResult \<times> Scheduler \<times> 'w" where
  "sch_complete clk i s w =
     (if \<not> hasActiveJob s then (SchNoActiveJob, s, w)
      else
        (let job = sch_jobs s ! sch_activeIndex s;
             finish = (\<lambda>job1. s\<lparr>sch_jobs := (sch_jobs s)[sch_activeIndex s := job1],
                                sch_activeIndex := sch_capacity s\<rparr>)
         in if job_id job \<noteq> i then (SchWrongJob, s, w)
            else if job_policy job = Periodic then
              (let (now, w1) = clk w;
                   elapsedPeriods = (now - job_deadlineMs job) div job_periodMs job
               in if (kMaxTime - job_deadlineMs job) div job_periodMs job \<le> elapsedPeriods
                  then (SchTimeOverflow, s, w1)
                  else (SchCompleted,
                        finish (job\<lparr>job_deadlineMs :=
                          job_deadlineMs job + (elapsedPeriods + 1) * job_periodMs job\<rparr>), w1))
            else (SchCompleted, finish (job\<lparr>job_pending := False\<rparr>), w)))"

section \<open>The loops\<close>

lemma find_from_spec:
  assumes "index \<le> len"
  shows "find_from jobs len i index \<le> len \<and>
    (\<forall>j \<in> {index ..< find_from jobs len i index}. job_id (jobs ! j) \<noteq> i) \<and>
    (find_from jobs len i index < len \<longrightarrow>
       index \<le> find_from jobs len i index \<and> job_id (jobs ! find_from jobs len i index) = i)"
  using assms
proof (induction jobs len i index rule: find_from.induct)
  case (1 jobs n i k)
  show ?case
  proof (cases "k < n \<and> job_id (jobs ! k) \<noteq> i")
    case True
    then have "find_from jobs n i k = find_from jobs n i (k + 1)"
      by (subst find_from.simps) simp
    with 1 True show ?thesis
      by (auto simp: Suc_le_eq)
  next
    case False
    then have "find_from jobs n i k = (if k < n then k else n)" by (subst find_from.simps) auto
    with False 1(2) show ?thesis by auto
  qed
qed

lemma sch_find_spec:
  "sch_find i s \<le> sch_size s"
  "j < sch_find i s \<Longrightarrow> job_id (sch_jobs s ! j) \<noteq> i"
  "sch_find i s < sch_size s \<Longrightarrow> job_id (sch_jobs s ! sch_find i s) = i"
  using find_from_spec [of 0 "sch_size s" "sch_jobs s" i] by (auto simp: sch_find_def)

lemma due_from_spec:
  assumes "index \<le> len"
  shows "case due_from jobs len now index of
      None \<Rightarrow> \<forall>j \<in> {index ..< len}. \<not> job_due now (jobs ! j)
    | Some k \<Rightarrow> index \<le> k \<and> k < len \<and> job_due now (jobs ! k) \<and>
        (\<forall>j \<in> {index ..< k}. \<not> job_due now (jobs ! j))"
  using assms
proof (induction jobs len now index rule: due_from.induct)
  case (1 jobs n t k)
  show ?case
  proof (cases "k < n \<and> \<not> job_due t (jobs ! k)")
    case True
    then have e: "due_from jobs n t k = due_from jobs n t (k + 1)"
      by (subst due_from.simps) simp
    have split: "j = k \<or> j \<in> {k + 1 ..< m}" if "j \<in> {k ..< m}" for j m using that by auto
    from 1 True show ?thesis unfolding e by (auto split: option.splits dest!: split)
  next
    case False
    then show ?thesis by (subst due_from.simps) (auto split: option.split)
  qed
qed

end
