(* ===== verification/Scheduler_Properties.thy ===== *)
theory Scheduler_Properties
  imports Scheduler Mock_Platform
begin

text \<open>
  The scheduler as a finite map from job identities to jobs: its invariant over every run, the
  choice of the next job, the absolute cadence of periodic jobs in exact arithmetic, and a
  conservation law for startup and on-demand jobs.
\<close>

section \<open>Runs and the invariant\<close>

datatype 'w sch_event =
    SRegister SchedulerJobId SchedulePolicy u64
  | SRequest SchedulerJobId
  | STake SchedulerJobId
  | SComplete SchedulerJobId
  | SWorld "'w \<Rightarrow> 'w"

fun sch_step ::
    "'w Clock \<Rightarrow> 'w sch_event \<Rightarrow> Scheduler \<times> 'w \<Rightarrow> SchedulerResult option \<times> Scheduler \<times> 'w" where
  "sch_step clk (SRegister i p d) (s, w) =
     (case registerJob clk i p d s w of (r, x) \<Rightarrow> (Some r, x))"
| "sch_step clk (SRequest i) (s, w) = (case sch_request i s of (r, s1) \<Rightarrow> (Some r, s1, w))"
| "sch_step clk (STake i) (s, w) = (case takeNextDue clk i s w of (r, j, x) \<Rightarrow> (Some r, x))"
| "sch_step clk (SComplete i) (s, w) = (case sch_complete clk i s w of (r, x) \<Rightarrow> (Some r, x))"
| "sch_step clk (SWorld g) (s, w) = (None, s, g w)"

fun sch_run ::
    "'w Clock \<Rightarrow> 'w sch_event list \<Rightarrow> Scheduler \<times> 'w \<Rightarrow>
     (SchedulerResult option) list \<times> Scheduler \<times> 'w" where
  "sch_run clk [] x = ([], x)"
| "sch_run clk (e # es) x =
     (case sch_step clk e x of (r, y) \<Rightarrow> (case sch_run clk es y of (rs, z) \<Rightarrow> (r # rs, z)))"

definition job_ok :: "Job \<Rightarrow> bool" where
  "job_ok j \<longleftrightarrow>
     job_policy j \<in> {Startup, Periodic, OnDemand} \<and>
     (job_policy j = Periodic \<longleftrightarrow> job_periodMs j \<noteq> 0) \<and>
     (job_policy j = Periodic \<longrightarrow> \<not> job_pending j)"

definition sch_inv :: "Scheduler \<Rightarrow> bool" where
  "sch_inv s \<longleftrightarrow>
     sch_size s \<le> sch_capacity s \<and>
     distinct (map job_id (take (sch_size s) (sch_jobs s))) \<and>
     list_all job_ok (take (sch_size s) (sch_jobs s)) \<and>
     (sch_activeIndex s = sch_capacity s \<or>
        sch_activeIndex s < sch_size s \<and>
        (job_policy (sch_jobs s ! sch_activeIndex s) \<noteq> Periodic \<longrightarrow>
           job_pending (sch_jobs s ! sch_activeIndex s)))"

lemma sch_inv_init: "sch_inv (Scheduler_init c)"
  by (simp add: sch_inv_def Scheduler_init_def sch_capacity_def)

lemma sch_inv_job: "sch_inv s \<Longrightarrow> k < sch_size s \<Longrightarrow> job_ok (sch_jobs s ! k)"
  by (simp add: sch_inv_def sch_capacity_def list_all_length)

lemma sch_inv_index:
  assumes "sch_inv s" and "j < sch_size s" and "k < sch_size s"
    and "job_id (sch_jobs s ! j) = job_id (sch_jobs s ! k)"
  shows "j = k"
  using assms nth_eq_iff_index_eq [of "map job_id (take (sch_size s) (sch_jobs s))" j k]
  by (simp add: sch_inv_def sch_capacity_def)

lemma sch_find_none:
  "sch_inv s \<Longrightarrow> sch_find i s = sch_size s \<Longrightarrow> i \<notin> set (map job_id (take (sch_size s) (sch_jobs s)))"
proof
  assume f: "sch_inv s" "sch_find i s = sch_size s"
    and "i \<in> set (map job_id (take (sch_size s) (sch_jobs s)))"
  then obtain k where "k < sch_size s" "job_id (sch_jobs s ! k) = i"
    by (auto simp: in_set_conv_nth)
  with f(2) sch_find_spec(2) [of k i s] show False by simp
qed

text \<open>Replacing a job by one with the same identity keeps the table well-formed.\<close>

lemma sch_inv_update:
  assumes "sch_inv s" and "k < sch_size s" and "job_ok j" and "job_id j = job_id (sch_jobs s ! k)"
    and "a = sch_capacity s \<or> a < sch_size s \<and>
      (job_policy ((sch_jobs s)[k := j] ! a) \<noteq> Periodic \<longrightarrow> job_pending ((sch_jobs s)[k := j] ! a))"
  shows "sch_inv (s\<lparr>sch_jobs := (sch_jobs s)[k := j], sch_activeIndex := a\<rparr>)"
proof -
  let ?t = "take (sch_size s) (sch_jobs s)"
  have t: "take (sch_size s) ((sch_jobs s)[k := j]) = ?t[k := j]" by (simp add: take_update_swap)
  have len: "length ?t = sch_size s" using assms(1) by (simp add: sch_inv_def sch_capacity_def)
  have "map job_id (?t[k := j]) = map job_id ?t"
    using assms(2,4) len by (intro nth_equalityI) (auto simp: nth_list_update)
  moreover have "list_all job_ok (?t[k := j])"
    using assms(1,3) by (auto simp: sch_inv_def list_all_iff dest: set_update_subset_insert [THEN subsetD])
  ultimately show ?thesis
    using assms(1,5) by (simp add: sch_inv_def sch_capacity_def t)
qed

text \<open>A registration stores one new job behind the others, or changes nothing.\<close>

definition new_job :: "SchedulerJobId \<Rightarrow> SchedulePolicy \<Rightarrow> u64 \<Rightarrow> u64 \<Rightarrow> Job" where
  "new_job i p d deadline =
     \<lparr>job_id = i, job_policy = p, job_periodMs = d, job_deadlineMs = deadline,
      job_pending = (p = Startup)\<rparr>"

definition add_job :: "Job \<Rightarrow> Scheduler \<Rightarrow> Scheduler" where
  "add_job j s = s\<lparr>sch_jobs := (sch_jobs s)[sch_size s := j], sch_size := sch_size s + 1\<rparr>"

lemma registerJob_cases:
  assumes "registerJob clk i p d s w = (r, s1, w1)" and "r \<noteq> SchRegistered \<Longrightarrow> s1 = s \<Longrightarrow> P"
    and "\<And>deadline. r = SchRegistered \<Longrightarrow> s1 = add_job (new_job i p d deadline) s \<Longrightarrow>
      p \<in> {Startup, Periodic, OnDemand} \<Longrightarrow> (p = Periodic \<longleftrightarrow> d \<noteq> 0) \<Longrightarrow>
      sch_find i s = sch_size s \<Longrightarrow> sch_size s \<noteq> sch_capacity s \<Longrightarrow> P"
  shows P
proof (cases "p = Periodic")
  case True
  obtain now u where "clk w = (now, u)" by fastforce
  with True assms(1) assms(2) assms(3) [of "now + d"] show ?thesis
    by (auto simp: registerJob_def new_job_def add_job_def Let_def split: if_splits)
next
  case False
  with assms(1) assms(2) assms(3) [of 0] show ?thesis
    by (auto simp: registerJob_def new_job_def add_job_def Let_def split: if_splits)
qed

lemma registerJob_inv:
  assumes "sch_inv s" and "registerJob clk i p d s w = (r, s1, w1)"
  shows "sch_inv s1"
  using assms(2)
proof (rule registerJob_cases)
  fix dl
  let ?t = "new_job i p d dl"
  assume s1: "s1 = add_job ?t s" and p: "p \<in> {Startup, Periodic, OnDemand}"
    and d: "p = Periodic \<longleftrightarrow> d \<noteq> 0" and f: "sch_find i s = sch_size s"
    and c: "sch_size s \<noteq> sch_capacity s"
  have t: "job_ok ?t" "job_id ?t = i" using p d by (auto simp: job_ok_def new_job_def)
  have c': "sch_size s < length (sch_jobs s)" using c assms(1) by (simp add: sch_inv_def sch_capacity_def)
  have "take (Suc (sch_size s)) ((sch_jobs s)[sch_size s := ?t]) = take (sch_size s) (sch_jobs s) @ [?t]"
    using c' by (simp add: take_Suc_conv_app_nth)
  with assms(1) sch_find_none [OF assms(1) f] t c' show "sch_inv s1"
    by (auto simp: sch_inv_def s1 add_job_def sch_capacity_def)
qed (use assms in simp)

lemma request_inv:
  assumes "sch_inv s" and "sch_request i s = (r, s1)"
  shows "sch_inv s1"
proof (cases "s1 = s")
  case False
  let ?k = "sch_find i s"
  let ?j = "(sch_jobs s ! ?k)\<lparr>job_pending := True\<rparr>"
  have s1: "s1 = s\<lparr>sch_jobs := (sch_jobs s)[?k := ?j], sch_activeIndex := sch_activeIndex s\<rparr>"
    and k: "?k < sch_size s" and p: "job_policy (sch_jobs s ! ?k) = OnDemand"
    and a: "?k \<noteq> sch_activeIndex s"
    using assms(2) False sch_find_spec(1) [of i s]
    by (auto simp: sch_request_def Let_def split: if_splits)
  show ?thesis unfolding s1
    by (rule sch_inv_update [OF assms(1) k])
      (use sch_inv_job [OF assms(1) k] p a assms(1) in \<open>auto simp: job_ok_def sch_inv_def\<close>)
qed (use assms in simp)

lemma take_inv:
  assumes "sch_inv s" and "takeNextDue clk i s w = (r, j, s1, w1)"
  shows "sch_inv s1"
proof (cases "s1 = s")
  case False
  obtain now u where c: "clk w = (now, u)" by fastforce
  obtain k where s1: "s1 = s\<lparr>sch_activeIndex := k\<rparr>"
    and d: "due_from (sch_jobs s) (sch_size s) now 0 = Some k"
    using assms(2) False c by (auto simp: takeNextDue_def split: if_splits option.splits)
  from due_from_spec [of 0 "sch_size s" now "sch_jobs s"] d
  have "k < sch_size s" "job_due now (sch_jobs s ! k)" by auto
  with assms(1) show ?thesis by (auto simp: sch_inv_def s1 sch_capacity_def job_due_def)
qed (use assms in simp)

lemma complete_inv:
  assumes "sch_inv s" and "sch_complete clk i s w = (r, s1, w1)"
  shows "sch_inv s1"
proof (cases "s1 = s")
  case False
  let ?k = "sch_activeIndex s"
  obtain j where s1: "s1 = s\<lparr>sch_jobs := (sch_jobs s)[?k := j], sch_activeIndex := sch_capacity s\<rparr>"
    and a: "hasActiveJob s"
    and j: "job_id j = job_id (sch_jobs s ! ?k)" "job_policy j = job_policy (sch_jobs s ! ?k)"
      "job_periodMs j = job_periodMs (sch_jobs s ! ?k)"
      "job_policy (sch_jobs s ! ?k) = Periodic \<Longrightarrow> job_pending j = job_pending (sch_jobs s ! ?k)"
    using assms(2) False by (auto simp: sch_complete_def Let_def split: if_splits prod.splits)
  have k: "?k < sch_size s" using assms(1) a by (auto simp: sch_inv_def hasActiveJob_def)
  have ok: "job_ok j" using sch_inv_job [OF assms(1) k] j by (auto simp: job_ok_def)
  show ?thesis unfolding s1 by (rule sch_inv_update [OF assms(1) k ok j(1)]) simp
qed (use assms in simp)

lemma sch_step_inv: "sch_inv s \<Longrightarrow> sch_step clk e (s, w) = (r, s1, w1) \<Longrightarrow> sch_inv s1"
  by (cases e) (auto split: prod.splits dest: registerJob_inv request_inv take_inv complete_inv)

lemma sch_run_inv: "sch_inv s \<Longrightarrow> sch_run clk es (s, w) = (rs, s1, w1) \<Longrightarrow> sch_inv s1"
proof (induction es arbitrary: s w rs)
  case (Cons e es)
  obtain r s' w' where e: "sch_step clk e (s, w) = (r, s', w')" by (metis prod_cases3)
  with sch_step_inv [OF Cons.prems(1) e] Cons.prems(2) Cons.IH [of s' w'] show ?case
    by (auto split: prod.splits)
qed simp

section \<open>Periodic deadlines\<close>

lemma kMaxTime_nat: "unat kMaxTime = 2 ^ 64 - 1"
  by (simp add: kMaxTime_def unsigned_minus_1_eq_mask mask_eq_exp_minus_1)

lemma unat_max_sub: "unat (kMaxTime - x) = 2 ^ 64 - 1 - unat x"
proof -
  have "x \<le> kMaxTime" by (simp add: kMaxTime_def)
  then show ?thesis by (simp add: unat_sub kMaxTime_nat)
qed

text \<open>The least time on the grid \<open>d + k * p\<close> after \<open>t\<close>.\<close>

lemma next_on_grid:
  fixes d p t :: nat
  assumes "0 < p" and "d \<le> t"
  defines "e \<equiv> (t - d) div p"
  shows "t < d + (e + 1) * p" and "d + e * p \<le> t"
proof -
  have m: "(t - d) div p * p + (t - d) mod p = t - d" by simp
  have "(t - d) mod p < p" using assms(1) by simp
  then have "t - d < e * p + p" using m unfolding e_def by linarith
  then show "t < d + (e + 1) * p" using assms(2) by (simp add: algebra_simps)
  show "d + e * p \<le> t" using m assms(2) unfolding e_def by linarith
qed

lemma elapsed_nat:
  fixes d p now :: u64
  assumes "d \<le> now" and "p \<noteq> 0"
  shows "unat ((now - d) div p) = (unat now - unat d) div unat p"
    and "unat ((kMaxTime - d) div p) = (2 ^ 64 - 1 - unat d) div unat p"
  using assms by (simp_all add: unat_div unat_sub unat_max_sub)

lemma next_deadline_exact:
  fixes d p now :: u64
  assumes "d \<le> now" and "p \<noteq> 0" and "(now - d) div p < (kMaxTime - d) div p"
  shows "unat (d + ((now - d) div p + 1) * p) = unat d + ((unat now - unat d) div unat p + 1) * unat p"
proof -
  let ?e = "(now - d) div p"
  have p: "0 < unat p" using assms(2) by (simp add: unat_gt_0)
  have e: "unat ?e + 1 \<le> (2 ^ 64 - 1 - unat d) div unat p"
    using assms(3) elapsed_nat(2) [OF assms(1,2)] by (simp add: word_less_nat_alt)
  then have "(unat ?e + 1) * unat p \<le> (2 ^ 64 - 1 - unat d) div unat p * unat p"
    by (rule mult_le_mono1)
  also have "\<dots> \<le> 2 ^ 64 - 1 - unat d" by (metis div_times_less_eq_dividend)
  finally have b: "(unat ?e + 1) * unat p \<le> 2 ^ 64 - 1 - unat d" .
  have d: "unat d < 2 ^ 64" by (rule order.strict_trans2 [OF unsigned_less]) simp
  have "(unat ?e + 1) * 1 \<le> (unat ?e + 1) * unat p" using p by (intro mult_le_mono2) simp
  then have "unat ?e + 1 \<le> 2 ^ 64 - 1 - unat d" using b by simp
  then have e1: "unat ?e + 1 < 2 ^ 64" by simp
  have u1: "unat (?e + 1) = unat ?e + 1" using e1 by (simp add: unat_word_ariths)
  have u2: "unat ((?e + 1) * p) = (unat ?e + 1) * unat p"
  proof -
    have "(unat ?e + 1) * unat p < 2 ^ 64" using b d by linarith
    then show ?thesis by (simp add: unat_word_ariths(2) u1)
  qed
  have "unat d + unat ((?e + 1) * p) < 2 ^ 64" using b d unfolding u2 by linarith
  then have "unat (d + (?e + 1) * p) = unat d + (unat ?e + 1) * unat p"
    by (simp add: unat_word_ariths(1) u2)
  then show ?thesis by (simp add: elapsed_nat(1) [OF assms(1,2)])
qed

section \<open>The table as a map\<close>

definition sch_lookup :: "SchedulerJobId \<Rightarrow> Scheduler \<Rightarrow> Job option" where
  "sch_lookup i s = (if sch_find i s < sch_size s then Some (sch_jobs s ! sch_find i s) else None)"

lemma sch_lookup_iff:
  assumes "sch_inv s"
  shows "sch_lookup i s = Some x \<longleftrightarrow> (\<exists>k < sch_size s. sch_jobs s ! k = x \<and> job_id x = i)"
proof
  assume "sch_lookup i s = Some x"
  then have "sch_find i s < sch_size s" "sch_jobs s ! sch_find i s = x"
    by (auto simp: sch_lookup_def split: if_splits)
  with sch_find_spec(3) [of i s] show "\<exists>k < sch_size s. sch_jobs s ! k = x \<and> job_id x = i" by auto
next
  assume "\<exists>k < sch_size s. sch_jobs s ! k = x \<and> job_id x = i"
  then obtain k where k: "k < sch_size s" "sch_jobs s ! k = x" "job_id x = i" by auto
  have f: "sch_find i s < sch_size s"
    using sch_find_spec(1) [of i s] sch_find_spec(2) [of k i s] k by (metis le_neq_implies_less)
  have "sch_find i s = k"
    by (rule sch_inv_index [OF assms f k(1)]) (use sch_find_spec(3) [OF f] k in simp)
  with k show "sch_lookup i s = Some x" by (simp add: sch_lookup_def)
qed

lemma sch_lookup_found: "sch_inv s \<Longrightarrow> k < sch_size s \<Longrightarrow>
    sch_lookup (job_id (sch_jobs s ! k)) s = Some (sch_jobs s ! k)"
  by (auto simp: sch_lookup_iff)

lemma option_ext: "(\<And>x. (a = Some x) = (b = Some x)) \<Longrightarrow> a = b"
  by (cases a; cases b) auto

lemma sch_lookup_update:
  fixes s :: Scheduler
  defines "s1 \<equiv> \<lambda>k j a. s\<lparr>sch_jobs := (sch_jobs s)[k := j], sch_activeIndex := a\<rparr>"
  assumes "sch_inv s" and "sch_inv (s1 k j a)" and "k < sch_size s"
    and "job_id j = job_id (sch_jobs s ! k)"
  shows "sch_lookup i (s1 k j a) = (if i = job_id j then Some j else sch_lookup i s)"
proof -
  have len: "sch_size s \<le> length (sch_jobs s)" using assms(2) by (simp add: sch_inv_def sch_capacity_def)
  have sz: "sch_size (s1 k j a) = sch_size s" "sch_jobs (s1 k j a) = (sch_jobs s)[k := j]"
    by (simp_all add: s1_def)
  show ?thesis
  proof (cases "i = job_id j")
    case True
    then have "sch_lookup i (s1 k j a) = Some j"
      using assms(4) len by (subst sch_lookup_iff [OF assms(3)]) (auto simp: sz)
    with True show ?thesis by simp
  next
    case False
    have "sch_lookup i (s1 k j a) = sch_lookup i s"
    proof (rule option_ext)
      fix x
      have "(\<exists>m < sch_size s. (sch_jobs s)[k := j] ! m = x \<and> job_id x = i) =
          (\<exists>m < sch_size s. sch_jobs s ! m = x \<and> job_id x = i)"
        using False assms(4,5) len
        by (metis nth_list_update_eq nth_list_update_neq order_less_le_trans)
      then show "(sch_lookup i (s1 k j a) = Some x) = (sch_lookup i s = Some x)"
        by (simp add: sch_lookup_iff [OF assms(3)] sch_lookup_iff [OF assms(2)] sz)
    qed
    with False show ?thesis by simp
  qed
qed

lemma sch_lookup_add:
  assumes "sch_inv s" and "sch_inv (add_job j s)" and "sch_size s \<noteq> sch_capacity s"
    and "sch_find (job_id j) s = sch_size s"
  shows "sch_lookup i (add_job j s) = (if i = job_id j then Some j else sch_lookup i s)"
proof -
  have len: "sch_size s < length (sch_jobs s)" using assms(1,3) by (simp add: sch_inv_def sch_capacity_def)
  have sz: "sch_size (add_job j s) = Suc (sch_size s)"
    "sch_jobs (add_job j s) = (sch_jobs s)[sch_size s := j]" by (simp_all add: add_job_def)
  have no: "k < sch_size s \<Longrightarrow> job_id (sch_jobs s ! k) \<noteq> job_id j" for k
    using sch_find_spec(2) [of k "job_id j" s] assms(4) by simp
  show ?thesis
  proof (rule option_ext)
    fix x
    have a: "(\<exists>k < Suc (sch_size s). (sch_jobs s)[sch_size s := j] ! k = x \<and> job_id x = i) =
        (x = j \<and> i = job_id j \<or> (\<exists>k < sch_size s. sch_jobs s ! k = x \<and> job_id x = i))"
      using len unfolding Ex_less_Suc
      by (metis nth_list_update_eq nth_list_update_neq order_less_irrefl)
    show "(sch_lookup i (add_job j s) = Some x) = ((if i = job_id j then Some j else sch_lookup i s) = Some x)"
      using sch_lookup_iff [OF assms(2), of i x] sch_lookup_iff [OF assms(1), of i x] no a
      by (auto simp: sz)
  qed
qed

section \<open>Conservation of pending jobs\<close>

text \<open>A startup registration and an accepted request grant one execution; a completion uses it.\<close>

fun grants :: "SchedulerJobId \<Rightarrow> 'w sch_event \<Rightarrow> SchedulerResult option \<Rightarrow> bool" where
  "grants i (SRegister j p d) r = (j = i \<and> p = Startup \<and> r = Some SchRegistered)"
| "grants i (SRequest j) r = (j = i \<and> r = Some SchRequested)"
| "grants i _ r = False"

fun completes :: "SchedulerJobId \<Rightarrow> 'w sch_event \<Rightarrow> SchedulerResult option \<Rightarrow> bool" where
  "completes i (SComplete j) r = (j = i \<and> r = Some SchCompleted)"
| "completes i _ r = False"

fun registers_periodic :: "SchedulerJobId \<Rightarrow> 'w sch_event \<Rightarrow> bool" where
  "registers_periodic i (SRegister j p d) = (j = i \<and> p = Periodic)"
| "registers_periodic i _ = False"

definition count :: "('a \<Rightarrow> 'b \<Rightarrow> bool) \<Rightarrow> 'a list \<Rightarrow> 'b list \<Rightarrow> nat" where
  "count P xs ys = length (filter (\<lambda>(x, y). P x y) (zip xs ys))"

definition sch_pending :: "SchedulerJobId \<Rightarrow> Scheduler \<Rightarrow> bool" where
  "sch_pending i s = (case sch_lookup i s of Some j \<Rightarrow> job_pending j | None \<Rightarrow> False)"

definition not_periodic :: "SchedulerJobId \<Rightarrow> Scheduler \<Rightarrow> bool" where
  "not_periodic i s = (case sch_lookup i s of Some j \<Rightarrow> job_policy j \<noteq> Periodic | None \<Rightarrow> True)"

lemma sch_lookup_active [simp]: "sch_lookup i (s\<lparr>sch_activeIndex := k\<rparr>) = sch_lookup i s"
  by (simp add: sch_lookup_def sch_find_def)

definition balanced :: "SchedulerJobId \<Rightarrow> bool \<Rightarrow> bool \<Rightarrow> Scheduler \<Rightarrow> Scheduler \<Rightarrow> bool" where
  "balanced i g c s s1 \<longleftrightarrow>
     not_periodic i s1 \<and>
     of_bool g + of_bool (sch_pending i s) = (of_bool c + of_bool (sch_pending i s1) :: nat)"

lemma balanced_same: "not_periodic i s \<Longrightarrow> balanced i False False s s"
  by (simp add: balanced_def)

lemma register_balanced:
  assumes inv: "sch_inv s" and np: "not_periodic i s" and run: "registerJob clk j p d s w = (r, s1, w1)"
    and "\<not> (j = i \<and> p = Periodic)"
  shows "balanced i (j = i \<and> p = Startup \<and> r = SchRegistered) False s s1"
  using run
proof (rule registerJob_cases)
  assume "r \<noteq> SchRegistered" "s1 = s"
  with np show ?thesis by (simp add: balanced_def)
next
  fix dl
  assume r: "r = SchRegistered" and s1: "s1 = add_job (new_job j p d dl) s"
    and f: "sch_find j s = sch_size s" and c: "sch_size s \<noteq> sch_capacity s"
  have inv1: "sch_inv (add_job (new_job j p d dl) s)" using registerJob_inv [OF inv run] s1 by simp
  have l: "sch_lookup i s1 = (if i = j then Some (new_job j p d dl) else sch_lookup i s)"
    using sch_lookup_add [OF inv inv1 c] f by (simp add: s1 new_job_def)
  have none: "i = j \<Longrightarrow> sch_lookup i s = None" using f by (simp add: sch_lookup_def)
  show ?thesis
    using l none np assms(4) r
    by (auto simp: balanced_def sch_pending_def not_periodic_def new_job_def)
qed

lemma request_balanced:
  assumes inv: "sch_inv s" and np: "not_periodic i s" and run: "sch_request j s = (r, s1)"
  shows "balanced i (j = i \<and> r = SchRequested) False s s1"
proof (cases "r = SchRequested")
  case False
  with run np show ?thesis
    by (auto simp: sch_request_def balanced_def Let_def split: if_splits)
next
  case True
  let ?k = "sch_find j s"
  let ?t = "(sch_jobs s ! ?k)\<lparr>job_pending := True\<rparr>"
  have s1: "s1 = s\<lparr>sch_jobs := (sch_jobs s)[?k := ?t], sch_activeIndex := sch_activeIndex s\<rparr>"
    and k: "?k < sch_size s" and p: "job_policy (sch_jobs s ! ?k) = OnDemand"
    and a: "\<not> job_pending (sch_jobs s ! ?k)"
    using run True sch_find_spec(1) [of j s]
    by (auto simp: sch_request_def Let_def split: if_splits)
  note id = sch_find_spec(3) [OF k]
  have l: "sch_lookup i s1 = (if i = j then Some ?t else sch_lookup i s)"
    using sch_lookup_update [OF inv request_inv [OF inv run, unfolded s1] k, of i] id by (simp add: s1)
  have "i = j \<Longrightarrow> sch_lookup i s = Some (sch_jobs s ! ?k)" using k by (simp add: sch_lookup_def)
  with l np True p a show ?thesis by (auto simp: balanced_def sch_pending_def not_periodic_def)
qed

lemma complete_balanced:
  assumes inv: "sch_inv s" and np: "not_periodic i s" and run: "sch_complete clk j s w = (r, s1, w1)"
  shows "balanced i False (j = i \<and> r = SchCompleted) s s1"
proof (cases "r = SchCompleted")
  case False
  with run np show ?thesis
    by (auto simp: sch_complete_def balanced_def Let_def split: if_splits prod.splits)
next
  case True
  let ?k = "sch_activeIndex s" and ?j = "sch_jobs s ! sch_activeIndex s"
  obtain t where s1: "s1 = s\<lparr>sch_jobs := (sch_jobs s)[?k := t], sch_activeIndex := sch_capacity s\<rparr>"
    and a: "hasActiveJob s" and id: "job_id ?j = j"
    and t: "job_id t = job_id ?j" "job_policy t = job_policy ?j"
      "job_policy ?j \<noteq> Periodic \<Longrightarrow> \<not> job_pending t"
      "job_policy ?j = Periodic \<Longrightarrow> job_pending t = job_pending ?j"
    using run True by (auto simp: sch_complete_def Let_def split: if_splits prod.splits)
  have k: "?k < sch_size s" and pend: "job_policy ?j \<noteq> Periodic \<Longrightarrow> job_pending ?j"
    using inv a by (auto simp: sch_inv_def hasActiveJob_def)
  have l: "sch_lookup i s1 = (if i = j then Some t else sch_lookup i s)"
    using sch_lookup_update [OF inv complete_inv [OF inv run, unfolded s1] k t(1), of i] t(1) id
    by (simp add: s1)
  have "i = j \<Longrightarrow> sch_lookup i s = Some ?j" using sch_lookup_found [OF inv k] id by simp
  with l np True t pend show ?thesis
    by (auto simp: balanced_def sch_pending_def not_periodic_def)
qed

lemma take_balanced:
  assumes "not_periodic i s" and "takeNextDue clk j s w = (r, q, s1, w1)"
  shows "balanced i False False s s1"
  using assms
  by (auto simp: takeNextDue_def balanced_def sch_pending_def not_periodic_def
      split: if_splits prod.splits option.splits)

lemma step_balanced:
  assumes "sch_inv s" and "not_periodic i s" and "\<not> registers_periodic i e"
    and "sch_step clk e (s, w) = (r, s1, w1)"
  shows "balanced i (grants i e r) (completes i e r) s s1"
proof (cases e)
  case (SRegister j p d)
  then obtain q where "registerJob clk j p d s w = (q, s1, w1)" "r = Some q"
    using assms(4) by (auto split: prod.splits)
  with register_balanced [OF assms(1,2) this(1)] assms(3) SRegister show ?thesis by simp
next
  case (SRequest j)
  with assms(4) request_balanced [OF assms(1,2)] show ?thesis by (auto split: prod.splits)
next
  case (STake j)
  with assms(4) take_balanced [OF assms(2)] show ?thesis by (auto split: prod.splits)
next
  case (SComplete j)
  with assms(4) complete_balanced [OF assms(1,2)] show ?thesis by (auto split: prod.splits)
qed (use assms in \<open>simp add: balanced_def\<close>)

lemma run_balanced:
  assumes "sch_inv s" and "not_periodic i s" and "list_all (\<lambda>e. \<not> registers_periodic i e) es"
    and "sch_run clk es (s, w) = (rs, s1, w1)"
  shows "count (grants i) es rs + of_bool (sch_pending i s) =
    count (completes i) es rs + of_bool (sch_pending i s1)"
  using assms
proof (induction es arbitrary: s w rs)
  case Nil
  then show ?case by (simp add: count_def)
next
  case (Cons e es)
  obtain r s' w' where e: "sch_step clk e (s, w) = (r, s', w')" by (metis prod_cases3)
  obtain rs' where r: "sch_run clk es (s', w') = (rs', s1, w1)" and rs: "rs = r # rs'"
    using Cons.prems(4) e by (auto split: prod.splits)
  have b: "balanced i (grants i e r) (completes i e r) s s'"
    using step_balanced [OF Cons.prems(1,2) _ e] Cons.prems(3) by simp
  have "count (grants i) es rs' + of_bool (sch_pending i s') =
      count (completes i) es rs' + of_bool (sch_pending i s1)"
    using Cons.IH [OF sch_step_inv [OF Cons.prems(1) e] _ _ r] b Cons.prems(3)
    by (simp add: balanced_def)
  with b show ?case by (auto simp: rs count_def balanced_def)
qed

section \<open>Properties\<close>

text \<open>
  C28: In every run the table keeps its invariant: unique identities, valid policies, a period
  exactly for periodic jobs, and at most one active job, which is a registered one.
\<close>

theorem scheduler_run_invariant:
  "sch_inv (fst (snd (sch_run clk es (Scheduler_init capacity, w))))"
proof -
  obtain rs s1 w1 where "sch_run clk es (Scheduler_init capacity, w) = (rs, s1, w1)"
    by (metis prod_cases3)
  with sch_run_inv [OF sch_inv_init this] show ?thesis by simp
qed

text \<open>
  C7: Absolute cadence. Completing a due periodic job moves its deadline, in exact arithmetic, to
  the first point of its own grid after the present, skipping the missed periods without drift; the
  scheduler refuses (\<open>TimeOverflow\<close>, nothing changed) exactly when no later grid point fits 64 bits.
\<close>

theorem sch_complete_periodic:
  assumes "sch_inv s" and "hasActiveJob s"
  defines "j \<equiv> sch_jobs s ! sch_activeIndex s"
  assumes "job_policy j = Periodic" and "clk w = (now, w1)" and "job_deadlineMs j \<le> now"
    and "sch_complete clk (job_id j) s w = (r, s1, w2)"
  defines "d1 \<equiv> unat (job_deadlineMs (sch_jobs s1 ! sch_activeIndex s))"
  shows "(r = SchTimeOverflow \<and> s1 = s \<and>
      (\<forall>k. unat (job_deadlineMs j) + k * unat (job_periodMs j) < 2 ^ 64 \<longrightarrow>
         unat (job_deadlineMs j) + k * unat (job_periodMs j) \<le> unat now)) \<or>
    (r = SchCompleted \<and> \<not> hasActiveJob s1 \<and>
      (\<exists>k. d1 = unat (job_deadlineMs j) + k * unat (job_periodMs j)) \<and>
      unat now < d1 \<and> d1 \<le> unat now + unat (job_periodMs j))"
proof -
  let ?d = "job_deadlineMs j" and ?p = "job_periodMs j"
  have k: "sch_activeIndex s < sch_size s" "sch_size s \<le> length (sch_jobs s)"
    using assms(1,2) by (auto simp: sch_inv_def hasActiveJob_def sch_capacity_def)
  have p: "?p \<noteq> 0" using sch_inv_job [OF assms(1) k(1)] assms(4) by (auto simp: job_ok_def j_def)
  then have pn: "0 < unat ?p" by (simp add: unat_gt_0)
  have dn: "unat ?d \<le> unat now" using assms(6) by (simp add: word_le_nat_alt)
  note grid = next_on_grid [OF pn dn] and elapsed = elapsed_nat [OF assms(6) p]
  show ?thesis
  proof (cases "(kMaxTime - ?d) div ?p \<le> (now - ?d) div ?p")
    case True
    have "r = SchTimeOverflow \<and> s1 = s"
      using assms(2,4,5,7) True by (simp add: sch_complete_def j_def Let_def)
    moreover have "unat ?d + m * unat ?p \<le> unat now" if m: "unat ?d + m * unat ?p < 2 ^ 64" for m
    proof -
      have "m * unat ?p \<le> 2 ^ 64 - 1 - unat ?d" using m by linarith
      then have "m \<le> (2 ^ 64 - 1 - unat ?d) div unat ?p" using pn by (simp add: less_eq_div_iff_mult_less_eq)
      then have "m \<le> (unat now - unat ?d) div unat ?p" using True elapsed by (simp add: word_le_nat_alt)
      then have "m * unat ?p \<le> (unat now - unat ?d) div unat ?p * unat ?p" by (rule mult_le_mono1)
      with grid(2) show ?thesis by linarith
    qed
    ultimately show ?thesis by blast
  next
    case False
    have s1: "r = SchCompleted" "s1 = s\<lparr>sch_jobs := (sch_jobs s)[sch_activeIndex s :=
        j\<lparr>job_deadlineMs := ?d + ((now - ?d) div ?p + 1) * ?p\<rparr>], sch_activeIndex := sch_capacity s\<rparr>"
      using assms(2,4,5,7) False by (simp_all add: sch_complete_def j_def Let_def)
    have d1: "d1 = unat ?d + ((unat now - unat ?d) div unat ?p + 1) * unat ?p"
      using next_deadline_exact [OF assms(6) p] False k by (simp add: d1_def s1(2))
    have "d1 \<le> unat now + unat ?p" using grid(2) by (simp add: d1)
    moreover have "\<exists>m. d1 = unat ?d + m * unat ?p" using d1 by blast
    moreover have "unat now < d1" using grid(1) d1 by simp
    moreover have "\<not> hasActiveJob s1" by (simp add: s1(2) hasActiveJob_def sch_capacity_def)
    ultimately show ?thesis using s1(1) by blast
  qed
qed

definition sample_periodic :: Scheduler where
  "sample_periodic =
     \<lparr>sch_jobs = [\<lparr>job_id = 7, job_policy = Periodic, job_periodMs = 10, job_deadlineMs = 20,
                   job_pending = False\<rparr>, Job_default],
      sch_size = 1, sch_activeIndex = 0\<rparr>"

lemma sch_complete_periodic_witness:
  "\<exists>r s1 w2. sch_complete fake_clock 7 sample_periodic (57 :: u64) = (r, s1, w2) \<and>
     (r = SchTimeOverflow \<or> 57 < unat (job_deadlineMs (sch_jobs s1 ! 0)) \<and>
        unat (job_deadlineMs (sch_jobs s1 ! 0)) \<le> 67)"
proof -
  obtain r s1 w2 where c: "sch_complete fake_clock 7 sample_periodic (57 :: u64) = (r, s1, w2)"
    by (metis prod_cases3)
  have i: "sch_inv sample_periodic" "hasActiveJob sample_periodic"
    "sch_activeIndex sample_periodic = 0" "job_id (sch_jobs sample_periodic ! 0) = 7"
    "job_policy (sch_jobs sample_periodic ! 0) = Periodic"
    "job_deadlineMs (sch_jobs sample_periodic ! 0) = 20"
    "job_periodMs (sch_jobs sample_periodic ! 0) = 10"
    by (simp_all add: sample_periodic_def sch_inv_def sch_capacity_def hasActiveJob_def job_ok_def)
  have due: "job_deadlineMs (sch_jobs sample_periodic ! sch_activeIndex sample_periodic) \<le> 57"
    and per: "job_policy (sch_jobs sample_periodic ! sch_activeIndex sample_periodic) = Periodic"
    and c': "sch_complete fake_clock (job_id (sch_jobs sample_periodic ! sch_activeIndex sample_periodic))
      sample_periodic (57 :: u64) = (r, s1, w2)"
    using i c by simp_all
  have n: "unat (57 :: u64) = 57" "unat (10 :: u64) = 10" by simp_all
  note th = sch_complete_periodic [OF i(1,2) per fake_clock due c', unfolded i(3,6,7) n]
  show ?thesis
  proof (cases "r = SchTimeOverflow")
    case True
    with c show ?thesis by blast
  next
    case False
    with th have "57 < unat (job_deadlineMs (sch_jobs s1 ! 0))"
      "unat (job_deadlineMs (sch_jobs s1 ! 0)) \<le> 57 + 10" by blast+
    then have "unat (job_deadlineMs (sch_jobs s1 ! 0)) \<le> 67" by simp
    with c \<open>57 < unat (job_deadlineMs (sch_jobs s1 ! 0))\<close> show ?thesis by blast
  qed
qed

text \<open>
  Selection. \<open>takeNextDue\<close> refuses while a job is active; otherwise it makes active the first due
  job in registration order and returns its identity, and reports \<open>NoDueJob\<close>, with nothing changed,
  exactly when no registered job is due.
\<close>

theorem takeNextDue_first:
  assumes "clk w = (now, w1)" and "takeNextDue clk i s w = (r, j, s1, w2)"
  shows "(hasActiveJob s \<longrightarrow> r = SchBusy \<and> s1 = s \<and> j = i) \<and>
    (\<not> hasActiveJob s \<and> (\<exists>k < sch_size s. job_due now (sch_jobs s ! k)) \<longrightarrow>
       r = SchTaken \<and>
       (\<exists>k < sch_size s. job_due now (sch_jobs s ! k) \<and> j = job_id (sch_jobs s ! k) \<and>
          s1 = s\<lparr>sch_activeIndex := k\<rparr> \<and> (\<forall>m < k. \<not> job_due now (sch_jobs s ! m)))) \<and>
    (\<not> hasActiveJob s \<and> (\<forall>k < sch_size s. \<not> job_due now (sch_jobs s ! k)) \<longrightarrow>
       r = SchNoDueJob \<and> s1 = s \<and> j = i)"
  using assms due_from_spec [of 0 "sch_size s" now "sch_jobs s"]
  by (auto simp: takeNextDue_def split: option.splits if_splits)

lemma takeNextDue_first_witness:
  "fst (takeNextDue fake_clock 0 (sample_periodic\<lparr>sch_activeIndex := 2\<rparr>) (57 :: u64)) = SchTaken"
proof -
  let ?s = "sample_periodic\<lparr>sch_activeIndex := 2\<rparr>"
  obtain r j s1 w2 where t: "takeNextDue fake_clock 0 ?s (57 :: u64) = (r, j, s1, w2)"
    by (metis prod_cases4)
  have "\<not> hasActiveJob ?s" "\<exists>k < sch_size ?s. job_due 57 (sch_jobs ?s ! k)"
    by (simp_all add: sample_periodic_def hasActiveJob_def sch_capacity_def job_due_def)
  with takeNextDue_first [OF fake_clock t] have "r = SchTaken" by blast
  with t show ?thesis by (simp only: fst_conv)
qed

text \<open>
  C6: Conservation. In every run from an empty scheduler, for a job that is never registered as
  periodic, the startup registrations and accepted requests are exactly the completions plus the
  execution still pending: no request is lost and none is executed twice.
\<close>

theorem scheduler_conservation:
  assumes "list_all (\<lambda>e. \<not> registers_periodic i e) es"
    and "sch_run clk es (Scheduler_init capacity, w) = (rs, s1, w1)"
  shows "count (grants i) es rs = count (completes i) es rs + of_bool (sch_pending i s1)"
proof -
  have "not_periodic i (Scheduler_init capacity)" "\<not> sch_pending i (Scheduler_init capacity)"
    by (simp_all add: not_periodic_def sch_pending_def sch_lookup_def Scheduler_init_def)
  with run_balanced [OF sch_inv_init _ assms] show ?thesis by simp
qed

lemma scheduler_conservation_witness:
  defines "es \<equiv> [SRegister 3 OnDemand 0, SRequest 3, STake 0, SComplete 3, SRequest 3]"
  shows "case sch_run fake_clock es (Scheduler_init 2, 0) of
    (rs, s1, w1) \<Rightarrow> count (grants 3) es rs = count (completes 3) es rs + of_bool (sch_pending 3 s1)"
proof -
  obtain rs s1 w1 where r: "sch_run fake_clock es (Scheduler_init 2, 0) = (rs, s1, w1)"
    by (metis prod_cases3)
  have "list_all (\<lambda>e. \<not> registers_periodic 3 e) es" by (simp add: es_def)
  from scheduler_conservation [OF this r] show ?thesis by (simp only: r prod.case)
qed

end
