(* ===== verification/Bounded_Text.thy ===== *)
theory Bounded_Text
  imports Prelude
begin

text \<open>
  Bounded UTF-8 text (\<open>core/vehicle_data.h\<close>, class template \<open>BoundedText<Capacity>\<close>): the array of
  \<open>Capacity + 1\<close> bytes, its length, and the UTF-8 check as the code runs it over indices. The second
  half proves the check equal to its specification: the bytes are the UTF-8 encoding of some
  sequence of Unicode scalar values.
\<close>

section \<open>The class\<close>

record BoundedText =
  bt_data :: bytes
  bt_length :: nat

definition BoundedText_default :: "nat \<Rightarrow> BoundedText" where
  "BoundedText_default Capacity = \<lparr>bt_data = replicate (Capacity + 1) 0, bt_length = 0\<rparr>"

text \<open>Continuation bytes and the bounds of the second byte, from the lead byte.\<close>

definition utf8_lead :: "u8 \<Rightarrow> (nat \<times> u8 \<times> u8) option" where
  "utf8_lead lead =
     (if 0xC2 \<le> lead \<and> lead \<le> 0xDF then Some (1, 0x80, 0xBF)
      else if 0xE0 \<le> lead \<and> lead \<le> 0xEF
      then Some (2, if lead = 0xE0 then 0xA0 else 0x80, if lead = 0xED then 0x9F else 0xBF)
      else if 0xF0 \<le> lead \<and> lead \<le> 0xF4
      then Some (3, if lead = 0xF0 then 0x90 else 0x80, if lead = 0xF4 then 0x8F else 0xBF)
      else None)"

text \<open>The inner loop: \<open>n\<close> more continuation bytes from \<open>index\<close> on.\<close>

fun utf8_continuation :: "bytes \<Rightarrow> nat \<Rightarrow> nat \<Rightarrow> bool" where
  "utf8_continuation bs index 0 = True"
| "utf8_continuation bs index (Suc n) =
     (if bs ! index < 0x80 \<or> 0xBF < bs ! index then False
      else utf8_continuation bs (index + 1) n)"

function utf8_from :: "bytes \<Rightarrow> nat \<Rightarrow> nat \<Rightarrow> bool" where
  "utf8_from bs len index =
     (if index < len then
        (let lead = bs ! index; index1 = index + 1
         in if lead \<le> 0x7F then utf8_from bs len index1
            else
              (case utf8_lead lead of
                 None \<Rightarrow> False
               | Some (continuationCount, secondMin, secondMax) \<Rightarrow>
                   if len - index1 < continuationCount \<or> bs ! index1 < secondMin \<or>
                      secondMax < bs ! index1
                   then False
                   else if \<not> utf8_continuation bs (index1 + 1) (continuationCount - 1) then False
                   else utf8_from bs len (index1 + continuationCount)))
      else True)"
  by pat_completeness auto
termination
  by (relation "measure (\<lambda>(bs, n, k). n - k)") auto

declare utf8_from.simps [simp del]

definition isWellFormedUtf8 :: "bytes \<Rightarrow> nat \<Rightarrow> bool" where
  "isWellFormedUtf8 bs len = utf8_from bs len 0"

definition BoundedText_clear :: "BoundedText \<Rightarrow> BoundedText" where
  "BoundedText_clear t = t\<lparr>bt_data := (bt_data t)[0 := 0], bt_length := 0\<rparr>"

definition BoundedText_assign :: "bytes option \<Rightarrow> BoundedText \<Rightarrow> bool \<times> BoundedText" where
  "BoundedText_assign v t =
     (case v of
        None \<Rightarrow> (False, BoundedText_clear t)
      | Some mem \<Rightarrow>
          (let len = length (c_string mem)
           in if length (bt_data t) - 1 < len \<or> \<not> isWellFormedUtf8 mem len
              then (False, BoundedText_clear t)
              else (True,
                    t\<lparr>bt_data := (blit (bt_data t) 0 (take len mem))[len := 0], bt_length := len\<rparr>)))"

definition BoundedText_make :: "nat \<Rightarrow> bytes option \<Rightarrow> BoundedText" where
  "BoundedText_make Capacity v = snd (BoundedText_assign v (BoundedText_default Capacity))"

definition BoundedText_eq :: "BoundedText \<Rightarrow> BoundedText \<Rightarrow> bool" where
  "BoundedText_eq a b \<longleftrightarrow>
     bt_length a = bt_length b \<and> take (bt_length a) (bt_data a) = take (bt_length a) (bt_data b)"

section \<open>UTF-8, abstractly\<close>

definition scalar :: "nat \<Rightarrow> bool" where
  "scalar c \<longleftrightarrow> c < 0xD800 \<or> 0xE000 \<le> c \<and> c \<le> 0x10FFFF"

definition utf8_char :: "nat \<Rightarrow> nat list" where
  "utf8_char c =
     (if c < 0x80 then [c]
      else if c < 0x800 then [0xC0 + c div 64, 0x80 + c mod 64]
      else if c < 0x10000 then [0xE0 + c div 4096, 0x80 + c div 64 mod 64, 0x80 + c mod 64]
      else [0xF0 + c div 262144, 0x80 + c div 4096 mod 64, 0x80 + c div 64 mod 64, 0x80 + c mod 64])"

definition utf8_encode :: "nat list \<Rightarrow> bytes" where
  "utf8_encode cs = concat (map (\<lambda>c. map of_nat (utf8_char c)) cs)"

text \<open>The Unicode table of well-formed byte sequences, over the bytes of the text as numbers.\<close>

definition cont :: "nat \<Rightarrow> bool" where
  "cont b \<longleftrightarrow> 0x80 \<le> b \<and> b \<le> 0xBF"

fun utf8_table :: "nat list \<Rightarrow> bool" where
  "utf8_table [] = True"
| "utf8_table (a # r) =
     (if a \<le> 0x7F then utf8_table r
      else if 0xC2 \<le> a \<and> a \<le> 0xDF
      then (case r of b # r1 \<Rightarrow> cont b \<and> utf8_table r1 | _ \<Rightarrow> False)
      else if 0xE0 \<le> a \<and> a \<le> 0xEF
      then (case r of b # c # r1 \<Rightarrow>
              (if a = 0xE0 then 0xA0 else 0x80) \<le> b \<and> b \<le> (if a = 0xED then 0x9F else 0xBF) \<and>
              cont c \<and> utf8_table r1 | _ \<Rightarrow> False)
      else if 0xF0 \<le> a \<and> a \<le> 0xF4
      then (case r of b # c # d # r1 \<Rightarrow>
              (if a = 0xF0 then 0x90 else 0x80) \<le> b \<and> b \<le> (if a = 0xF4 then 0x8F else 0xBF) \<and>
              cont c \<and> cont d \<and> utf8_table r1 | _ \<Rightarrow> False)
      else False)"

text \<open>The six-bit digits of a scalar value.\<close>

lemma six_bits:
  "z < 64 \<Longrightarrow> (w * 64 + z) div 64 = w \<and> (w * 64 + z) mod 64 = z" for w z :: nat
  by simp

lemma div_4096: "c div 4096 = c div 64 div 64" and div_262144: "c div 262144 = c div 64 div 64 div 64"
  for c :: nat
  by (simp_all flip: div_mult2_eq)

lemma six_digits: "\<exists>w z. c = w * 64 + z \<and> z < 64" for c :: nat
  by (intro exI [of _ "c div 64"] exI [of _ "c mod 64"]) simp

text \<open>The table is exactly the sequences of encoded scalar values.\<close>

lemma utf8_table_char:
  assumes "scalar c"
  shows "utf8_table (utf8_char c @ r) = utf8_table r"
proof -
  have max: "c \<le> 0x10FFFF" using assms by (auto simp: scalar_def)
  consider "c < 0x80" | "0x80 \<le> c" "c < 0x800" | "0x800 \<le> c" "c < 0x10000"
    | "0x10000 \<le> c" "c \<le> 0x10FFFF" using max by linarith
  then show ?thesis
  proof cases
    case 2
    obtain x y where x: "c = x * 64 + y" "y < 64" using six_digits by blast
    have "c div 64 = x" "c mod 64 = y" using six_bits x by simp_all
    moreover have "2 \<le> x" "x < 32" using 2 x by linarith+
    ultimately show ?thesis using 2 x(2) by (simp add: utf8_char_def cont_def)
  next
    case 3
    obtain w z where w: "c = w * 64 + z" "z < 64" using six_digits by blast
    obtain x y where x: "w = x * 64 + y" "y < 64" using six_digits by blast
    have "c div 64 = w" "c mod 64 = z" using six_bits w by simp_all
    moreover have "w div 64 = x" "w mod 64 = y" using six_bits x by simp_all
    moreover have "x < 16" "x = 0 \<Longrightarrow> 32 \<le> y" "x = 13 \<Longrightarrow> y < 32"
      using 3 assms w x by (auto simp: scalar_def)
    ultimately show ?thesis using 3 w(2) x(2) by (auto simp: utf8_char_def cont_def div_4096)
  next
    case 4
    obtain v u where v: "c = v * 64 + u" "u < 64" using six_digits by blast
    obtain w z where w: "v = w * 64 + z" "z < 64" using six_digits by blast
    obtain x y where x: "w = x * 64 + y" "y < 64" using six_digits by blast
    have "c div 64 = v" "c mod 64 = u" using six_bits v by simp_all
    moreover have "v div 64 = w" "v mod 64 = z" using six_bits w by simp_all
    moreover have "w div 64 = x" "w mod 64 = y" using six_bits x by simp_all
    moreover have "x < 5" "x = 0 \<Longrightarrow> 16 \<le> y" "x = 4 \<Longrightarrow> y < 16"
      using 4 v w x by auto
    ultimately show ?thesis using 4 v(2) w(2) x(2)
      by (auto simp: utf8_char_def cont_def div_4096 div_262144)
  qed (simp add: utf8_char_def)
qed

lemma utf8_table_split:
  assumes "utf8_table xs" and "xs \<noteq> []"
  shows "\<exists>c r. scalar c \<and> xs = utf8_char c @ r \<and> utf8_table r"
proof -
  obtain a r where xs: "xs = a # r" using assms(2) by (cases xs) auto
  consider "a \<le> 0x7F" | "0xC2 \<le> a" "a \<le> 0xDF" | "0xE0 \<le> a" "a \<le> 0xEF" | "0xF0 \<le> a" "a \<le> 0xF4"
    using assms(1) xs by (auto split: if_splits)
  then show ?thesis
  proof cases
    case 1
    with assms(1) xs show ?thesis
      by (intro exI [of _ a] exI [of _ r]) (simp add: utf8_char_def scalar_def)
  next
    case 2
    then obtain b r1 where r: "r = b # r1" "cont b" "utf8_table r1"
      using assms(1) xs by (auto split: list.splits)
    obtain x y where xy: "a = 0xC0 + x" "b = 0x80 + y" "2 \<le> x" "x < 32" "y < 64"
      using 2 r(2) le_Suc_ex [of "0xC0" a] le_Suc_ex [of "0x80" b] by (auto simp: cont_def)
    have "scalar (x * 64 + y)" "utf8_char (x * 64 + y) = [a, b]"
      using xy by (simp_all add: scalar_def utf8_char_def)
    with r xs show ?thesis by (intro exI [of _ "x * 64 + y"] exI [of _ r1]) simp
  next
    case 3
    then obtain b c r1 where r: "r = b # c # r1" "cont c" "utf8_table r1"
      "(if a = 0xE0 then 0xA0 else 0x80) \<le> b" "b \<le> (if a = 0xED then 0x9F else 0xBF)"
      using assms(1) xs by (auto split: list.splits)
    have b: "0x80 \<le> b" "b < 0xC0" "0x80 \<le> c" "c < 0xC0"
      using r(2,4,5) by (auto simp: cont_def split: if_splits)
    obtain x y z where xyz: "a = 0xE0 + x" "b = 0x80 + y" "c = 0x80 + z"
      using 3 b by (metis le_Suc_ex)
    have lim: "x < 16" "y < 64" "z < 64" "x = 0 \<Longrightarrow> 32 \<le> y" "x = 13 \<Longrightarrow> y < 32"
      using 3 b r(4,5) xyz by (auto split: if_splits)
    let ?c = "(x * 64 + y) * 64 + z"
    have d: "?c div 64 = x * 64 + y" "?c mod 64 = z" "(x * 64 + y) div 64 = x"
      "(x * 64 + y) mod 64 = y" using six_bits lim by blast+
    have e: "?c div 4096 = x" using d by (simp only: div_4096)
    have "0x800 \<le> ?c" "?c < 0x10000" "scalar ?c"
      using lim by (cases "x = 0"; cases "x = 13"; simp add: scalar_def; linarith)+
    moreover from this have "utf8_char ?c = [a, b, c]"
      using d e xyz by (simp add: utf8_char_def)
    ultimately show ?thesis using r xs by (intro exI [of _ ?c] exI [of _ r1]) simp
  next
    case 4
    then obtain b c d r1 where r: "r = b # c # d # r1" "cont c" "cont d" "utf8_table r1"
      "(if a = 0xF0 then 0x90 else 0x80) \<le> b" "b \<le> (if a = 0xF4 then 0x8F else 0xBF)"
      using assms(1) xs by (auto split: list.splits)
    have b: "0x80 \<le> b" "b < 0xC0" "0x80 \<le> c" "c < 0xC0" "0x80 \<le> d" "d < 0xC0"
      using r(2,3,5,6) by (auto simp: cont_def split: if_splits)
    obtain x y z u where xyz: "a = 0xF0 + x" "b = 0x80 + y" "c = 0x80 + z" "d = 0x80 + u"
      using 4 b by (metis le_Suc_ex)
    have lim: "x < 5" "y < 64" "z < 64" "u < 64" "x = 0 \<Longrightarrow> 16 \<le> y" "x = 4 \<Longrightarrow> y < 16"
      using 4 b r(5,6) xyz by (auto split: if_splits)
    let ?c = "((x * 64 + y) * 64 + z) * 64 + u"
    have d: "?c div 64 = (x * 64 + y) * 64 + z" "?c mod 64 = u"
      "((x * 64 + y) * 64 + z) div 64 = x * 64 + y" "((x * 64 + y) * 64 + z) mod 64 = z"
      "(x * 64 + y) div 64 = x" "(x * 64 + y) mod 64 = y" using six_bits lim by blast+
    have e: "?c div 4096 = x * 64 + y" "?c div 262144 = x"
      using d by (simp_all only: div_4096 div_262144)
    have "0x10000 \<le> ?c" "?c \<le> 0x10FFFF"
      using lim by (cases "x = 0"; cases "x = 4"; simp; linarith)+
    moreover from this have "scalar ?c" by (simp add: scalar_def)
    moreover have "utf8_char ?c = [a, b, c, d]"
      using calculation(1) d e xyz by (simp add: utf8_char_def)
    ultimately show ?thesis using r xs by (intro exI [of _ ?c] exI [of _ r1]) simp
  qed
qed

lemma utf8_char_bytes: "scalar c \<Longrightarrow> utf8_char c \<noteq> [] \<and> list_all (\<lambda>b. b < 256) (utf8_char c)"
  by (auto simp: utf8_char_def scalar_def list_all_iff)

lemma utf8_table_iff:
  "utf8_table xs \<longleftrightarrow> (\<exists>cs. list_all scalar cs \<and> xs = concat (map utf8_char cs))"
proof
  show "utf8_table xs \<Longrightarrow> \<exists>cs. list_all scalar cs \<and> xs = concat (map utf8_char cs)"
  proof (induction "length xs" arbitrary: xs rule: less_induct)
    case less
    show ?case
    proof (cases "xs = []")
      case True
      then show ?thesis by (intro exI [of _ "[]"]) simp
    next
      case False
      then obtain c r where c: "scalar c" "xs = utf8_char c @ r" "utf8_table r"
        using utf8_table_split [OF less.prems] by blast
      then have "length r < length xs" using utf8_char_bytes [OF c(1)] by simp
      from less.hyps [OF this c(3)] obtain cs where "list_all scalar cs" "r = concat (map utf8_char cs)"
        by blast
      with c show ?thesis by (intro exI [of _ "c # cs"]) simp
    qed
  qed
  have "list_all scalar cs \<Longrightarrow> utf8_table (concat (map utf8_char cs))" for cs
    by (induction cs) (simp_all add: utf8_table_char)
  then show "\<exists>cs. list_all scalar cs \<and> xs = concat (map utf8_char cs) \<Longrightarrow> utf8_table xs" by blast
qed

text \<open>The index loop of the code runs that table.\<close>

lemma cont_word: "cont (unat b) \<longleftrightarrow> 0x80 \<le> b \<and> b \<le> 0xBF" for b :: u8
  by (simp add: cont_def word_le_nat_alt)

lemma utf8_continuation_iff:
  "utf8_continuation bs k n \<longleftrightarrow> (\<forall>i < n. cont (unat (bs ! (k + i))))"
  by (induction bs k n rule: utf8_continuation.induct)
    (auto simp: cont_word not_less less_Suc_eq_0_disj not_le)

lemma utf8_lead_Some:
  "utf8_lead a = Some (n, lo, hi) \<longleftrightarrow>
     0xC2 \<le> a \<and> a \<le> 0xDF \<and> n = 1 \<and> lo = 0x80 \<and> hi = 0xBF \<or>
     0xE0 \<le> a \<and> a \<le> 0xEF \<and> n = 2 \<and> lo = (if a = 0xE0 then 0xA0 else 0x80) \<and>
       hi = (if a = 0xED then 0x9F else 0xBF) \<or>
     0xF0 \<le> a \<and> a \<le> 0xF4 \<and> n = 3 \<and> lo = (if a = 0xF0 then 0x90 else 0x80) \<and>
       hi = (if a = 0xF4 then 0x8F else 0xBF)"
  by (auto simp: utf8_lead_def word_le_nat_alt)

text \<open>The table, at a lead byte the code classifies.\<close>

definition table_tail :: "nat \<Rightarrow> u8 \<Rightarrow> u8 \<Rightarrow> nat list \<Rightarrow> bool" where
  "table_tail n lo hi r \<longleftrightarrow> n \<le> length r \<and> unat lo \<le> r ! 0 \<and> r ! 0 \<le> unat hi \<and>
     (\<forall>i < n - 1. cont (r ! Suc i)) \<and> utf8_table (drop n r)"

lemma all_less_two: "(\<forall>i < Suc (Suc 0). P i) \<longleftrightarrow> P 0 \<and> P (Suc 0)"
  by (auto simp: less_Suc_eq)

lemma utf8_table_lead:
  assumes "\<not> a \<le> 0x7F"
  shows "utf8_table (unat a # r) \<longleftrightarrow>
    (case utf8_lead a of None \<Rightarrow> False | Some (n, lo, hi) \<Rightarrow> table_tail n lo hi r)"
proof (cases "utf8_lead a")
  case None
  then show ?thesis using assms
    by (auto simp: utf8_lead_def word_le_nat_alt split: if_splits)
next
  case (Some x)
  obtain n lo hi where x: "x = (n, lo, hi)" by (cases x)
  have eqs: "a = 0xE0 \<longleftrightarrow> unat a = 0xE0" "a = 0xED \<longleftrightarrow> unat a = 0xED" "a = 0xF0 \<longleftrightarrow> unat a = 0xF0"
    "a = 0xF4 \<longleftrightarrow> unat a = 0xF4" by (simp_all add: word_unat_eq_iff)
  from Some [unfolded x utf8_lead_Some]
  consider "0xC2 \<le> unat a" "unat a \<le> 0xDF" "n = 1" "unat lo = 0x80" "unat hi = 0xBF"
    | "0xE0 \<le> unat a" "unat a \<le> 0xEF" "n = 2" "unat lo = (if unat a = 0xE0 then 0xA0 else 0x80)"
      "unat hi = (if unat a = 0xED then 0x9F else 0xBF)"
    | "0xF0 \<le> unat a" "unat a \<le> 0xF4" "n = 3" "unat lo = (if unat a = 0xF0 then 0x90 else 0x80)"
      "unat hi = (if unat a = 0xF4 then 0x8F else 0xBF)"
    by (auto simp: word_le_nat_alt eqs)
  then have "utf8_table (unat a # r) = table_tail n lo hi r"
  proof cases
    case 1
    then show ?thesis by (cases r) (simp_all add: table_tail_def cont_def)
  next
    case 2
    then show ?thesis
      by (cases r; cases "List.tl r") (simp_all add: table_tail_def conj_ac)
  next
    case 3
    then show ?thesis
      by (cases r; cases "List.tl r"; cases "List.tl (List.tl r)")
        (simp_all add: table_tail_def numeral_2_eq_2 all_less_two conj_ac)
  qed
  then show ?thesis by (simp add: Some x)
qed

lemma utf8_from_table:
  assumes "len \<le> length bs"
  shows "utf8_from bs len k \<longleftrightarrow> utf8_table (map unat (drop k (take len bs)))"
  using assms
proof (induction bs len k rule: utf8_from.induct)
  case (1 bs len k)
  show ?case
  proof (cases "k < len")
    case False
    then show ?thesis by (simp add: utf8_from.simps [of bs len k])
  next
    case True
    define r where "r = map unat (drop (Suc k) (take len bs))"
    have len: "length r = len - Suc k" using "1.prems" by (simp add: r_def)
    have nth: "i < len - Suc k \<Longrightarrow> r ! i = unat (bs ! (Suc k + i))" for i
      using "1.prems" by (simp add: r_def)
    have split: "map unat (drop k (take len bs)) = unat (bs ! k) # r"
      using True "1.prems" by (simp add: r_def Cons_nth_drop_Suc [symmetric])
    show ?thesis
    proof (cases "bs ! k \<le> 0x7F")
      case ascii: True
      then have "unat (bs ! k) \<le> 0x7F" by (simp add: word_le_nat_alt)
      with ascii True show ?thesis using "1.IH"(1) [OF True refl refl ascii] "1.prems"
        by (simp add: utf8_from.simps [of bs len k] split r_def)
    next
      case lead: False
      show ?thesis
      proof (cases "utf8_lead (bs ! k)")
        case None
        then show ?thesis unfolding split utf8_table_lead [OF lead]
          using True lead by (simp add: utf8_from.simps [of bs len k])
      next
        case (Some x)
        obtain n lo hi where x: "x = (n, lo, hi)" by (cases x)
        have n: "0 < n" using Some [unfolded x utf8_lead_Some] by auto
        have unfold: "utf8_from bs len k \<longleftrightarrow> n \<le> len - Suc k \<and> lo \<le> bs ! Suc k \<and> bs ! Suc k \<le> hi \<and>
            (\<forall>i < n - 1. cont (unat (bs ! (Suc (Suc k) + i)))) \<and> utf8_from bs len (Suc k + n)"
          using True lead Some x
          by (simp add: utf8_from.simps [of bs len k] utf8_continuation_iff not_less not_le Let_def)
            (meson not_le)
        have IH: "utf8_from bs len (Suc k + n) \<longleftrightarrow> utf8_table (drop n r)"
          if "n \<le> len - Suc k" "lo \<le> bs ! Suc k" "bs ! Suc k \<le> hi"
            "\<forall>i < n - 1. cont (unat (bs ! (Suc (Suc k) + i)))"
        proof -
          have "utf8_continuation bs (k + 1 + 1) (n - 1)"
            using that(4) by (simp add: utf8_continuation_iff)
          then show ?thesis
            using "1.IH"(2) [OF True refl refl lead Some [unfolded x] refl refl] that "1.prems"
            by (simp add: r_def not_less drop_map ac_simps)
        qed
        have "utf8_from bs len k \<longleftrightarrow> table_tail n lo hi r"
        proof (cases "n \<le> len - Suc k")
          case True
          then have "r ! 0 = unat (bs ! Suc k)" and "\<forall>i < n - 1. r ! Suc i = unat (bs ! (Suc (Suc k) + i))"
            using nth n by simp_all
          then show ?thesis unfolding unfold table_tail_def word_le_nat_alt [of lo]
              word_le_nat_alt [of _ hi]
            using True IH by (auto simp: word_le_nat_alt len)
        next
          case False
          then show ?thesis by (simp add: unfold table_tail_def len)
        qed
        then show ?thesis unfolding split utf8_table_lead [OF lead] Some x by simp
      qed
    qed
  qed
qed

section \<open>Canonical texts\<close>

definition utf8_text :: "bytes \<Rightarrow> bool" where
  "utf8_text s \<longleftrightarrow> utf8_table (map unat s)"

lemma isWellFormedUtf8_text: "len \<le> length bs \<Longrightarrow> isWellFormedUtf8 bs len \<longleftrightarrow> utf8_text (take len bs)"
  by (simp add: isWellFormedUtf8_def utf8_from_table utf8_text_def)

lemma map_of_nat_unat: "map of_nat (map unat s) = s" for s :: bytes
  by (simp add: map_idI)

lemma utf8_char_unat: "scalar c \<Longrightarrow> map (unat \<circ> (of_nat :: nat \<Rightarrow> u8)) (utf8_char c) = utf8_char c"
  using utf8_char_bytes [of c]
  by (auto simp: list_all_iff unat_of_nat intro!: map_idI)

lemma utf8_encode_unat: "list_all scalar cs \<Longrightarrow> map unat (utf8_encode cs) = concat (map utf8_char cs)"
  by (induction cs) (simp_all add: utf8_encode_def utf8_char_unat)

lemma utf8_text_iff: "utf8_text s \<longleftrightarrow> (\<exists>cs. list_all scalar cs \<and> s = utf8_encode cs)"
proof
  assume "utf8_text s"
  then obtain cs where cs: "list_all scalar cs" "map unat s = concat (map utf8_char cs)"
    unfolding utf8_text_def utf8_table_iff by blast
  then have "s = utf8_encode cs"
    by (metis utf8_encode_unat map_of_nat_unat)
  with cs(1) show "\<exists>cs. list_all scalar cs \<and> s = utf8_encode cs" by blast
next
  assume "\<exists>cs. list_all scalar cs \<and> s = utf8_encode cs"
  then show "utf8_text s" unfolding utf8_text_def utf8_table_iff using utf8_encode_unat by blast
qed

text \<open>
  What an object holds: its text, the invariant of the class, and the form every object has that
  was assigned once after construction (the form of all texts inside samples and records).
\<close>

definition bt_text :: "BoundedText \<Rightarrow> bytes" where
  "bt_text t = take (bt_length t) (bt_data t)"

definition bt_inv :: "nat \<Rightarrow> BoundedText \<Rightarrow> bool" where
  "bt_inv Capacity t \<longleftrightarrow> length (bt_data t) = Capacity + 1 \<and> bt_length t \<le> Capacity \<and>
     bt_data t ! bt_length t = 0 \<and> nul_free (bt_text t) \<and> utf8_text (bt_text t)"

definition canonical :: "nat \<Rightarrow> bytes \<Rightarrow> BoundedText" where
  "canonical Capacity s =
     \<lparr>bt_data = s @ replicate (Capacity + 1 - length s) 0, bt_length = length s\<rparr>"

definition acceptable :: "nat \<Rightarrow> bytes \<Rightarrow> bool" where
  "acceptable Capacity s \<longleftrightarrow> length s \<le> Capacity \<and> utf8_text s"

lemma take_c_string: "take (length (c_string mem)) mem = c_string mem"
  unfolding c_string_def by (rule takeWhile_eq_take [symmetric])

lemma length_c_string: "length (c_string mem) \<le> length mem"
  by (simp add: c_string_def length_takeWhile_le)

lemma utf8_text_Nil [simp]: "utf8_text []"
  by (simp add: utf8_text_def)

lemma canonical_Nil: "canonical Capacity [] = BoundedText_default Capacity"
  by (simp add: canonical_def BoundedText_default_def)

lemma bt_text_canonical [simp]: "bt_text (canonical Capacity s) = s"
  by (simp add: bt_text_def canonical_def)

lemma bt_length_canonical [simp]: "bt_length (canonical Capacity s) = length s"
  by (simp add: canonical_def)

lemma c_string_canonical: "nul_free s \<Longrightarrow> length s \<le> Capacity \<Longrightarrow> c_string (bt_data (canonical Capacity s)) = s"
  by (simp add: canonical_def c_string_padded)

lemma canonical_inject [simp]: "canonical Capacity s = canonical Capacity s' \<longleftrightarrow> s = s'"
  by (metis bt_text_canonical)

lemma canonical_inv: "nul_free s \<Longrightarrow> acceptable Capacity s \<Longrightarrow> bt_inv Capacity (canonical Capacity s)"
  by (auto simp: bt_inv_def acceptable_def) (auto simp: canonical_def nth_append)

lemma BoundedText_eq_text: "BoundedText_eq a b \<longleftrightarrow> bt_length a = bt_length b \<and> bt_text a = bt_text b"
  by (auto simp: BoundedText_eq_def bt_text_def)

lemma BoundedText_eq_inv:
  "bt_inv m a \<Longrightarrow> bt_inv n b \<Longrightarrow> BoundedText_eq a b \<longleftrightarrow> bt_text a = bt_text b"
  unfolding BoundedText_eq_text bt_inv_def bt_text_def by (metis add_leD1 length_take min.absorb2 le_add1 order_trans)

lemma assign_text:
  assumes "length (bt_data t) = Capacity + 1"
  shows "BoundedText_assign (Some mem) t =
    (if acceptable Capacity (c_string mem)
     then (True, \<lparr>bt_data = c_string mem @ 0 # drop (length (c_string mem) + 1) (bt_data t),
                  bt_length = length (c_string mem)\<rparr>)
     else (False, BoundedText_clear t))"
  using assms
  by (auto simp: BoundedText_assign_def isWellFormedUtf8_text length_c_string take_c_string acceptable_def
      blit_zero list_update_append Let_def Cons_nth_drop_Suc [symmetric])

lemma assign_default:
  "BoundedText_assign (Some mem) (BoundedText_default Capacity) =
    (if acceptable Capacity (c_string mem) then (True, canonical Capacity (c_string mem))
     else (False, BoundedText_default Capacity))"
  by (auto simp: assign_text BoundedText_default_def BoundedText_clear_def canonical_def acceptable_def
      Suc_diff_le)

lemma c_string_inv: "bt_inv Capacity t \<Longrightarrow> c_string (bt_data t) = bt_text t"
  using id_take_nth_drop [of "bt_length t" "bt_data t"]
  by (simp add: bt_inv_def bt_text_def) (metis c_string_terminated)

lemma clear_inv: "bt_inv Capacity t \<Longrightarrow> bt_inv Capacity (BoundedText_clear t) \<and> bt_text (BoundedText_clear t) = []"
  by (simp add: bt_inv_def BoundedText_clear_def bt_text_def nul_free_def)

lemma assign_accepted_inv:
  assumes "length (bt_data t) = Capacity + 1" and "acceptable Capacity (c_string mem)"
  shows "bt_inv Capacity (snd (BoundedText_assign (Some mem) t)) \<and>
    bt_text (snd (BoundedText_assign (Some mem) t)) = c_string mem"
  using assms by (simp add: assign_text bt_inv_def bt_text_def acceptable_def nth_append)

section \<open>Properties\<close>

text \<open>
  C16: the UTF-8 check accepts a byte sequence exactly when it is the UTF-8 encoding of a sequence
  of Unicode scalar values: overlong forms, surrogates, values above U+10FFFF, stray and missing
  continuation bytes are all rejected, and nothing else is. The bytes that follow the text in
  memory have no influence.
\<close>

lemma utf8_check_exact:
  "isWellFormedUtf8 (s @ rest) (length s) \<longleftrightarrow> (\<exists>cs. list_all scalar cs \<and> s = utf8_encode cs)"
  by (simp add: isWellFormedUtf8_text utf8_text_iff)

text \<open>
  C33: assigning to a bounded text keeps the invariant of the class (the array's size, the length
  within the capacity, the terminating NUL, no NUL inside, well-formed UTF-8). It accepts exactly
  the strings that fit and are well formed, stores an accepted string byte for byte (never
  repaired, normalised or truncated, whatever the object held before), and on rejection - a null
  pointer included - leaves the empty text. What \<open>c_str\<close> then shows is that text.
\<close>

lemma bounded_text_assign:
  assumes "bt_inv Capacity t"
  shows "case BoundedText_assign v t of (ok, t') \<Rightarrow>
    bt_inv Capacity t' \<and>
    (ok \<longleftrightarrow> (\<exists>mem cs. v = Some mem \<and> length (c_string mem) \<le> Capacity \<and>
       list_all scalar cs \<and> c_string mem = utf8_encode cs)) \<and>
    bt_text t' = (case v of Some mem \<Rightarrow> if ok then c_string mem else [] | None \<Rightarrow> []) \<and>
    c_string (bt_data t') = bt_text t'"
proof (cases v)
  case None
  then show ?thesis using clear_inv [OF assms] c_string_inv by (auto simp: BoundedText_assign_def)
next
  case (Some mem)
  have len: "length (bt_data t) = Capacity + 1" using assms by (simp add: bt_inv_def)
  show ?thesis
  proof (cases "acceptable Capacity (c_string mem)")
    case True
    then obtain t' where t': "BoundedText_assign (Some mem) t = (True, t')"
      by (simp add: assign_text [OF len])
    with assign_accepted_inv [OF len True] have "bt_inv Capacity t'" "bt_text t' = c_string mem"
      by simp_all
    then show ?thesis using True c_string_inv [of Capacity t']
      by (auto simp: Some t' acceptable_def utf8_text_iff)
  next
    case False
    then show ?thesis using clear_inv [OF assms] c_string_inv [of Capacity "BoundedText_clear t"]
      by (auto simp: Some assign_text [OF len] acceptable_def utf8_text_iff)
  qed
qed

text \<open>The text ``km'' over an older one, with the bytes of the object as they end up.\<close>

lemma bounded_text_assign_witness:
  "bt_inv 3 (canonical 3 [0x56]) \<and>
   BoundedText_assign (Some [0x6B, 0x6D, 0, 0xFF]) (canonical 3 [0x56]) =
     (True, \<lparr>bt_data = [0x6B, 0x6D, 0, 0], bt_length = 2\<rparr>) \<and>
   bt_inv 3 \<lparr>bt_data = [0x6B, 0x6D, 0, 0], bt_length = 2\<rparr>"
proof -
  have inv: "bt_inv 3 (canonical 3 [0x56])"
    by code_simp
  have run: "BoundedText_assign (Some [0x6B, 0x6D, 0, 0xFF]) (canonical 3 [0x56]) =
     (True, \<lparr>bt_data = [0x6B, 0x6D, 0, 0], bt_length = 2\<rparr>)"
    by code_simp
  show ?thesis using inv run bounded_text_assign [OF inv, of "Some [0x6B, 0x6D, 0, 0xFF]"]
    by simp
qed

end
