(* ===== verification/Vehicle_Data.thy ===== *)
theory Vehicle_Data
  imports Bounded_Text
begin

text \<open>
  Normalised vehicle samples (\<open>core/vehicle_data.h\<close>): the enumerations, \<open>NormalizedVehicleValue\<close>,
  \<open>NormalizedVehicleSample\<close> and their factories. An enumeration with an underlying byte may hold any
  byte in C++ (a \<open>static_cast\<close> from wire data yields one); the last constructor of each datatype
  carries such a byte. A \<open>double\<close> is its IEEE 754 bit pattern, as the serialisers read it. A
  factory takes the caller's object and returns it with its verdict.
\<close>

type_synonym double = u64

section \<open>Enumerations\<close>

datatype VehicleValueType =
    ValueType_None
  | ValueType_Numeric
  | ValueType_Boolean
  | ValueType_Text
  | ValueType_Other u8

datatype VehicleAvailability =
    Availability_Available
  | Availability_Unsupported
  | Availability_Unavailable
  | Availability_Pending
  | Availability_Unknown
  | Availability_Other u8

datatype VehicleQuality =
    Quality_ValidCurrent
  | Quality_Stale
  | Quality_InvalidOrUnknown
  | Quality_Other u8

datatype VehicleSource =
    Source_Obd
  | Source_Uds
  | Source_PassiveCan
  | Source_Derived
  | Source_Unknown
  | Source_Other u8

text \<open>Every enumerator is the byte of its position; the casts in both directions.\<close>

primrec valueType_to_u8 :: "VehicleValueType \<Rightarrow> u8" where
  "valueType_to_u8 ValueType_None = 0"
| "valueType_to_u8 ValueType_Numeric = 1"
| "valueType_to_u8 ValueType_Boolean = 2"
| "valueType_to_u8 ValueType_Text = 3"
| "valueType_to_u8 (ValueType_Other b) = b"

primrec availability_to_u8 :: "VehicleAvailability \<Rightarrow> u8" where
  "availability_to_u8 Availability_Available = 0"
| "availability_to_u8 Availability_Unsupported = 1"
| "availability_to_u8 Availability_Unavailable = 2"
| "availability_to_u8 Availability_Pending = 3"
| "availability_to_u8 Availability_Unknown = 4"
| "availability_to_u8 (Availability_Other b) = b"

primrec quality_to_u8 :: "VehicleQuality \<Rightarrow> u8" where
  "quality_to_u8 Quality_ValidCurrent = 0"
| "quality_to_u8 Quality_Stale = 1"
| "quality_to_u8 Quality_InvalidOrUnknown = 2"
| "quality_to_u8 (Quality_Other b) = b"

primrec source_to_u8 :: "VehicleSource \<Rightarrow> u8" where
  "source_to_u8 Source_Obd = 0"
| "source_to_u8 Source_Uds = 1"
| "source_to_u8 Source_PassiveCan = 2"
| "source_to_u8 Source_Derived = 3"
| "source_to_u8 Source_Unknown = 4"
| "source_to_u8 (Source_Other b) = b"

definition valueType_of_u8 :: "u8 \<Rightarrow> VehicleValueType" where
  "valueType_of_u8 b =
     (if b = 0 then ValueType_None else if b = 1 then ValueType_Numeric
      else if b = 2 then ValueType_Boolean else if b = 3 then ValueType_Text
      else ValueType_Other b)"

definition availability_of_u8 :: "u8 \<Rightarrow> VehicleAvailability" where
  "availability_of_u8 b =
     (if b = 0 then Availability_Available else if b = 1 then Availability_Unsupported
      else if b = 2 then Availability_Unavailable else if b = 3 then Availability_Pending
      else if b = 4 then Availability_Unknown else Availability_Other b)"

definition quality_of_u8 :: "u8 \<Rightarrow> VehicleQuality" where
  "quality_of_u8 b =
     (if b = 0 then Quality_ValidCurrent else if b = 1 then Quality_Stale
      else if b = 2 then Quality_InvalidOrUnknown else Quality_Other b)"

definition source_of_u8 :: "u8 \<Rightarrow> VehicleSource" where
  "source_of_u8 b =
     (if b = 0 then Source_Obd else if b = 1 then Source_Uds else if b = 2 then Source_PassiveCan
      else if b = 3 then Source_Derived else if b = 4 then Source_Unknown else Source_Other b)"

section \<open>Values\<close>

definition kMaxTextLength :: nat where "kMaxTextLength = 17"

record NormalizedVehicleValue =
  nv_type :: VehicleValueType
  nv_numeric :: double
  nv_boolean :: bool
  nv_text :: BoundedText

definition NormalizedVehicleValue_default :: NormalizedVehicleValue where
  "NormalizedVehicleValue_default =
     \<lparr>nv_type = ValueType_None, nv_numeric = 0, nv_boolean = False,
      nv_text = BoundedText_default kMaxTextLength\<rparr>"

definition value_numeric :: "double \<Rightarrow> NormalizedVehicleValue" where
  "value_numeric v = NormalizedVehicleValue_default\<lparr>nv_type := ValueType_Numeric, nv_numeric := v\<rparr>"

definition value_boolean :: "bool \<Rightarrow> NormalizedVehicleValue" where
  "value_boolean v = NormalizedVehicleValue_default\<lparr>nv_type := ValueType_Boolean, nv_boolean := v\<rparr>"

definition value_tryText ::
  "bytes option \<Rightarrow> NormalizedVehicleValue \<Rightarrow> bool \<times> NormalizedVehicleValue" where
  "value_tryText v result =
     (case BoundedText_assign v (BoundedText_default kMaxTextLength) of
        (False, _) \<Rightarrow> (False, result)
      | (True, text) \<Rightarrow>
          (True, NormalizedVehicleValue_default\<lparr>nv_type := ValueType_Text, nv_text := text\<rparr>))"

text \<open>\<open>std::isfinite\<close>: the exponent field is not all ones.\<close>

definition isfinite :: "double \<Rightarrow> bool" where
  "isfinite d \<longleftrightarrow> (drop_bit 52 d) AND 0x7FF \<noteq> 0x7FF"

section \<open>Samples\<close>

definition kMaxSignalIdLength :: nat where "kMaxSignalIdLength = 64"
definition kMaxUnitLength :: nat where "kMaxUnitLength = 32"

record NormalizedVehicleSample =
  smp_signalId :: BoundedText
  smp_unit :: BoundedText
  smp_value :: NormalizedVehicleValue
  smp_source :: VehicleSource
  smp_quality :: VehicleQuality
  smp_availability :: VehicleAvailability
  smp_timestampMs :: u64

definition NormalizedVehicleSample_default :: NormalizedVehicleSample where
  "NormalizedVehicleSample_default =
     \<lparr>smp_signalId = BoundedText_default kMaxSignalIdLength,
      smp_unit = BoundedText_default kMaxUnitLength,
      smp_value = NormalizedVehicleValue_default, smp_source = Source_Unknown,
      smp_quality = Quality_InvalidOrUnknown, smp_availability = Availability_Unknown,
      smp_timestampMs = 0\<rparr>"

abbreviation smp_valueType :: "NormalizedVehicleSample \<Rightarrow> VehicleValueType" where
  "smp_valueType s \<equiv> nv_type (smp_value s)"

definition makeAvailable ::
  "bytes option \<Rightarrow> bytes option \<Rightarrow> VehicleSource \<Rightarrow> VehicleQuality \<Rightarrow> u64 \<Rightarrow>
   NormalizedVehicleValue \<Rightarrow> NormalizedVehicleSample \<Rightarrow> bool \<times> NormalizedVehicleSample" where
  "makeAvailable signalId unit source quality timestampMs v result =
     (case BoundedText_assign signalId (BoundedText_default kMaxSignalIdLength) of
        (False, _) \<Rightarrow> (False, result)
      | (True, normalizedId) \<Rightarrow>
          (case BoundedText_assign unit (BoundedText_default kMaxUnitLength) of
             (False, _) \<Rightarrow> (False, result)
           | (True, normalizedUnit) \<Rightarrow>
               if nv_type v = ValueType_None then (False, result)
               else (True, NormalizedVehicleSample_default
                 \<lparr>smp_signalId := normalizedId, smp_unit := normalizedUnit, smp_value := v,
                  smp_source := source, smp_quality := quality,
                  smp_availability := Availability_Available, smp_timestampMs := timestampMs\<rparr>)))"

definition tryNumeric ::
  "bytes option \<Rightarrow> double \<Rightarrow> bytes option \<Rightarrow> VehicleSource \<Rightarrow> VehicleQuality \<Rightarrow> u64 \<Rightarrow>
   NormalizedVehicleSample \<Rightarrow> bool \<times> NormalizedVehicleSample" where
  "tryNumeric signalId v unit source quality timestampMs result =
     makeAvailable signalId unit source quality timestampMs (value_numeric v) result"

definition tryBoolean ::
  "bytes option \<Rightarrow> bool \<Rightarrow> bytes option \<Rightarrow> VehicleSource \<Rightarrow> VehicleQuality \<Rightarrow> u64 \<Rightarrow>
   NormalizedVehicleSample \<Rightarrow> bool \<times> NormalizedVehicleSample" where
  "tryBoolean signalId v unit source quality timestampMs result =
     makeAvailable signalId unit source quality timestampMs (value_boolean v) result"

definition tryText ::
  "bytes option \<Rightarrow> bytes option \<Rightarrow> bytes option \<Rightarrow> VehicleSource \<Rightarrow> VehicleQuality \<Rightarrow> u64 \<Rightarrow>
   NormalizedVehicleSample \<Rightarrow> bool \<times> NormalizedVehicleSample" where
  "tryText signalId v unit source quality timestampMs result =
     (case value_tryText v NormalizedVehicleValue_default of
        (False, _) \<Rightarrow> (False, result)
      | (True, normalizedValue) \<Rightarrow>
          makeAvailable signalId unit source quality timestampMs normalizedValue result)"

definition tryStatus ::
  "bytes option \<Rightarrow> VehicleAvailability \<Rightarrow> bytes option \<Rightarrow> VehicleSource \<Rightarrow> VehicleQuality \<Rightarrow> u64 \<Rightarrow>
   NormalizedVehicleSample \<Rightarrow> bool \<times> NormalizedVehicleSample" where
  "tryStatus signalId availability unit source quality timestampMs result =
     (if availability = Availability_Available then (False, result)
      else
        (case BoundedText_assign signalId (BoundedText_default kMaxSignalIdLength) of
           (False, _) \<Rightarrow> (False, result)
         | (True, normalizedId) \<Rightarrow>
             (case BoundedText_assign unit (BoundedText_default kMaxUnitLength) of
                (False, _) \<Rightarrow> (False, result)
              | (True, normalizedUnit) \<Rightarrow>
                  (True, NormalizedVehicleSample_default
                    \<lparr>smp_signalId := normalizedId, smp_unit := normalizedUnit,
                     smp_source := source, smp_quality := quality,
                     smp_availability := availability, smp_timestampMs := timestampMs\<rparr>))))"

definition hasValue :: "NormalizedVehicleSample \<Rightarrow> bool" where
  "hasValue s \<longleftrightarrow> smp_availability s = Availability_Available \<and> smp_valueType s \<noteq> ValueType_None \<and>
     smp_quality s \<noteq> Quality_InvalidOrUnknown"

definition isCurrent :: "NormalizedVehicleSample \<Rightarrow> bool" where
  "isCurrent s \<longleftrightarrow> hasValue s \<and> smp_quality s = Quality_ValidCurrent"

section \<open>The casts are exact\<close>

lemma valueType_casts [simp]: "valueType_to_u8 (valueType_of_u8 b) = b"
  by (simp add: valueType_of_u8_def)

lemma availability_casts [simp]: "availability_to_u8 (availability_of_u8 b) = b"
  by (simp add: availability_of_u8_def)

lemma quality_casts [simp]: "quality_to_u8 (quality_of_u8 b) = b"
  by (simp add: quality_of_u8_def)

lemma source_casts [simp]: "source_to_u8 (source_of_u8 b) = b"
  by (simp add: source_of_u8_def)

section \<open>What a sample carries\<close>

text \<open>
  A reading is the content of a value. \<open>value_of\<close> is the object the factories build for it, and
  the invariant of samples says that every part has the form the factories give it: canonical
  texts, a value of the shape of its type, and a value exactly when it is available.
\<close>

datatype reading = No_reading | Number double | Flag bool | Words bytes

primrec value_of :: "reading \<Rightarrow> NormalizedVehicleValue" where
  "value_of No_reading = NormalizedVehicleValue_default"
| "value_of (Number d) = value_numeric d"
| "value_of (Flag b) = value_boolean b"
| "value_of (Words w) = NormalizedVehicleValue_default
     \<lparr>nv_type := ValueType_Text, nv_text := canonical kMaxTextLength w\<rparr>"

definition text_ok :: "nat \<Rightarrow> bytes \<Rightarrow> bool" where
  "text_ok Capacity s \<longleftrightarrow> nul_free s \<and> acceptable Capacity s"

primrec reading_ok :: "reading \<Rightarrow> bool" where
  "reading_ok No_reading = True"
| "reading_ok (Number d) = True"
| "reading_ok (Flag b) = True"
| "reading_ok (Words w) = text_ok kMaxTextLength w"

definition sample_of ::
  "bytes \<Rightarrow> bytes \<Rightarrow> reading \<Rightarrow> VehicleSource \<Rightarrow> VehicleQuality \<Rightarrow> VehicleAvailability \<Rightarrow> u64 \<Rightarrow>
   NormalizedVehicleSample" where
  "sample_of i u rd source quality availability t =
     \<lparr>smp_signalId = canonical kMaxSignalIdLength i, smp_unit = canonical kMaxUnitLength u,
      smp_value = value_of rd, smp_source = source, smp_quality = quality,
      smp_availability = availability, smp_timestampMs = t\<rparr>"

definition sample_inv :: "NormalizedVehicleSample \<Rightarrow> bool" where
  "sample_inv s \<longleftrightarrow> (\<exists>i u rd source quality availability t.
     s = sample_of i u rd source quality availability t \<and> text_ok kMaxSignalIdLength i \<and>
     text_ok kMaxUnitLength u \<and> reading_ok rd \<and>
     (rd = No_reading \<longleftrightarrow> availability \<noteq> Availability_Available))"

lemma sample_invI:
  "text_ok kMaxSignalIdLength i \<Longrightarrow> text_ok kMaxUnitLength u \<Longrightarrow> reading_ok rd \<Longrightarrow>
   (rd = No_reading \<longleftrightarrow> availability \<noteq> Availability_Available) \<Longrightarrow>
   sample_inv (sample_of i u rd source quality availability t)"
  unfolding sample_inv_def by blast

lemma sample_invE:
  assumes "sample_inv s"
  obtains i u rd source quality availability t where
    "s = sample_of i u rd source quality availability t" "text_ok kMaxSignalIdLength i"
    "text_ok kMaxUnitLength u" "reading_ok rd"
    "rd = No_reading \<longleftrightarrow> availability \<noteq> Availability_Available"
  using assms unfolding sample_inv_def by blast

lemma sample_of_sel [simp]:
  "smp_signalId (sample_of i u rd sc q a t) = canonical kMaxSignalIdLength i"
  "smp_unit (sample_of i u rd sc q a t) = canonical kMaxUnitLength u"
  "smp_value (sample_of i u rd sc q a t) = value_of rd"
  "smp_source (sample_of i u rd sc q a t) = sc"
  "smp_quality (sample_of i u rd sc q a t) = q"
  "smp_availability (sample_of i u rd sc q a t) = a"
  "smp_timestampMs (sample_of i u rd sc q a t) = t"
  by (simp_all add: sample_of_def)

lemma value_of_sel [simp]:
  "nv_type (value_of rd) = (case rd of No_reading \<Rightarrow> ValueType_None | Number _ \<Rightarrow> ValueType_Numeric
     | Flag _ \<Rightarrow> ValueType_Boolean | Words _ \<Rightarrow> ValueType_Text)"
  "nv_numeric (value_of (Number d)) = d"
  "nv_boolean (value_of (Flag b)) = b"
  "nv_text (value_of (Words w)) = canonical kMaxTextLength w"
  by (simp_all add: value_numeric_def value_boolean_def NormalizedVehicleValue_default_def
      split: reading.split)

lemma hasValue_sample_of:
  "rd = No_reading \<longleftrightarrow> a \<noteq> Availability_Available \<Longrightarrow>
   hasValue (sample_of i u rd sc q a t) \<longleftrightarrow> rd \<noteq> No_reading \<and> q \<noteq> Quality_InvalidOrUnknown"
  by (auto simp: hasValue_def split: reading.split)

lemma NormalizedVehicleSample_default_of:
  "NormalizedVehicleSample_default =
     sample_of [] [] No_reading Source_Unknown Quality_InvalidOrUnknown Availability_Unknown 0"
  by (simp add: NormalizedVehicleSample_default_def sample_of_def canonical_Nil)

section \<open>The factories\<close>

definition fits :: "nat \<Rightarrow> bytes option \<Rightarrow> bool" where
  "fits Capacity v = (case v of None \<Rightarrow> False | Some mem \<Rightarrow> acceptable Capacity (c_string mem))"

definition factory ::
  "bytes option \<Rightarrow> bytes option \<Rightarrow> bool \<Rightarrow> reading \<Rightarrow> VehicleSource \<Rightarrow> VehicleQuality \<Rightarrow>
   VehicleAvailability \<Rightarrow> u64 \<Rightarrow> NormalizedVehicleSample \<Rightarrow> bool \<times> NormalizedVehicleSample" where
  "factory i u allowed rd source quality availability t result =
     (if allowed \<and> fits kMaxSignalIdLength i \<and> fits kMaxUnitLength u
      then (True, sample_of (c_string (the i)) (c_string (the u)) rd source quality availability t)
      else (False, result))"

lemma assign_fits:
  "BoundedText_assign v (BoundedText_default Capacity) =
     (if fits Capacity v then (True, canonical Capacity (c_string (the v)))
      else (False, BoundedText_default Capacity))"
proof (cases v)
  case None
  then show ?thesis
    by (simp add: fits_def BoundedText_assign_def BoundedText_clear_def BoundedText_default_def)
qed (simp add: fits_def assign_default)

lemma makeAvailable_factory:
  "rd \<noteq> No_reading \<Longrightarrow> makeAvailable i u sc q t (value_of rd) r =
     factory i u True rd sc q Availability_Available t r"
  by (auto simp: makeAvailable_def assign_fits factory_def sample_of_def
      NormalizedVehicleSample_default_def split: reading.splits)

lemma tryNumeric_factory:
  "tryNumeric i d u sc q t r = factory i u True (Number d) sc q Availability_Available t r"
  using makeAvailable_factory [of "Number d"] by (simp add: tryNumeric_def)

lemma tryBoolean_factory:
  "tryBoolean i b u sc q t r = factory i u True (Flag b) sc q Availability_Available t r"
  using makeAvailable_factory [of "Flag b"] by (simp add: tryBoolean_def)

lemma value_tryText_fits:
  "value_tryText v r = (if fits kMaxTextLength v then (True, value_of (Words (c_string (the v))))
     else (False, r))"
  by (simp add: value_tryText_def assign_fits)

lemma tryText_factory:
  "tryText i v u sc q t r = factory i u (fits kMaxTextLength v) (Words (c_string (the v))) sc q
     Availability_Available t r"
  using makeAvailable_factory [of "Words (c_string (the v))" i u sc q t r]
  by (auto simp: tryText_def value_tryText_fits factory_def simp del: value_of.simps)

lemma tryStatus_factory:
  "tryStatus i a u sc q t r = factory i u (a \<noteq> Availability_Available) No_reading sc q a t r"
  by (simp add: tryStatus_def assign_fits factory_def sample_of_def
      NormalizedVehicleSample_default_def)

lemmas factories = tryNumeric_factory tryBoolean_factory tryText_factory tryStatus_factory

lemma fits_text_ok: "fits Capacity v \<Longrightarrow> text_ok Capacity (c_string (the v))"
  by (auto simp: fits_def text_ok_def split: option.splits)

lemma factory_inv:
  "allowed \<longrightarrow> reading_ok rd \<and> (rd = No_reading \<longleftrightarrow> a \<noteq> Availability_Available) \<Longrightarrow>
   case factory i u allowed rd sc q a t r of (ok, s) \<Rightarrow> if ok then sample_inv s else s = r"
  by (auto simp: factory_def fits_text_ok intro: sample_invI)

declare value_of.simps [simp del]

section \<open>Properties\<close>

text \<open>
  C34: each factory succeeds exactly when the signal id and the unit (and a text value) are
  well-formed strings within their capacities - and, for a status, when the availability is not
  ``available'' - and then publishes a sample that carries exactly its arguments and satisfies the
  invariant of samples. On failure the caller's object is untouched.
\<close>

lemma sample_factories:
  "tryNumeric i d u sc q t r = factory i u True (Number d) sc q Availability_Available t r \<and>
   tryBoolean i b u sc q t r = factory i u True (Flag b) sc q Availability_Available t r \<and>
   tryText i v u sc q t r = factory i u (fits kMaxTextLength v) (Words (c_string (the v))) sc q
     Availability_Available t r \<and>
   tryStatus i a u sc q t r = factory i u (a \<noteq> Availability_Available) No_reading sc q a t r \<and>
   list_all (\<lambda>(ok, s). if ok then sample_inv s else s = r)
     [tryNumeric i d u sc q t r, tryBoolean i b u sc q t r, tryText i v u sc q t r,
      tryStatus i a u sc q t r]"
  by (simp only: factories list.pred_inject simp_thms)
    (intro conjI factory_inv; simp add: fits_text_ok)

text \<open>
  The two questions a reader asks of a sample: it has a value exactly when it is available and its
  quality is known, and it is current exactly when the quality is moreover ``valid, current''.
\<close>

lemma sample_queries:
  assumes "sample_inv s"
  shows "(hasValue s \<longleftrightarrow> smp_availability s = Availability_Available \<and>
      smp_quality s \<noteq> Quality_InvalidOrUnknown) \<and>
    (isCurrent s \<longleftrightarrow> smp_availability s = Availability_Available \<and>
      smp_quality s = Quality_ValidCurrent) \<and>
    (smp_valueType s = ValueType_None \<longleftrightarrow> smp_availability s \<noteq> Availability_Available)"
  using assms by (elim sample_invE) (auto simp: hasValue_def isCurrent_def split: reading.split)

end
