(* ===== verification/Vehicle_Data_Store.thy ===== *)
theory Vehicle_Data_Store
  imports Vehicle_Data
begin

text \<open>
  The store of the newest sample per signal (\<open>core/vehicle_data_store.h\<close>, class template
  \<open>VehicleDataStore<Capacity>\<close>): an array of \<open>Capacity\<close> samples filled from the front. The contract of
  such a store is the locale \<open>newest_store\<close>; its client lemma determines the contents of the store
  from the whole history of what was offered to it, and the model of the class is its instance.
\<close>

section \<open>The class\<close>

datatype VehicleDataStoreUpsertResult = Inserted | Updated | IgnoredOlder | StoreFull

datatype VehicleDataStoreSnapshotResult = SnapshotComplete | SnapshotInsufficientCapacity

record VehicleDataStore =
  vds_samples :: "NormalizedVehicleSample list"
  vds_size :: nat

definition VehicleDataStore_init :: "nat \<Rightarrow> VehicleDataStore" where
  "VehicleDataStore_init Capacity =
     \<lparr>vds_samples = replicate Capacity NormalizedVehicleSample_default, vds_size = 0\<rparr>"

abbreviation vds_capacity :: "VehicleDataStore \<Rightarrow> nat" where
  "vds_capacity s \<equiv> length (vds_samples s)"

text \<open>The loop of \<open>upsert\<close> from an index on, with what follows it.\<close>

function upsert_from ::
  "NormalizedVehicleSample \<Rightarrow> VehicleDataStore \<Rightarrow> nat \<Rightarrow>
   VehicleDataStoreUpsertResult \<times> VehicleDataStore" where
  "upsert_from incoming s index =
     (if index < vds_size s then
        (let stored = vds_samples s ! index
         in if \<not> BoundedText_eq (smp_signalId stored) (smp_signalId incoming)
            then upsert_from incoming s (index + 1)
            else if smp_timestampMs incoming < smp_timestampMs stored then (IgnoredOlder, s)
            else (Updated, s\<lparr>vds_samples := (vds_samples s)[index := incoming]\<rparr>))
      else if vds_size s = vds_capacity s then (StoreFull, s)
      else (Inserted, s\<lparr>vds_samples := (vds_samples s)[vds_size s := incoming],
                        vds_size := vds_size s + 1\<rparr>))"
  by pat_completeness auto
termination
  by (relation "measure (\<lambda>(x, s, k). vds_size s - k)") auto

declare upsert_from.simps [simp del]

definition upsert ::
  "NormalizedVehicleSample \<Rightarrow> VehicleDataStore \<Rightarrow> VehicleDataStoreUpsertResult \<times> VehicleDataStore" where
  "upsert incoming s = upsert_from incoming s 0"

function lookup_from ::
  "BoundedText \<Rightarrow> NormalizedVehicleSample \<Rightarrow> VehicleDataStore \<Rightarrow> nat \<Rightarrow>
   bool \<times> NormalizedVehicleSample" where
  "lookup_from signalId result s index =
     (if index < vds_size s then
        (if BoundedText_eq (smp_signalId (vds_samples s ! index)) signalId
         then (True, vds_samples s ! index)
         else lookup_from signalId result s (index + 1))
      else (False, result))"
  by pat_completeness auto
termination
  by (relation "measure (\<lambda>(i, r, s, k). vds_size s - k)") auto

declare lookup_from.simps [simp del]

definition store_lookup ::
  "BoundedText \<Rightarrow> VehicleDataStore \<Rightarrow> NormalizedVehicleSample \<Rightarrow> bool \<times> NormalizedVehicleSample" where
  "store_lookup signalId s result = lookup_from signalId result s 0"

text \<open>
  The caller's buffer is \<open>None\<close> for a null pointer. The result is the status, the buffer and the
  number of samples.
\<close>

definition store_snapshot ::
  "VehicleDataStore \<Rightarrow> NormalizedVehicleSample list option \<Rightarrow> nat \<Rightarrow>
   VehicleDataStoreSnapshotResult \<times> NormalizedVehicleSample list option \<times> nat" where
  "store_snapshot s out outputCapacity =
     (if outputCapacity < vds_size s \<or> vds_size s \<noteq> 0 \<and> out = None
      then (SnapshotInsufficientCapacity, out, vds_size s)
      else (SnapshotComplete,
            map_option (\<lambda>o'. fold (\<lambda>i o'. o'[i := vds_samples s ! i]) [0 ..< vds_size s] o') out,
            vds_size s))"

section \<open>The contract of a store\<close>

text \<open>
  A store holds a list of entries with distinct keys, in the order in which the keys first came.
  An offered entry with a new key is appended while there is room; one with a known key replaces the
  entry it finds unless it is older.
\<close>

definition firsts :: "'k list \<Rightarrow> 'k list" where
  "firsts ks = rev (remdups (rev ks))"

lemma firsts_simps [simp]:
  "firsts [] = []"
  "firsts (ks @ [k]) = (if k \<in> set ks then firsts ks else firsts ks @ [k])"
  by (simp_all add: firsts_def)

lemma firsts_facts [simp]: "set (firsts ks) = set ks" "distinct (firsts ks)"
  by (simp_all add: firsts_def)

text \<open>The newest of a list of offers, by a stamp: the later of two with equal stamps.\<close>

definition newest :: "('a \<Rightarrow> 'b :: linorder) \<Rightarrow> 'a list \<Rightarrow> 'a" where
  "newest stamp xs = foldl (\<lambda>a x. if stamp x < stamp a then a else x) (List.hd xs) (List.tl xs)"

lemma newest_single [simp]: "newest stamp [x] = x"
  by (simp add: newest_def)

lemma newest_snoc:
  "xs \<noteq> [] \<Longrightarrow> newest stamp (xs @ [x]) =
     (if stamp x < stamp (newest stamp xs) then newest stamp xs else x)"
  by (simp add: newest_def)

lemma newest_max: "xs \<noteq> [] \<Longrightarrow> newest stamp xs \<in> set xs \<and> (\<forall>x \<in> set xs. stamp x \<le> stamp (newest stamp xs))"
  by (induction xs rule: rev_nonempty_induct) (auto simp: newest_snoc intro: order.trans)

definition history :: "('a \<Rightarrow> 'k) \<Rightarrow> ('a \<Rightarrow> 'b :: linorder) \<Rightarrow> nat \<Rightarrow> 'a list \<Rightarrow> 'a list" where
  "history key stamp cap xs =
     map (\<lambda>k. newest stamp (filter (\<lambda>x. key x = k) xs)) (take cap (firsts (map key xs)))"

lemma history_keys:
  "map key (history key stamp cap xs) = take cap (firsts (map key xs))"
proof -
  have "key (newest stamp (filter (\<lambda>x. key x = k) xs)) = k" if "k \<in> set (map key xs)" for k
    using that newest_max [of "filter (\<lambda>x. key x = k) xs" stamp]
    by (auto simp: filter_empty_conv)
  then show ?thesis
    by (auto simp: history_def intro!: map_idI dest!: in_set_takeD)
qed

lemma history_Nil [simp]: "history key stamp cap [] = []"
  by (simp add: history_def)

lemma history_snoc_new:
  assumes "key x \<notin> key ` set (history key stamp cap xs)"
  shows "history key stamp cap (xs @ [x]) =
    (if length (history key stamp cap xs) < cap then history key stamp cap xs @ [x]
     else history key stamp cap xs)"
proof -
  let ?F = "firsts (map key xs)"
  have new: "key x \<notin> set (take cap ?F)"
    using assms by (metis history_keys image_set)
  have same: "map (\<lambda>k. newest stamp (filter (\<lambda>y. key y = k) (xs @ [x]))) (take cap ?F) =
      history key stamp cap xs"
    using new by (auto simp: history_def)
  have len: "length (history key stamp cap xs) = min cap (length ?F)"
    by (simp add: history_def min.commute)
  show ?thesis
  proof (cases "key x \<in> set ?F")
    case True
    with new have "cap \<le> length ?F" by (metis linorder_le_cases take_all)
    with True same len show ?thesis by (simp add: history_def)
  next
    case False
    then have "y \<in> set xs \<Longrightarrow> key y \<noteq> key x" for y by (metis firsts_facts(1) imageI image_set)
    then have none: "filter (\<lambda>y. key y = key x) xs = []" by (simp add: filter_empty_conv)
    show ?thesis
    proof (cases "length ?F < cap")
      case True
      with False same len none show ?thesis by (simp add: history_def)
    next
      case full: False
      with False same len show ?thesis by (simp add: history_def)
    qed
  qed
qed

lemma history_snoc_known:
  assumes "j < length (history key stamp cap xs)" and "key (history key stamp cap xs ! j) = key x"
  shows "history key stamp cap (xs @ [x]) =
    (if stamp x < stamp (history key stamp cap xs ! j) then history key stamp cap xs
     else (history key stamp cap xs)[j := x])"
proof -
  let ?F = "firsts (map key xs)" and ?H = "history key stamp cap xs"
  have j: "j < length (take cap ?F)" using assms(1) by (simp add: history_def)
  have kj: "take cap ?F ! j = key x"
    using assms by (metis history_keys nth_map)
  then have mem: "key x \<in> set ?F" using j by (metis in_set_takeD nth_mem)
  have Hj: "?H ! j = newest stamp (filter (\<lambda>y. key y = key x) xs)"
    using j kj by (simp add: history_def)
  have "history key stamp cap (xs @ [x]) =
      map (\<lambda>k. newest stamp (filter (\<lambda>y. key y = k) (xs @ [x]))) (take cap ?F)"
    using mem by (simp add: history_def)
  also have "\<dots> = ?H[j := newest stamp (filter (\<lambda>y. key y = key x) (xs @ [x]))]"
  proof (rule nth_equalityI)
    fix i assume "i < length (map (\<lambda>k. newest stamp (filter (\<lambda>y. key y = k) (xs @ [x]))) (take cap ?F))"
    then have i: "i < length (take cap ?F)" by simp
    have "i \<noteq> j \<Longrightarrow> take cap ?F ! i \<noteq> key x"
      using i j kj nth_eq_iff_index_eq [of "take cap ?F" i j] by (simp add: distinct_take)
    then show "map (\<lambda>k. newest stamp (filter (\<lambda>y. key y = k) (xs @ [x]))) (take cap ?F) ! i =
        ?H[j := newest stamp (filter (\<lambda>y. key y = key x) (xs @ [x]))] ! i"
      using i j kj by (cases "i = j") (auto simp: history_def)
  qed (simp add: history_def)
  also have "newest stamp (filter (\<lambda>y. key y = key x) (xs @ [x])) =
      (if stamp x < stamp (?H ! j) then ?H ! j else x)"
  proof -
    have "filter (\<lambda>y. key y = key x) xs \<noteq> []" using mem by (auto simp: filter_empty_conv)
    then show ?thesis by (simp add: Hj newest_snoc)
  qed
  finally show ?thesis by simp
qed

locale newest_store =
  fixes inv :: "'s \<Rightarrow> bool" and entries :: "'s \<Rightarrow> 'a list" and capacity :: "'s \<Rightarrow> nat"
    and allowed :: "'a \<Rightarrow> bool" and put :: "'a \<Rightarrow> 's \<Rightarrow> 's" and key :: "'a \<Rightarrow> 'k"
    and stamp :: "'a \<Rightarrow> 'b :: linorder"
  assumes put_inv: "inv s \<Longrightarrow> allowed x \<Longrightarrow> inv (put x s)"
    and put_capacity: "inv s \<Longrightarrow> allowed x \<Longrightarrow> capacity (put x s) = capacity s"
    and put_new: "inv s \<Longrightarrow> allowed x \<Longrightarrow> key x \<notin> key ` set (entries s) \<Longrightarrow>
      entries (put x s) = (if length (entries s) < capacity s then entries s @ [x] else entries s)"
    and put_known: "inv s \<Longrightarrow> allowed x \<Longrightarrow> j < length (entries s) \<Longrightarrow>
      distinct (map key (entries s)) \<Longrightarrow> key (entries s ! j) = key x \<Longrightarrow>
      entries (put x s) = (if stamp x < stamp (entries s ! j) then entries s
                           else (entries s)[j := x])"
begin

lemma fold_put_inv:
  "inv s \<Longrightarrow> list_all allowed xs \<Longrightarrow> inv (fold put xs s) \<and> capacity (fold put xs s) = capacity s"
  by (induction xs arbitrary: s) (simp_all add: put_inv put_capacity)

lemma entries_history:
  assumes "inv s" and "entries s = []" and "list_all allowed xs"
  shows "entries (fold put xs s) = history key stamp (capacity s) xs"
  using assms(3)
proof (induction xs rule: rev_induct)
  case Nil
  then show ?case using assms by simp
next
  case (snoc x xs)
  let ?s = "fold put xs s" and ?H = "history key stamp (capacity s) xs"
  have s: "inv ?s" "capacity ?s = capacity s" "entries ?s = ?H" "allowed x"
    using snoc fold_put_inv [OF assms(1), of xs] by auto
  show ?case
  proof (cases "key x \<in> key ` set ?H")
    case False
    then show ?thesis using put_new [OF s(1,4)] s by (simp add: history_snoc_new)
  next
    case True
    then obtain j where j: "j < length ?H" "key (?H ! j) = key x"
      by (auto simp: in_set_conv_nth)
    have "distinct (map key ?H)" by (simp add: history_keys distinct_take)
    with put_known [OF s(1,4)] j s show ?thesis by (simp add: history_snoc_known [OF j])
  qed
qed

end

section \<open>The class keeps the contract\<close>

definition store_entries :: "VehicleDataStore \<Rightarrow> NormalizedVehicleSample list" where
  "store_entries s = take (vds_size s) (vds_samples s)"

definition sample_key :: "NormalizedVehicleSample \<Rightarrow> bytes" where
  "sample_key x = bt_text (smp_signalId x)"

definition store_inv :: "VehicleDataStore \<Rightarrow> bool" where
  "store_inv s \<longleftrightarrow> vds_size s \<le> vds_capacity s \<and> list_all sample_inv (store_entries s)"

definition upsert_all :: "NormalizedVehicleSample list \<Rightarrow> VehicleDataStore \<Rightarrow> VehicleDataStore" where
  "upsert_all xs s = fold (\<lambda>x s. snd (upsert x s)) xs s"

lemma signalId_eq_key:
  "sample_inv a \<Longrightarrow> sample_inv b \<Longrightarrow>
   BoundedText_eq (smp_signalId a) (smp_signalId b) \<longleftrightarrow> sample_key a = sample_key b"
  by (auto elim!: sample_invE simp: BoundedText_eq_text sample_key_def)

lemma store_entries_nth: "store_inv s \<Longrightarrow> j < vds_size s \<Longrightarrow> vds_samples s ! j = store_entries s ! j"
  by (simp add: store_entries_def)

lemma length_store_entries: "store_inv s \<Longrightarrow> length (store_entries s) = vds_size s"
  by (simp add: store_entries_def store_inv_def)

lemma store_inv_nth: "store_inv s \<Longrightarrow> j < vds_size s \<Longrightarrow> sample_inv (vds_samples s ! j)"
  by (metis length_store_entries list_all_length store_entries_nth store_inv_def)

lemma upsert_from_new:
  assumes "\<forall>j. k \<le> j \<and> j < vds_size s \<longrightarrow>
    \<not> BoundedText_eq (smp_signalId (vds_samples s ! j)) (smp_signalId x)"
  shows "upsert_from x s k =
    (if vds_size s = vds_capacity s then (StoreFull, s)
     else (Inserted, s\<lparr>vds_samples := (vds_samples s)[vds_size s := x], vds_size := vds_size s + 1\<rparr>))"
  using assms
proof (induction x s k rule: upsert_from.induct)
  case (1 x s k)
  then show ?case by (cases "k < vds_size s") (simp_all add: upsert_from.simps [of x s k] Let_def)
qed

lemma upsert_from_known:
  assumes "k \<le> j" and "j < vds_size s"
    and "BoundedText_eq (smp_signalId (vds_samples s ! j)) (smp_signalId x)"
    and "\<forall>i. k \<le> i \<and> i < j \<longrightarrow> \<not> BoundedText_eq (smp_signalId (vds_samples s ! i)) (smp_signalId x)"
  shows "upsert_from x s k =
    (if smp_timestampMs x < smp_timestampMs (vds_samples s ! j) then (IgnoredOlder, s)
     else (Updated, s\<lparr>vds_samples := (vds_samples s)[j := x]\<rparr>))"
  using assms
proof (induction x s k rule: upsert_from.induct)
  case (1 x s k)
  show ?case
  proof (cases "k = j")
    case True
    with "1.prems" show ?thesis by (simp add: upsert_from.simps [of x s j] Let_def)
  next
    case False
    with "1.prems" have "k < j" "\<not> BoundedText_eq (smp_signalId (vds_samples s ! k)) (smp_signalId x)"
      by auto
    with 1 show ?thesis by (simp add: upsert_from.simps [of x s k] Let_def)
  qed
qed

lemma upsert_new:
  assumes "store_inv s" and "sample_inv x" and "sample_key x \<notin> sample_key ` set (store_entries s)"
  shows "upsert x s =
    (if vds_size s = vds_capacity s then (StoreFull, s)
     else (Inserted, s\<lparr>vds_samples := (vds_samples s)[vds_size s := x], vds_size := vds_size s + 1\<rparr>))"
proof -
  have "\<not> BoundedText_eq (smp_signalId (vds_samples s ! j)) (smp_signalId x)" if "j < vds_size s" for j
    using assms that store_inv_nth [OF assms(1) that]
    by (metis image_eqI length_store_entries nth_mem signalId_eq_key store_entries_nth)
  then show ?thesis unfolding upsert_def by (intro upsert_from_new) simp
qed

lemma upsert_known:
  assumes "store_inv s" and "sample_inv x" and "distinct (map sample_key (store_entries s))"
    and "j < vds_size s" and "sample_key (store_entries s ! j) = sample_key x"
  shows "upsert x s =
    (if smp_timestampMs x < smp_timestampMs (store_entries s ! j) then (IgnoredOlder, s)
     else (Updated, s\<lparr>vds_samples := (vds_samples s)[j := x]\<rparr>))"
proof -
  have eq: "BoundedText_eq (smp_signalId (vds_samples s ! i)) (smp_signalId x) \<longleftrightarrow> i = j"
    if "i < vds_size s" for i
    using assms that store_inv_nth [OF assms(1) that]
      nth_eq_iff_index_eq [OF assms(3), of i j]
    by (simp add: length_store_entries signalId_eq_key store_entries_nth)
  show ?thesis unfolding upsert_def
    using upsert_from_known [of 0 j s x] eq assms(1,4) by (simp add: store_entries_nth)
qed

lemma store_entries_insert:
  "store_inv s \<Longrightarrow> vds_size s \<noteq> vds_capacity s \<Longrightarrow>
   store_entries (s\<lparr>vds_samples := (vds_samples s)[vds_size s := x], vds_size := vds_size s + 1\<rparr>) =
     store_entries s @ [x]"
  by (simp add: store_entries_def store_inv_def take_Suc_conv_app_nth)

lemma store_entries_update:
  "store_entries (s\<lparr>vds_samples := (vds_samples s)[j := x]\<rparr>) = (store_entries s)[j := x]"
  by (simp add: store_entries_def take_update_swap)

text \<open>For the contract an object also keeps its keys distinct.\<close>

definition keyed_inv :: "VehicleDataStore \<Rightarrow> bool" where
  "keyed_inv s \<longleftrightarrow> store_inv s \<and> distinct (map sample_key (store_entries s))"

lemma upsert_keyed:
  assumes "keyed_inv s" and "sample_inv x"
  shows "keyed_inv (snd (upsert x s)) \<and> vds_capacity (snd (upsert x s)) = vds_capacity s"
proof (cases "sample_key x \<in> sample_key ` set (store_entries s)")
  case False
  have s: "store_inv s" using assms by (simp add: keyed_inv_def)
  show ?thesis
  proof (cases "vds_size s = vds_capacity s")
    case True
    then show ?thesis using assms upsert_new [OF s assms(2) False] by simp
  next
    case room: False
    let ?s = "s\<lparr>vds_samples := (vds_samples s)[vds_size s := x], vds_size := vds_size s + 1\<rparr>"
    have "store_entries ?s = store_entries s @ [x]" by (rule store_entries_insert [OF s room])
    moreover have "vds_size ?s \<le> vds_capacity ?s" using s room by (simp add: store_inv_def)
    ultimately have "keyed_inv ?s" using assms False by (auto simp: keyed_inv_def store_inv_def)
    then show ?thesis using upsert_new [OF s assms(2) False] room by simp
  qed
next
  case True
  have s: "store_inv s" "distinct (map sample_key (store_entries s))"
    using assms by (simp_all add: keyed_inv_def)
  from True obtain j where j: "j < vds_size s" "sample_key (store_entries s ! j) = sample_key x"
    by (auto simp: in_set_conv_nth length_store_entries [OF s(1)])
  have "map sample_key ((store_entries s)[j := x]) = map sample_key (store_entries s)"
    using j by (metis list_update_id map_update)
  then have "keyed_inv (s\<lparr>vds_samples := (vds_samples s)[j := x]\<rparr>)"
    using s assms(2) unfolding keyed_inv_def store_inv_def store_entries_update
    by (auto simp: list_all_iff dest!: set_update_subset_insert [THEN subsetD])
  then show ?thesis using upsert_known [OF s(1) assms(2) s(2) j] assms by simp
qed

interpretation vds: newest_store keyed_inv store_entries vds_capacity sample_inv
  "\<lambda>x s. snd (upsert x s)" sample_key smp_timestampMs
proof unfold_locales
  fix s x assume s: "keyed_inv s" and x: "sample_inv x"
  show "keyed_inv (snd (upsert x s))" "vds_capacity (snd (upsert x s)) = vds_capacity s"
    using upsert_keyed [OF s x] by simp_all
  have i: "store_inv s" using s by (simp add: keyed_inv_def)
  have le: "vds_size s \<le> vds_capacity s" using i by (simp add: store_inv_def)
  show "store_entries (snd (upsert x s)) =
      (if length (store_entries s) < vds_capacity s then store_entries s @ [x] else store_entries s)"
    if "sample_key x \<notin> sample_key ` set (store_entries s)"
    using upsert_new [OF i x that] store_entries_insert [OF i] le
    by (simp add: length_store_entries [OF i])
  fix j
  show "store_entries (snd (upsert x s)) =
      (if smp_timestampMs x < smp_timestampMs (store_entries s ! j) then store_entries s
       else (store_entries s)[j := x])"
    if "j < length (store_entries s)" "distinct (map sample_key (store_entries s))"
      "sample_key (store_entries s ! j) = sample_key x"
    using upsert_known [OF i x that(2) _ that(3)] that(1)
    by (simp add: length_store_entries [OF i] store_entries_update)
qed

lemma init_keyed:
  "keyed_inv (VehicleDataStore_init cap)" "store_entries (VehicleDataStore_init cap) = []"
  "vds_capacity (VehicleDataStore_init cap) = cap"
  by (simp_all add: keyed_inv_def store_inv_def VehicleDataStore_init_def store_entries_def)

section \<open>Reading\<close>

lemma store_snapshot_entries:
  assumes "store_inv s" and "vds_size s \<le> n" and "n \<le> length out"
  shows "store_snapshot s (Some out) n =
    (SnapshotComplete, Some (store_entries s @ drop (length (store_entries s)) out), length (store_entries s))"
proof -
  have "map (\<lambda>i. vds_samples s ! i) [0 ..< vds_size s] = store_entries s"
    using assms(1) by (simp add: store_entries_def store_inv_def map_nth_upt)
  then show ?thesis using assms length_store_entries [OF assms(1)]
    by (simp add: store_snapshot_def fold_update_upt)
qed

lemma lookup_from_find:
  "store_inv s \<Longrightarrow> lookup_from t r s k =
     (case find (\<lambda>x. BoundedText_eq (smp_signalId x) t) (drop k (store_entries s)) of
        None \<Rightarrow> (False, r) | Some x \<Rightarrow> (True, x))"
proof (induction t r s k rule: lookup_from.induct)
  case (1 t r s k)
  show ?case
  proof (cases "k < vds_size s")
    case True
    then have "drop k (store_entries s) = vds_samples s ! k # drop (Suc k) (store_entries s)"
      using "1.prems" by (simp add: Cons_nth_drop_Suc length_store_entries store_entries_nth)
    then show ?thesis using True 1 by (simp add: lookup_from.simps [of t r s k])
  next
    case False
    then show ?thesis using "1.prems"
      by (simp add: lookup_from.simps [of t r s k] length_store_entries)
  qed
qed

section \<open>The store as a finite map\<close>

definition store_map :: "VehicleDataStore \<Rightarrow> bytes \<rightharpoonup> NormalizedVehicleSample" where
  "store_map s k = find (\<lambda>x. sample_key x = k) (store_entries s)"

definition map_upsert ::
  "nat \<Rightarrow> NormalizedVehicleSample \<Rightarrow> (bytes \<rightharpoonup> NormalizedVehicleSample) \<Rightarrow>
   VehicleDataStoreUpsertResult \<times> (bytes \<rightharpoonup> NormalizedVehicleSample)" where
  "map_upsert cap x m =
     (case m (sample_key x) of
        None \<Rightarrow> if card (dom m) = cap then (StoreFull, m) else (Inserted, m(sample_key x \<mapsto> x))
      | Some y \<Rightarrow> if smp_timestampMs x < smp_timestampMs y then (IgnoredOlder, m)
                  else (Updated, m(sample_key x \<mapsto> x)))"

lemma find_append: "find P (xs @ ys) = (case find P xs of None \<Rightarrow> find P ys | Some x \<Rightarrow> Some x)"
  by (induction xs) simp_all

lemma find_distinct:
  assumes "distinct (map f xs)"
  shows "find (\<lambda>x. f x = k) xs = Some y \<longleftrightarrow> y \<in> set xs \<and> f y = k"
  using assms by (induction xs) auto

lemma store_map_Some:
  "keyed_inv s \<Longrightarrow> store_map s k = Some y \<longleftrightarrow> y \<in> set (store_entries s) \<and> sample_key y = k"
  by (simp add: store_map_def keyed_inv_def find_distinct)

lemma store_map_None: "store_map s k = None \<longleftrightarrow> k \<notin> sample_key ` set (store_entries s)"
  by (auto simp: store_map_def find_None_iff)

lemma card_store_map:
  assumes "keyed_inv s"
  shows "card (dom (store_map s)) = vds_size s"
proof -
  have "dom (store_map s) = set (map sample_key (store_entries s))"
    using store_map_None [of s] by (auto simp: dom_def)
  then show ?thesis using assms distinct_card [of "map sample_key (store_entries s)"]
    by (simp add: keyed_inv_def length_store_entries)
qed

lemma store_map_new:
  assumes "store_entries s' = store_entries s @ [x]" and "store_map s (sample_key x) = None"
  shows "store_map s' = (store_map s)(sample_key x \<mapsto> x)"
proof
  fix k
  show "store_map s' k = ((store_map s)(sample_key x \<mapsto> x)) k"
    using assms by (cases "store_map s k") (auto simp: store_map_def find_append split: option.splits)
qed

lemma store_map_known:
  assumes "keyed_inv s" "keyed_inv s'" and "store_entries s' = (store_entries s)[j := x]"
    and "j < length (store_entries s)" and "sample_key (store_entries s ! j) = sample_key x"
  shows "store_map s' = (store_map s)(sample_key x \<mapsto> x)"
proof
  fix k
  let ?E = "store_entries s"
  have d: "i < length ?E \<Longrightarrow> sample_key (?E ! i) = sample_key x \<Longrightarrow> i = j" for i
    using assms(1,4,5) nth_eq_iff_index_eq [of "map sample_key ?E" i j] by (simp add: keyed_inv_def)
  show "store_map s' k = ((store_map s)(sample_key x \<mapsto> x)) k"
  proof (cases "k = sample_key x")
    case True
    then show ?thesis using assms by (simp add: store_map_Some set_update_memI)
  next
    case False
    have "y \<in> set (?E[j := x]) \<and> sample_key y = k \<longleftrightarrow> y \<in> set ?E \<and> sample_key y = k" for y
    proof -
      have "(\<exists>i < length ?E. ?E[j := x] ! i = y \<and> sample_key y = k) \<longleftrightarrow>
          (\<exists>i < length ?E. ?E ! i = y \<and> sample_key y = k)"
        using False assms(4,5) by (metis nth_list_update)
      then show ?thesis by (auto simp: in_set_conv_nth)
    qed
    then have "store_map s' k = Some y \<longleftrightarrow> store_map s k = Some y" for y
      using assms(1,2,3) by (simp add: store_map_Some)
    then show ?thesis using False by (metis fun_upd_other option.exhaust)
  qed
qed

lemma upsert_refines:
  assumes s: "keyed_inv s" and x: "sample_inv x"
  shows "map_upsert (vds_capacity s) x (store_map s) =
    (fst (upsert x s), store_map (snd (upsert x s)))"
proof -
  have i: "store_inv s" using s by (simp add: keyed_inv_def)
  show ?thesis
  proof (cases "store_map s (sample_key x)")
    case None
    then have new: "sample_key x \<notin> sample_key ` set (store_entries s)" by (simp add: store_map_None)
    then show ?thesis using None card_store_map [OF s] upsert_new [OF i x new]
      by (simp add: map_upsert_def store_map_new [OF store_entries_insert [OF i] None, symmetric])
  next
    case (Some y)
    then have "y \<in> set (store_entries s)" "sample_key y = sample_key x"
      using s by (simp_all add: store_map_Some)
    then obtain j where j: "j < length (store_entries s)" "store_entries s ! j = y"
      by (auto simp: in_set_conv_nth)
    then have key: "sample_key (store_entries s ! j) = sample_key x"
      using \<open>sample_key y = sample_key x\<close> by simp
    have up: "upsert x s = (if smp_timestampMs x < smp_timestampMs y then (IgnoredOlder, s)
        else (Updated, s\<lparr>vds_samples := (vds_samples s)[j := x]\<rparr>))"
      using upsert_known [OF i x _ _ key] s j by (simp add: keyed_inv_def length_store_entries)
    show ?thesis
    proof (cases "smp_timestampMs x < smp_timestampMs y")
      case True
      then show ?thesis by (simp add: map_upsert_def Some up)
    next
      case False
      have "keyed_inv (s\<lparr>vds_samples := (vds_samples s)[j := x]\<rparr>)"
        using upsert_keyed [OF s x] False by (simp add: up)
      from store_map_known [OF s this store_entries_update j(1) key] False show ?thesis
        by (simp add: map_upsert_def Some up)
    qed
  qed
qed

lemma store_lookup_map:
  assumes "keyed_inv s" and "bt_inv kMaxSignalIdLength t"
  shows "store_lookup t s r = (case store_map s (bt_text t) of None \<Rightarrow> (False, r) | Some x \<Rightarrow> (True, x))"
proof -
  have i: "store_inv s" using assms by (simp add: keyed_inv_def)
  have "BoundedText_eq (smp_signalId x) t \<longleftrightarrow> sample_key x = bt_text t"
    if "x \<in> set (store_entries s)" for x
  proof -
    have "sample_inv x" using i that by (auto simp: store_inv_def list_all_iff)
    moreover have "bt_length t = length (bt_text t)" using assms(2) by (simp add: bt_inv_def bt_text_def)
    ultimately show ?thesis by (auto elim!: sample_invE simp: BoundedText_eq_text sample_key_def)
  qed
  then show ?thesis unfolding store_lookup_def lookup_from_find [OF i] store_map_def
    by (simp cong: find_cong)
qed

section \<open>Properties\<close>

text \<open>
  C35: the store implements a finite map of bounded size from signal ids to samples. Looking up a
  signal id returns the map's entry, and leaves the caller's object alone where there is none.
  Upserting answers and changes the map as specified: a new id is inserted while there is room and
  refused otherwise, a known one is replaced unless the offered sample is older, and no other
  entry changes. The invariant of the object and its capacity are kept.
\<close>

lemma store_refines_map:
  assumes "keyed_inv s" and "sample_inv x" and "bt_inv kMaxSignalIdLength t"
  shows "store_lookup t s r =
      (case store_map s (bt_text t) of None \<Rightarrow> (False, r) | Some y \<Rightarrow> (True, y)) \<and>
    (case upsert x s of (result, s') \<Rightarrow>
       keyed_inv s' \<and> vds_capacity s' = vds_capacity s \<and>
       (result, store_map s') = map_upsert (vds_capacity s) x (store_map s))"
  using store_lookup_map [OF assms(1,3)] upsert_keyed [OF assms(1,2)] upsert_refines [OF assms(1,2)]
  by (simp add: case_prod_beta)

text \<open>A sample of a one-letter signal.\<close>

definition flag_sample :: "u8 \<Rightarrow> u64 \<Rightarrow> NormalizedVehicleSample" where
  "flag_sample c t =
     sample_of [c] [] (Flag True) Source_Obd Quality_ValidCurrent Availability_Available t"

lemma flag_sample_simps:
  "sample_key (flag_sample c t) = [c]" "smp_timestampMs (flag_sample c t) = t"
  by (simp_all add: flag_sample_def sample_key_def)

lemma flag_sample_inv: "text_ok kMaxSignalIdLength [c] \<Longrightarrow> sample_inv (flag_sample c t)"
  unfolding flag_sample_def by (rule sample_invI) (simp_all add: text_ok_def nul_free_def acceptable_def)

lemma letters_ok: "text_ok kMaxSignalIdLength [0x61]" "text_ok kMaxSignalIdLength [0x62]"
  by code_simp+

lemma store_refines_map_witness:
  "store_lookup (canonical kMaxSignalIdLength [0x61]) (VehicleDataStore_init 1) (flag_sample 0x62 9) =
     (False, flag_sample 0x62 9) \<and>
   fst (upsert (flag_sample 0x61 5) (VehicleDataStore_init 1)) = Inserted"
proof -
  have "bt_inv kMaxSignalIdLength (canonical kMaxSignalIdLength [0x61])"
    using letters_ok(1) by (intro canonical_inv) (simp_all add: text_ok_def)
  from store_refines_map [OF init_keyed(1) flag_sample_inv [OF letters_ok(1)] this,
      of 1 "flag_sample 0x62 9" 5]
  show ?thesis
    by (auto simp: store_map_def init_keyed map_upsert_def dom_def split: prod.splits)
qed

lemma upsert_all_spec:
  assumes "list_all sample_inv xs"
  shows "store_entries (upsert_all xs (VehicleDataStore_init Capacity)) =
      history sample_key smp_timestampMs Capacity xs"
    and "store_inv (upsert_all xs (VehicleDataStore_init Capacity))"
    and "vds_size (upsert_all xs (VehicleDataStore_init Capacity)) \<le> Capacity"
proof -
  let ?s = "upsert_all xs (VehicleDataStore_init Capacity)"
  show "store_entries ?s = history sample_key smp_timestampMs Capacity xs"
    using vds.entries_history [OF init_keyed(1,2) assms, of Capacity]
    by (simp add: upsert_all_def init_keyed)
  have "keyed_inv ?s \<and> vds_capacity ?s = Capacity"
    using vds.fold_put_inv [OF init_keyed(1) assms, of Capacity]
    by (simp add: upsert_all_def init_keyed)
  then show "store_inv ?s" and "vds_size ?s \<le> Capacity"
    by (auto simp: keyed_inv_def store_inv_def)
qed

lemma history_subset: "set (history key stamp cap xs) \<subseteq> set xs"
proof -
  have "newest stamp (filter (\<lambda>x. key x = k) xs) \<in> set xs" if "k \<in> set (map key xs)" for k
    using that newest_max [of "filter (\<lambda>x. key x = k) xs" stamp] by (auto simp: filter_empty_conv)
  then show ?thesis by (auto simp: history_def dest!: in_set_takeD)
qed

text \<open>
  C10: the contents of the store are determined by everything that was ever offered to it. After
  any sequence of upserts into a fresh store, its entries - which a snapshot into a large enough
  buffer copies to the front of that buffer - are: for each of the first \<open>Capacity\<close> distinct
  signal ids, in the order of their first appearance, the newest sample offered under that id, and
  of several with the newest time stamp the last one offered.
\<close>

lemma store_history:
  assumes "list_all sample_inv xs" and "Capacity \<le> length out"
  shows "let H = history sample_key smp_timestampMs Capacity xs;
             s = upsert_all xs (VehicleDataStore_init Capacity)
         in store_entries s = H \<and> length H \<le> Capacity \<and>
            store_snapshot s (Some out) (length out) =
              (SnapshotComplete, Some (H @ drop (length H) out), length H)"
proof -
  let ?s = "upsert_all xs (VehicleDataStore_init Capacity)"
  note spec = upsert_all_spec [OF assms(1), of Capacity]
  show ?thesis
    using store_snapshot_entries [OF spec(2), of "length out" out] spec assms(2) length_store_entries [OF spec(2)]
    by (simp add: Let_def)
qed

lemma store_history_witness:
  "let xs = [flag_sample 0x61 5, flag_sample 0x62 1, flag_sample 0x61 4, flag_sample 0x61 7]
   in store_entries (upsert_all xs (VehicleDataStore_init 1)) = [flag_sample 0x61 7] \<and>
      store_snapshot (upsert_all xs (VehicleDataStore_init 1)) (Some [flag_sample 0x62 0]) 1 =
        (SnapshotComplete, Some [flag_sample 0x61 7], 1)"
proof -
  let ?xs = "[flag_sample 0x61 5, flag_sample 0x62 1, flag_sample 0x61 4, flag_sample 0x61 7]"
  have ok: "list_all sample_inv ?xs" using flag_sample_inv letters_ok by simp
  have "history sample_key smp_timestampMs 1 ?xs = [flag_sample 0x61 7]"
    by (simp add: history_def flag_sample_simps firsts_def newest_def)
  then show ?thesis using store_history [OF ok, of 1 "[flag_sample 0x62 0]"] by (simp add: Let_def)
qed

end
