(* ===== verification/Profiles.thy ===== *)
theory Profiles
  imports Vehicle_Data
begin

text \<open>
  Vehicle profiles: the manually selected profile (\<open>profiles/active_vehicle_profile.h\<close>), the
  registries of signal capabilities (\<open>profiles/signal_registry.h\<close>) and the one admitted profile of
  the project with its registry (\<open>vag/profile_set.h\<close>, \<open>vag/kamiq_nw4_capabilities.h\<close>). The
  selection is a state machine; its reachable states are an inductive predicate.
\<close>

section \<open>The active profile\<close>

record ProfileIdentity =
  pi_value :: u32

definition identity_eq :: "ProfileIdentity \<Rightarrow> ProfileIdentity \<Rightarrow> bool" where
  "identity_eq a b \<longleftrightarrow> pi_value a = pi_value b"

definition identity_neq :: "ProfileIdentity \<Rightarrow> ProfileIdentity \<Rightarrow> bool" where
  "identity_neq a b \<longleftrightarrow> \<not> identity_eq a b"

datatype ProfileSelectionState =
    Selection_Unknown
  | Selection_Ambiguous
  | Selection_ManualSelectionRequired
  | Selection_Selected
  | Selection_Other u8

record ActiveVehicleProfile =
  avp_admitted :: "ProfileIdentity list"
  avp_state :: ProfileSelectionState
  avp_active :: "ProfileIdentity option"

definition ActiveVehicleProfile_init :: "ProfileIdentity list \<Rightarrow> ActiveVehicleProfile" where
  "ActiveVehicleProfile_init admitted =
     \<lparr>avp_admitted = admitted, avp_state = Selection_Unknown, avp_active = None\<rparr>"

primrec selectManually_loop ::
  "ProfileIdentity list \<Rightarrow> ProfileIdentity \<Rightarrow> ActiveVehicleProfile \<Rightarrow> bool \<times> ActiveVehicleProfile" where
  "selectManually_loop [] identity p = (False, p)"
| "selectManually_loop (candidate # rest) identity p =
     (if identity_eq candidate identity
      then (True, p\<lparr>avp_active := Some identity, avp_state := Selection_Selected\<rparr>)
      else selectManually_loop rest identity p)"

definition selectManually :: "ProfileIdentity \<Rightarrow> ActiveVehicleProfile \<Rightarrow> bool \<times> ActiveVehicleProfile" where
  "selectManually identity p = selectManually_loop (avp_admitted p) identity p"

definition profile_clear :: "ProfileSelectionState \<Rightarrow> ActiveVehicleProfile \<Rightarrow> ActiveVehicleProfile" where
  "profile_clear state p = p\<lparr>avp_active := None, avp_state := state\<rparr>"

definition setUnknown :: "ActiveVehicleProfile \<Rightarrow> ActiveVehicleProfile" where
  "setUnknown p = profile_clear Selection_Unknown p"

definition setAmbiguous :: "ActiveVehicleProfile \<Rightarrow> ActiveVehicleProfile" where
  "setAmbiguous p = profile_clear Selection_Ambiguous p"

definition requireManualSelection :: "ActiveVehicleProfile \<Rightarrow> ActiveVehicleProfile" where
  "requireManualSelection p = profile_clear Selection_ManualSelectionRequired p"

section \<open>Registries\<close>

datatype CapabilitySupport =
    Support_Supported
  | Support_Unsupported
  | Support_Pending
  | Support_Unknown
  | Support_Other u8

record NormalizedSignalDescriptor =
  nsd_identity :: BoundedText
  nsd_expectedValueType :: VehicleValueType
  nsd_unit :: BoundedText
  nsd_support :: CapabilitySupport

text \<open>A registry is its array of descriptors; \<open>lookup\<close> returns \<open>None\<close> for the null pointer.\<close>

type_synonym FixedSignalRegistry = "NormalizedSignalDescriptor list"

primrec registry_lookup :: "FixedSignalRegistry \<Rightarrow> BoundedText \<Rightarrow> NormalizedSignalDescriptor option" where
  "registry_lookup [] identity = None"
| "registry_lookup (descriptor # rest) identity =
     (if BoundedText_eq (nsd_identity descriptor) identity then Some descriptor
      else registry_lookup rest identity)"

section \<open>The project's profile set\<close>

definition ascii :: "string \<Rightarrow> bytes" where
  "ascii s = map of_char s"

definition c_literal :: "string \<Rightarrow> bytes option" where
  "c_literal s = Some (ascii s @ [0])"

datatype ProfileValidationState = Validation_Pending | Validation_VehicleConfirmed

record ProfileDescriptor =
  pd_identity :: ProfileIdentity
  pd_modelReference :: "bytes option"
  pd_validation :: ProfileValidationState

definition kProfileSet :: "ProfileDescriptor list" where
  "kProfileSet =
     [\<lparr>pd_identity = \<lparr>pi_value = 1\<rparr>, pd_modelReference = c_literal ''Kamiq_NW4'',
       pd_validation = Validation_Pending\<rparr>]"

definition kAdmittedProfileIdentities :: "ProfileIdentity list" where
  "kAdmittedProfileIdentities = [pd_identity (kProfileSet ! 0)]"

definition kamiq_descriptor :: "string \<Rightarrow> string \<Rightarrow> NormalizedSignalDescriptor" where
  "kamiq_descriptor identity unit =
     \<lparr>nsd_identity = BoundedText_make kMaxSignalIdLength (c_literal identity),
      nsd_expectedValueType = ValueType_Numeric,
      nsd_unit = BoundedText_make kMaxUnitLength (c_literal unit), nsd_support = Support_Pending\<rparr>"

definition kKamiqNw4Capabilities :: FixedSignalRegistry where
  "kKamiqNw4Capabilities =
     [kamiq_descriptor ''vehicle.speed'' ''km/h'',
      kamiq_descriptor ''vehicle.rpm'' ''rpm'',
      kamiq_descriptor ''vehicle.coolantTemp'' ''degC'',
      kamiq_descriptor ''vehicle.voltage'' ''V'']"

definition signalRegistryFor :: "ProfileIdentity \<Rightarrow> FixedSignalRegistry option" where
  "signalRegistryFor identity =
     (if identity_eq identity (pd_identity (kProfileSet ! 0)) then Some kKamiqNw4Capabilities else None)"

section \<open>The selection as a state machine\<close>

lemma selectManually_spec:
  "selectManually i p =
     (if i \<in> set (avp_admitted p)
      then (True, p\<lparr>avp_active := Some i, avp_state := Selection_Selected\<rparr>) else (False, p))"
proof -
  have "selectManually_loop xs i p =
      (if i \<in> set xs then (True, p\<lparr>avp_active := Some i, avp_state := Selection_Selected\<rparr>)
       else (False, p))" for xs
    by (induction xs) (auto simp: identity_eq_def)
  then show ?thesis by (simp add: selectManually_def)
qed

inductive profile_step :: "ActiveVehicleProfile \<Rightarrow> ActiveVehicleProfile \<Rightarrow> bool" where
  step_select: "profile_step p (snd (selectManually i p))"
| step_unknown: "profile_step p (setUnknown p)"
| step_ambiguous: "profile_step p (setAmbiguous p)"
| step_manual: "profile_step p (requireManualSelection p)"

inductive profile_reachable :: "ProfileIdentity list \<Rightarrow> ActiveVehicleProfile \<Rightarrow> bool"
  for admitted where
  reach_init: "profile_reachable admitted (ActiveVehicleProfile_init admitted)"
| reach_step: "profile_reachable admitted p \<Longrightarrow> profile_step p q \<Longrightarrow> profile_reachable admitted q"

inductive_cases profile_stepE: "profile_step p q"

text \<open>The texts of a descriptor are in the form \<open>BoundedText\<close> keeps.\<close>

definition descriptor_inv :: "NormalizedSignalDescriptor \<Rightarrow> bool" where
  "descriptor_inv c \<longleftrightarrow> bt_inv kMaxSignalIdLength (nsd_identity c) \<and> bt_inv kMaxUnitLength (nsd_unit c)"

definition profile_inv :: "ProfileIdentity list \<Rightarrow> ActiveVehicleProfile \<Rightarrow> bool" where
  "profile_inv admitted p \<longleftrightarrow> avp_admitted p = admitted \<and>
     (avp_state p = Selection_Selected \<longleftrightarrow> avp_active p \<noteq> None) \<and>
     (\<forall>i \<in> set_option (avp_active p). i \<in> set admitted) \<and>
     avp_state p \<in> {Selection_Unknown, Selection_Ambiguous, Selection_ManualSelectionRequired,
       Selection_Selected}"

lemmas profile_operations =
  selectManually_spec setUnknown_def setAmbiguous_def requireManualSelection_def profile_clear_def

lemma profile_step_inv: "profile_step p q \<Longrightarrow> profile_inv admitted p \<Longrightarrow> profile_inv admitted q"
  by (elim profile_stepE) (auto simp: profile_operations profile_inv_def)

lemma profile_reachable_inv: "profile_reachable admitted p \<Longrightarrow> profile_inv admitted p"
proof (induction rule: profile_reachable.induct)
  case reach_init
  show ?case by (simp add: profile_inv_def ActiveVehicleProfile_init_def)
next
  case (reach_step p q)
  then show ?case by (blast intro: profile_step_inv)
qed

section \<open>The registry of the Kamiq profile\<close>

definition kamiq_signals :: "(string \<times> string) list" where
  "kamiq_signals = [(''vehicle.speed'', ''km/h''), (''vehicle.rpm'', ''rpm''),
     (''vehicle.coolantTemp'', ''degC''), (''vehicle.voltage'', ''V'')]"

lemma kamiq_texts:
  "map (\<lambda>d. (nsd_identity d, nsd_unit d)) kKamiqNw4Capabilities =
   map (\<lambda>(i, u). (canonical kMaxSignalIdLength (ascii i), canonical kMaxUnitLength (ascii u))) kamiq_signals"
  by code_simp

lemma kamiq_metadata:
  "list_all (\<lambda>d. nsd_expectedValueType d = ValueType_Numeric \<and> nsd_support d = Support_Pending)
     kKamiqNw4Capabilities"
  by (simp add: kKamiqNw4Capabilities_def kamiq_descriptor_def)

lemma kamiq_lookup:
  "list_all (\<lambda>d. registry_lookup kKamiqNw4Capabilities (nsd_identity d) = Some d) kKamiqNw4Capabilities"
  by code_simp

section \<open>Properties\<close>

text \<open>
  C36: in every state the selection can reach, it is ``selected'' exactly when a profile is active,
  and the active profile is one of the admitted ones. A manual selection succeeds exactly for an
  admitted identity, which then is the active one, and otherwise changes nothing - an unknown
  identity never drops the current selection; the three other operations deselect.
\<close>

lemma profile_selection:
  assumes "profile_reachable admitted p"
  shows "(avp_state p = Selection_Selected \<longleftrightarrow> avp_active p \<noteq> None) \<and>
    (case avp_active p of None \<Rightarrow> True | Some i \<Rightarrow> i \<in> set admitted) \<and>
    (case selectManually i p of (ok, q) \<Rightarrow> ok = (i \<in> set admitted) \<and>
       (if ok then avp_state q = Selection_Selected \<and> avp_active q = Some i else q = p)) \<and>
    list_all (\<lambda>q. avp_active q = None \<and> avp_state q \<noteq> Selection_Selected)
      [setUnknown p, setAmbiguous p, requireManualSelection p]"
  using profile_reachable_inv [OF assms]
  by (auto simp: profile_inv_def profile_operations split: option.split)

text \<open>The project's profile set: identity 1 can be selected, 2 cannot.\<close>

lemma profile_selection_witness:
  "avp_active (snd (selectManually \<lparr>pi_value = 1\<rparr>
     (ActiveVehicleProfile_init kAdmittedProfileIdentities))) = Some \<lparr>pi_value = 1\<rparr> \<and>
   \<not> fst (selectManually \<lparr>pi_value = 2\<rparr> (ActiveVehicleProfile_init kAdmittedProfileIdentities))"
  using profile_selection [OF reach_init, of kAdmittedProfileIdentities "\<lparr>pi_value = 1\<rparr>"]
    profile_selection [OF reach_init, of kAdmittedProfileIdentities "\<lparr>pi_value = 2\<rparr>"]
  by (auto simp: kAdmittedProfileIdentities_def kProfileSet_def)

end
