(* ===== verification/Read_Model.thy ===== *)
theory Read_Model
  imports Vehicle_Data_Store Profiles
begin

text \<open>
  The read projection (\<open>application/vehicle_data_read_model.h\<close>, class template
  \<open>VehicleDataReadModel\<close>): one synchronous copy of the store's samples, of the capabilities of the
  active profile and of the metadata into the caller's buffers. The references the class holds are
  the states of their owners at the time of the call; a null registry or buffer is \<open>None\<close>.
\<close>

datatype VehicleDataReadStatus = ReadComplete | ReadInsufficientCapacity

record VehicleDataReadResult =
  rr_status :: VehicleDataReadStatus
  rr_requiredSampleCapacity :: nat
  rr_requiredCapabilityCapacity :: nat

record VehicleDataReadSnapshot =
  rs_selectionState :: ProfileSelectionState
  rs_activeIdentity :: "ProfileIdentity option"
  rs_hasCapabilityRegistry :: bool
  rs_capabilityCount :: nat
  rs_sampleCount :: nat

definition VehicleDataReadSnapshot_default :: VehicleDataReadSnapshot where
  "VehicleDataReadSnapshot_default =
     \<lparr>rs_selectionState = Selection_Unknown, rs_activeIdentity = None,
      rs_hasCapabilityRegistry = False, rs_capabilityCount = 0, rs_sampleCount = 0\<rparr>"

record VehicleDataReadModel =
  rm_profile :: ActiveVehicleProfile
  rm_store :: VehicleDataStore
  rm_registryProfile :: "ProfileIdentity option"
  rm_registry :: "FixedSignalRegistry option"

definition ReadModel_make :: "ActiveVehicleProfile \<Rightarrow> VehicleDataStore \<Rightarrow> VehicleDataReadModel" where
  "ReadModel_make profile store =
     \<lparr>rm_profile = profile, rm_store = store, rm_registryProfile = None, rm_registry = None\<rparr>"

definition ReadModel_make_with ::
  "ActiveVehicleProfile \<Rightarrow> VehicleDataStore \<Rightarrow> ProfileIdentity \<Rightarrow> FixedSignalRegistry \<Rightarrow>
   VehicleDataReadModel" where
  "ReadModel_make_with profile store registryProfile registry =
     \<lparr>rm_profile = profile, rm_store = store, rm_registryProfile = Some registryProfile,
      rm_registry = Some registry\<rparr>"

record read_outcome =
  ro_result :: VehicleDataReadResult
  ro_samples :: "NormalizedVehicleSample list option"
  ro_capabilities :: "NormalizedSignalDescriptor list option"
  ro_metadata :: VehicleDataReadSnapshot

text \<open>The descriptors the active profile may show: \<open>registry_->descriptors()\<close>.\<close>

definition registry_descriptors :: "VehicleDataReadModel \<Rightarrow> NormalizedSignalDescriptor list" where
  "registry_descriptors m = (case rm_registry m of None \<Rightarrow> [] | Some r \<Rightarrow> r)"

definition read_snapshot ::
  "VehicleDataReadModel \<Rightarrow> NormalizedVehicleSample list option \<Rightarrow> nat \<Rightarrow>
   NormalizedSignalDescriptor list option \<Rightarrow> nat \<Rightarrow> VehicleDataReadSnapshot \<Rightarrow> read_outcome" where
  "read_snapshot m samples sampleCapacity capabilities capabilityCapacity metadata =
     (let selection = avp_state (rm_profile m);
          active = (if selection = Selection_Selected then avp_active (rm_profile m) else None);
          registry = (rm_registry m \<noteq> None \<and> active \<noteq> None \<and> active = rm_registryProfile m);
          count = (if registry then length (registry_descriptors m) else 0)
      in if capabilityCapacity < count \<or> count \<noteq> 0 \<and> capabilities = None
         then \<lparr>ro_result = \<lparr>rr_status = ReadInsufficientCapacity,
                 rr_requiredSampleCapacity = vds_size (rm_store m),
                 rr_requiredCapabilityCapacity = count\<rparr>,
               ro_samples = samples, ro_capabilities = capabilities, ro_metadata = metadata\<rparr>
         else
           (case store_snapshot (rm_store m) samples sampleCapacity of
              (status, samples', sampleCount) \<Rightarrow>
                if status \<noteq> SnapshotComplete
                then \<lparr>ro_result = \<lparr>rr_status = ReadInsufficientCapacity,
                        rr_requiredSampleCapacity = sampleCount,
                        rr_requiredCapabilityCapacity = count\<rparr>,
                      ro_samples = samples', ro_capabilities = capabilities, ro_metadata = metadata\<rparr>
                else \<lparr>ro_result = \<lparr>rr_status = ReadComplete, rr_requiredSampleCapacity = sampleCount,
                        rr_requiredCapabilityCapacity = count\<rparr>,
                      ro_samples = samples',
                      ro_capabilities = map_option (\<lambda>c. fold (\<lambda>i c. c[i := registry_descriptors m ! i])
                        [0 ..< count] c) capabilities,
                      ro_metadata = \<lparr>rs_selectionState = selection, rs_activeIdentity = active,
                        rs_hasCapabilityRegistry = registry, rs_capabilityCount = count,
                        rs_sampleCount = sampleCount\<rparr>\<rparr>))"

section \<open>What a read shows\<close>

text \<open>The capabilities that belong to the active profile, and only to it.\<close>

definition visible_capabilities :: "VehicleDataReadModel \<Rightarrow> NormalizedSignalDescriptor list option" where
  "visible_capabilities m =
     (case (avp_state (rm_profile m), avp_active (rm_profile m), rm_registryProfile m, rm_registry m) of
        (Selection_Selected, Some i, Some j, Some r) \<Rightarrow> if i = j then Some r else None
      | _ \<Rightarrow> None)"

definition capabilities_shown :: "VehicleDataReadModel \<Rightarrow> NormalizedSignalDescriptor list" where
  "capabilities_shown m = (case visible_capabilities m of None \<Rightarrow> [] | Some r \<Rightarrow> r)"

definition buffer_suffices :: "'a list option \<Rightarrow> nat \<Rightarrow> nat \<Rightarrow> bool" where
  "buffer_suffices buf cap n \<longleftrightarrow> n \<le> cap \<and> (n = 0 \<or> buf \<noteq> None)"

definition buffer_holds :: "'a list option \<Rightarrow> nat \<Rightarrow> bool" where
  "buffer_holds buf cap \<longleftrightarrow> (case buf of None \<Rightarrow> True | Some b \<Rightarrow> cap \<le> length b)"

definition put_front :: "'a list \<Rightarrow> 'a list option \<Rightarrow> 'a list option" where
  "put_front xs = map_option (\<lambda>b. xs @ drop (length xs) b)"

lemma store_snapshot_spec:
  assumes "store_inv s" and "buffer_holds samples cap"
  shows "store_snapshot s samples cap =
    (if buffer_suffices samples cap (vds_size s)
     then (SnapshotComplete, put_front (store_entries s) samples, vds_size s)
     else (SnapshotInsufficientCapacity, samples, vds_size s))"
proof (cases samples)
  case None
  then show ?thesis by (auto simp: store_snapshot_def buffer_suffices_def put_front_def)
next
  case (Some b)
  then have "vds_size s \<le> cap \<Longrightarrow> store_snapshot s (Some b) cap =
      (SnapshotComplete, Some (store_entries s @ drop (vds_size s) b), vds_size s)"
    using store_snapshot_entries [OF assms(1), of cap b] assms
    by (simp add: length_store_entries buffer_holds_def)
  then show ?thesis using Some assms(1)
    by (auto simp: buffer_suffices_def put_front_def length_store_entries store_snapshot_def)
qed

lemma visible_capabilities_iff:
  "visible_capabilities m =
    (let active = (if avp_state (rm_profile m) = Selection_Selected then avp_active (rm_profile m) else None)
     in if rm_registry m \<noteq> None \<and> active \<noteq> None \<and> active = rm_registryProfile m
        then Some (registry_descriptors m) else None)"
  by (auto simp: visible_capabilities_def registry_descriptors_def
      split: option.splits ProfileSelectionState.splits)

lemma copy_descriptors:
  "buffer_holds caps cc \<Longrightarrow> length r \<le> cc \<Longrightarrow>
   map_option (\<lambda>c. fold (\<lambda>i c. c[i := r ! i]) [0 ..< length r] c) caps = put_front r caps"
  by (cases caps) (simp_all add: put_front_def buffer_holds_def fold_update_upt map_nth)

lemma put_front_Nil [simp]: "put_front [] buf = buf"
  by (cases buf) (simp_all add: put_front_def)

lemma read_snapshot_spec:
  assumes "store_inv (rm_store m)"
    and "buffer_holds samples sampleCapacity" and "buffer_holds capabilities capabilityCapacity"
  shows "let out = read_snapshot m samples sampleCapacity capabilities capabilityCapacity metadata;
             entries = store_entries (rm_store m); shown = capabilities_shown m;
             enough = buffer_suffices samples sampleCapacity (length entries) \<and>
               buffer_suffices capabilities capabilityCapacity (length shown);
             selected = (avp_state (rm_profile m) = Selection_Selected)
    in ro_result out =
         \<lparr>rr_status = (if enough then ReadComplete else ReadInsufficientCapacity),
          rr_requiredSampleCapacity = length entries,
          rr_requiredCapabilityCapacity = length shown\<rparr> \<and>
       (if enough
        then ro_samples out = put_front entries samples \<and>
             ro_capabilities out = put_front shown capabilities \<and>
             ro_metadata out =
               \<lparr>rs_selectionState = avp_state (rm_profile m),
                rs_activeIdentity = (if selected then avp_active (rm_profile m) else None),
                rs_hasCapabilityRegistry = (visible_capabilities m \<noteq> None),
                rs_capabilityCount = length shown, rs_sampleCount = length entries\<rparr>
        else ro_samples out = samples \<and> ro_capabilities out = capabilities \<and>
             ro_metadata out = metadata)"
proof -
  define active where "active =
    (if avp_state (rm_profile m) = Selection_Selected then avp_active (rm_profile m) else None)"
  define registry where "registry \<longleftrightarrow>
    rm_registry m \<noteq> None \<and> active \<noteq> None \<and> active = rm_registryProfile m"
  have visible: "visible_capabilities m = (if registry then Some (registry_descriptors m) else None)"
    unfolding visible_capabilities_iff Let_def active_def registry_def ..
  then have shown: "capabilities_shown m = (if registry then registry_descriptors m else [])"
    by (simp add: capabilities_shown_def)
  have len: "length (store_entries (rm_store m)) = vds_size (rm_store m)"
    by (rule length_store_entries [OF assms(1)])
  show ?thesis
    unfolding read_snapshot_def Let_def active_def [symmetric] registry_def [symmetric]
      store_snapshot_spec [OF assms(1,2)] shown visible len
    using copy_descriptors [OF assms(3), of "registry_descriptors m"]
    by (auto simp: buffer_suffices_def option.map_id)
qed

section \<open>Properties\<close>

text \<open>
  C14: a read is all or nothing. It completes exactly when both buffers have room for everything it
  shows; then the front of the buffers holds the store's entries and the capabilities of the active
  profile's own registry, and the metadata describe them. Otherwise no buffer and no metadata are
  touched. In both cases the required capacities it reports are exact. Capabilities are shown only
  if a profile is selected and it is the one the registry is associated with.
\<close>

lemma read_snapshot_atomic:
  assumes "store_inv (rm_store m)"
    and "buffer_holds samples sampleCapacity" and "buffer_holds capabilities capabilityCapacity"
  shows "let out = read_snapshot m samples sampleCapacity capabilities capabilityCapacity metadata;
             entries = store_entries (rm_store m); shown = capabilities_shown m;
             enough = buffer_suffices samples sampleCapacity (length entries) \<and>
               buffer_suffices capabilities capabilityCapacity (length shown);
             selected = (avp_state (rm_profile m) = Selection_Selected)
    in ro_result out =
         \<lparr>rr_status = (if enough then ReadComplete else ReadInsufficientCapacity),
          rr_requiredSampleCapacity = length entries,
          rr_requiredCapabilityCapacity = length shown\<rparr> \<and>
       (if enough
        then ro_samples out = put_front entries samples \<and>
             ro_capabilities out = put_front shown capabilities \<and>
             ro_metadata out =
               \<lparr>rs_selectionState = avp_state (rm_profile m),
                rs_activeIdentity = (if selected then avp_active (rm_profile m) else None),
                rs_hasCapabilityRegistry = (visible_capabilities m \<noteq> None),
                rs_capabilityCount = length shown, rs_sampleCount = length entries\<rparr>
        else ro_samples out = samples \<and> ro_capabilities out = capabilities \<and>
             ro_metadata out = metadata)"
  by (rule read_snapshot_spec [OF assms])

text \<open>The Kamiq profile, selected, with its registry and one stored sample.\<close>

definition kamiq_model :: VehicleDataReadModel where
  "kamiq_model =
     ReadModel_make_with
       (snd (selectManually \<lparr>pi_value = 1\<rparr> (ActiveVehicleProfile_init kAdmittedProfileIdentities)))
       (snd (upsert (flag_sample 0x61 5) (VehicleDataStore_init 2))) \<lparr>pi_value = 1\<rparr>
       kKamiqNw4Capabilities"

lemma kamiq_model_facts:
  "store_entries (rm_store kamiq_model) = [flag_sample 0x61 5]"
  "capabilities_shown kamiq_model = kKamiqNw4Capabilities"
  "store_inv (rm_store kamiq_model)"
proof -
  show "store_entries (rm_store kamiq_model) = [flag_sample 0x61 5]"
    using vds.put_new [OF init_keyed(1) flag_sample_inv [OF letters_ok(1)], of 5 2]
    by (simp add: kamiq_model_def ReadModel_make_with_def init_keyed)
  show "capabilities_shown kamiq_model = kKamiqNw4Capabilities"
    by (simp add: kamiq_model_def ReadModel_make_with_def capabilities_shown_def
        visible_capabilities_def selectManually_spec ActiveVehicleProfile_init_def
        kAdmittedProfileIdentities_def kProfileSet_def)
  show "store_inv (rm_store kamiq_model)"
    using upsert_keyed [OF init_keyed(1) flag_sample_inv [OF letters_ok(1), of 5], of 2]
    by (simp add: kamiq_model_def ReadModel_make_with_def keyed_inv_def)
qed

lemma read_snapshot_atomic_witness:
  "rr_status (ro_result (read_snapshot kamiq_model (Some [flag_sample 0x62 0]) 1
     (Some kKamiqNw4Capabilities) 4 VehicleDataReadSnapshot_default)) = ReadComplete \<and>
   ro_samples (read_snapshot kamiq_model (Some [flag_sample 0x62 0]) 1 None 0
     VehicleDataReadSnapshot_default) = Some [flag_sample 0x62 0]"
proof -
  have len: "length kKamiqNw4Capabilities = 4" "kKamiqNw4Capabilities \<noteq> []"
    by (simp_all add: kKamiqNw4Capabilities_def)
  have one: "buffer_holds (Some [flag_sample 0x62 0]) 1" by (simp add: buffer_holds_def)
  have four: "buffer_holds (Some kKamiqNw4Capabilities) 4" by (simp add: buffer_holds_def len)
  have none: "buffer_holds (None :: NormalizedSignalDescriptor list option) 0"
    by (simp add: buffer_holds_def)
  show ?thesis
    using read_snapshot_atomic [OF kamiq_model_facts(3) one four, of VehicleDataReadSnapshot_default]
      read_snapshot_atomic [OF kamiq_model_facts(3) one none, of VehicleDataReadSnapshot_default]
    by (simp add: kamiq_model_facts buffer_suffices_def len Let_def)
qed

end
