(* ===== verification/Byte_Order.thy ===== *)
theory Byte_Order
  imports Prelude
begin

text \<open>
  The bytes of a word, shared by the two record formats: \<open>byte_at i v\<close> is the byte of weight
  \<open>256 ^ i\<close>, \<open>word_of_bytes\<close> puts bytes of increasing weight together with shifts and \<open>OR\<close>, and the
  two are inverse to each other. Everything is by bits: bit \<open>k\<close> of the word is bit \<open>k mod 8\<close> of
  the byte \<open>k div 8\<close>.
\<close>

definition byte_at :: "nat \<Rightarrow> 'a :: len word \<Rightarrow> u8" where
  "byte_at i v = ucast (drop_bit (i * 8) v)"

definition word_of_bytes :: "nat \<Rightarrow> (nat \<Rightarrow> u8) \<Rightarrow> 'a :: len word" where
  "word_of_bytes n f = fold (\<lambda>i r. r OR push_bit (i * 8) (ucast (f i))) [0 ..< n] 0"

lemma bit_byte_at: "bit (byte_at i v) k \<longleftrightarrow> k < 8 \<and> bit v (i * 8 + k)"
  by (auto simp: byte_at_def bit_simps ac_simps dest: bit_imp_le_length)

lemma bit_word_of_bytes:
  "bit (word_of_bytes n f :: 'a :: len word) k \<longleftrightarrow>
     k < LENGTH('a) \<and> k < n * 8 \<and> bit (f (k div 8)) (k mod 8)"
proof (induction n)
  case 0
  then show ?case by (simp add: word_of_bytes_def)
next
  case (Suc n)
  have step: "word_of_bytes (Suc n) f = (word_of_bytes n f OR push_bit (n * 8) (ucast (f n)) :: 'a word)"
    by (simp add: word_of_bytes_def)
  consider "k < n * 8" | "n * 8 \<le> k" "k < Suc n * 8" | "Suc n * 8 \<le> k" by linarith
  then show ?case
  proof cases
    case 1
    then show ?thesis by (simp add: step bit_simps Suc.IH)
  next
    case 2
    then have "k div 8 = n" by (simp add: div_nat_eqI)
    moreover from this have "k mod 8 = k - n * 8" using div_mult_mod_eq [of k 8] by linarith
    moreover note 2
    ultimately show ?thesis by (auto simp: step bit_simps Suc.IH)
  next
    case 3
    then have "\<not> bit (f n) (k - n * 8)" using bit_imp_le_length [of "f n" "k - n * 8"] by auto
    with 3 show ?thesis by (auto simp: step bit_simps Suc.IH)
  qed
qed

lemma word_of_bytes_at:
  "LENGTH('a) = n * 8 \<Longrightarrow> word_of_bytes n (\<lambda>i. byte_at i v) = (v :: 'a :: len word)"
  by (rule bit_word_eqI) (simp add: bit_word_of_bytes bit_byte_at)

lemma byte_at_word_of_bytes:
  assumes "i < n" and "LENGTH('a) = n * 8"
  shows "byte_at i (word_of_bytes n f :: 'a :: len word) = f i"
proof (rule bit_word_eqI)
  fix k assume "k < LENGTH(8)"
  then have k: "k < 8" by simp
  then have "i * 8 + k < n * 8" using assms(1) by linarith
  with k assms(2) show "bit (byte_at i (word_of_bytes n f :: 'a word)) k = bit (f i) k"
    by (simp add: bit_byte_at bit_word_of_bytes)
qed

lemma word_of_bytes_cong: "(\<And>i. i < n \<Longrightarrow> f i = g i) \<Longrightarrow> word_of_bytes n f = word_of_bytes n g"
  unfolding word_of_bytes_def by (rule fold_cong) auto

lemma word_of_bytes_eq_iff:
  assumes "LENGTH('a) = n * 8"
  shows "word_of_bytes n f = (v :: 'a :: len word) \<longleftrightarrow> (\<forall>i < n. f i = byte_at i v)"
  using assms word_of_bytes_at [of n v] word_of_bytes_cong [of n f "\<lambda>i. byte_at i v"]
    byte_at_word_of_bytes [OF _ assms, of _ f] by metis

text \<open>The byte as the code takes it: shifted, masked and cut.\<close>

lemma ucast_low_byte: "(ucast (v AND 0xff) :: u8) = ucast v" for v :: "'a :: len word"
proof -
  have mask: "(0xff :: 'a word) = mask 8" by (simp add: mask_eq_exp_minus_1)
  show ?thesis unfolding mask
    by (rule bit_word_eqI) (auto simp: bit_simps dest: bit_imp_le_length)
qed

text \<open>The bytes of a word, least and most significant first.\<close>

definition le_bytes :: "nat \<Rightarrow> 'a :: len word \<Rightarrow> bytes" where
  "le_bytes n v = map (\<lambda>i. byte_at i v) [0 ..< n]"

definition be_bytes :: "nat \<Rightarrow> 'a :: len word \<Rightarrow> bytes" where
  "be_bytes n v = rev (le_bytes n v)"

lemma length_le_bytes [simp]: "length (le_bytes n v) = n"
  by (simp add: le_bytes_def)

lemma length_be_bytes [simp]: "length (be_bytes n v) = n"
  by (simp add: be_bytes_def)

lemma upt_8: "[0 ..< 8] = [0, 1, 2, 3, 4, 5, 6, 7]"
  by code_simp

lemma le_bytes_2: "le_bytes 2 (v :: 'a :: len word) = [byte_at 0 v, byte_at 1 v]"
  by (simp add: le_bytes_def eval_nat_numeral)

lemma le_bytes_8: "le_bytes 8 (v :: 'a :: len word) =
    [byte_at 0 v, byte_at 1 v, byte_at 2 v, byte_at 3 v, byte_at 4 v, byte_at 5 v, byte_at 6 v, byte_at 7 v]"
  by (simp add: le_bytes_def eval_nat_numeral)

end
