(* ===== verification/Export_Record.thy ===== *)
theory Export_Record
  imports Vehicle_Data Byte_Order
begin

text \<open>
  The export record of a sample (\<open>application/vehicle_data_export_record.h\<close>): validation, encoding
  into a caller's buffer and strict decoding. Integers are little-endian, a \<open>double\<close> is its bit
  pattern. A null pointer is \<open>None\<close>; the caller promises that a buffer has at least the number of
  bytes he passes with it.
\<close>

datatype VehicleDataExportStatus =
    ExportOk
  | ExportBufferTooSmall
  | ExportInvalidArgument
  | ExportInvalidSample
  | ExportMalformedRecord
  | ExportUnsupportedVersion

definition kVersion :: u8 where "kVersion = 1"
definition kHeaderSize :: nat where "kHeaderSize = 23"

section \<open>Validation\<close>

definition isValidType :: "VehicleValueType \<Rightarrow> bool" where
  "isValidType t \<longleftrightarrow> t = ValueType_None \<or> t = ValueType_Numeric \<or> t = ValueType_Boolean \<or> t = ValueType_Text"

definition isValidAvailability :: "VehicleAvailability \<Rightarrow> bool" where
  "isValidAvailability v \<longleftrightarrow> v = Availability_Available \<or> v = Availability_Unsupported \<or>
     v = Availability_Unavailable \<or> v = Availability_Pending \<or> v = Availability_Unknown"

definition isValidQuality :: "VehicleQuality \<Rightarrow> bool" where
  "isValidQuality v \<longleftrightarrow> v = Quality_ValidCurrent \<or> v = Quality_Stale \<or> v = Quality_InvalidOrUnknown"

definition isValidSource :: "VehicleSource \<Rightarrow> bool" where
  "isValidSource v \<longleftrightarrow> v = Source_Obd \<or> v = Source_Uds \<or> v = Source_PassiveCan \<or> v = Source_Derived \<or>
     v = Source_Unknown"

definition export_isValid :: "NormalizedVehicleSample \<Rightarrow> bool" where
  "export_isValid s =
     (if kMaxSignalIdLength < bt_length (smp_signalId s) \<or> kMaxUnitLength < bt_length (smp_unit s) \<or>
         \<not> isValidAvailability (smp_availability s) \<or> \<not> isValidQuality (smp_quality s) \<or>
         \<not> isValidSource (smp_source s)
      then False
      else
        (case smp_valueType s of
           ValueType_Numeric \<Rightarrow> smp_availability s = Availability_Available \<and> isfinite (nv_numeric (smp_value s))
         | ValueType_Boolean \<Rightarrow> smp_availability s = Availability_Available
         | ValueType_Text \<Rightarrow> smp_availability s = Availability_Available \<and>
             bt_length (nv_text (smp_value s)) \<le> kMaxTextLength
         | ValueType_None \<Rightarrow> smp_availability s \<noteq> Availability_Available \<and> \<not> hasValue s
         | ValueType_Other _ \<Rightarrow> False))"

definition payloadLength :: "NormalizedVehicleSample \<Rightarrow> nat" where
  "payloadLength s =
     (case smp_valueType s of
        ValueType_Numeric \<Rightarrow> 8
      | ValueType_Boolean \<Rightarrow> 1
      | ValueType_Text \<Rightarrow> bt_length (nv_text (smp_value s))
      | ValueType_None \<Rightarrow> 0
      | ValueType_Other _ \<Rightarrow> 0)"

definition export_requiredCapacity :: "NormalizedVehicleSample \<Rightarrow> VehicleDataExportStatus \<times> nat" where
  "export_requiredCapacity s =
     (if \<not> export_isValid s then (ExportInvalidSample, 0)
      else (ExportOk, kHeaderSize + bt_length (smp_signalId s) + bt_length (smp_unit s) + payloadLength s))"

section \<open>Bytes in and out\<close>

definition writeU16 :: "nat \<Rightarrow> u16 \<Rightarrow> bytes \<Rightarrow> bytes" where
  "writeU16 at v out = out[at := ucast (v AND 0xff), at + 1 := ucast (drop_bit 8 v AND 0xff)]"

definition readU16 :: "nat \<Rightarrow> bytes \<Rightarrow> u16" where
  "readU16 at inp = ucast (inp ! at) OR push_bit 8 (ucast (inp ! (at + 1)))"

definition writeU64 :: "nat \<Rightarrow> u64 \<Rightarrow> bytes \<Rightarrow> bytes" where
  "writeU64 at v out =
     fold (\<lambda>index out. out[at + index := ucast (drop_bit (index * 8) v AND 0xff)]) [0 ..< 8] out"

definition readU64 :: "nat \<Rightarrow> bytes \<Rightarrow> u64" where
  "readU64 at inp =
     fold (\<lambda>index r. r OR push_bit (index * 8) (ucast (inp ! (at + index)))) [0 ..< 8] 0"

definition copyBytes :: "nat \<Rightarrow> bytes \<Rightarrow> nat \<Rightarrow> bytes \<Rightarrow> bytes" where
  "copyBytes at source len destination =
     (if 0 < len then blit destination at (take len source) else destination)"

definition containsNull :: "nat \<Rightarrow> nat \<Rightarrow> bytes \<Rightarrow> bool" where
  "containsNull at len inp = list_ex (\<lambda>index. inp ! (at + index) = 0) [0 ..< len]"

section \<open>Encoding\<close>

definition writePayload :: "NormalizedVehicleSample \<Rightarrow> nat \<Rightarrow> bytes \<Rightarrow> bytes" where
  "writePayload s at out =
     (case smp_valueType s of
        ValueType_Numeric \<Rightarrow> writeU64 at (nv_numeric (smp_value s)) out
      | ValueType_Boolean \<Rightarrow> out[at := if nv_boolean (smp_value s) then 1 else 0]
      | ValueType_Text \<Rightarrow> copyBytes at (bt_data (nv_text (smp_value s))) (bt_length (nv_text (smp_value s))) out
      | ValueType_None \<Rightarrow> out
      | ValueType_Other _ \<Rightarrow> out)"

definition encode_header :: "NormalizedVehicleSample \<Rightarrow> nat \<Rightarrow> bytes \<Rightarrow> bytes" where
  "encode_header s required out =
     (let out = out[0 := 0x56, 1 := 0x44, 2 := 0x45, 3 := 0x52, 4 := kVersion];
          out = writeU16 5 (of_nat required) out;
          out = out[7 := valueType_to_u8 (smp_valueType s), 8 := if hasValue s then 1 else 0,
                    9 := availability_to_u8 (smp_availability s), 10 := quality_to_u8 (smp_quality s),
                    11 := source_to_u8 (smp_source s)];
          out = writeU64 12 (smp_timestampMs s) out
      in out[20 := of_nat (bt_length (smp_signalId s)), 21 := of_nat (bt_length (smp_unit s)),
             22 := of_nat (payloadLength s)])"

definition export_encode ::
  "NormalizedVehicleSample \<Rightarrow> bytes option \<Rightarrow> nat \<Rightarrow> VehicleDataExportStatus \<times> nat \<times> bytes option" where
  "export_encode s output capacity =
     (case export_requiredCapacity s of (status, required) \<Rightarrow>
        if status \<noteq> ExportOk then (status, required, output)
        else if capacity < required then (ExportBufferTooSmall, required, output)
        else
          (case output of
             None \<Rightarrow> (ExportInvalidArgument, required, output)
           | Some out \<Rightarrow>
               (let out = encode_header s required out;
                    cursor = kHeaderSize;
                    out = copyBytes cursor (bt_data (smp_signalId s)) (bt_length (smp_signalId s)) out;
                    cursor = cursor + bt_length (smp_signalId s);
                    out = copyBytes cursor (bt_data (smp_unit s)) (bt_length (smp_unit s)) out;
                    cursor = cursor + bt_length (smp_unit s)
                in (ExportOk, required, Some (writePayload s cursor out)))))"

section \<open>Decoding\<close>

text \<open>The switch over the type: \<open>None\<close> for an early return, else what was constructed.\<close>

definition decode_value ::
  "VehicleValueType \<Rightarrow> VehicleAvailability \<Rightarrow> VehicleQuality \<Rightarrow> VehicleSource \<Rightarrow> u64 \<Rightarrow>
   bytes \<Rightarrow> bytes \<Rightarrow> nat \<Rightarrow> nat \<Rightarrow> bytes \<Rightarrow> (bool \<times> NormalizedVehicleSample) option" where
  "decode_value type availability quality source timestamp signalBuffer unitBuffer value_at valueLength inp =
     (let candidate = NormalizedVehicleSample_default;
          signal = Some signalBuffer; unit = Some unitBuffer
      in case type of
        ValueType_Numeric \<Rightarrow>
          (if valueLength \<noteq> 8 then None
           else (let numeric = readU64 value_at inp
                 in if \<not> isfinite numeric then None
                    else Some (tryNumeric signal numeric unit source quality timestamp candidate)))
      | ValueType_Boolean \<Rightarrow>
          (if valueLength \<noteq> 1 \<or> 1 < inp ! value_at then None
           else Some (tryBoolean signal (inp ! value_at \<noteq> 0) unit source quality timestamp candidate))
      | ValueType_Text \<Rightarrow>
          (if kMaxTextLength < valueLength \<or> containsNull value_at valueLength inp then None
           else (let textBuffer = copyBytes 0 (drop value_at inp) valueLength
                       (replicate (kMaxTextLength + 1) 0)
                 in Some (tryText signal (Some textBuffer) unit source quality timestamp candidate)))
      | ValueType_None \<Rightarrow>
          (if availability = Availability_Available \<or> valueLength \<noteq> 0 then None
           else Some (tryStatus signal availability unit source quality timestamp candidate))
      | ValueType_Other _ \<Rightarrow> Some (False, candidate))"

definition export_decode ::
  "bytes option \<Rightarrow> nat \<Rightarrow> NormalizedVehicleSample \<Rightarrow> VehicleDataExportStatus \<times> NormalizedVehicleSample" where
  "export_decode input len output =
     (case input of
        None \<Rightarrow> (ExportInvalidArgument, output)
      | Some inp \<Rightarrow>
          if len < kHeaderSize \<or> inp ! 0 \<noteq> 0x56 \<or> inp ! 1 \<noteq> 0x44 \<or> inp ! 2 \<noteq> 0x45 \<or>
             inp ! 3 \<noteq> 0x52 \<or> unat (readU16 5 inp) \<noteq> len
          then (ExportMalformedRecord, output)
          else if inp ! 4 \<noteq> kVersion then (ExportUnsupportedVersion, output)
          else
            (let type = valueType_of_u8 (inp ! 7);
                 has_value = inp ! 8;
                 availability = availability_of_u8 (inp ! 9);
                 quality = quality_of_u8 (inp ! 10);
                 source = source_of_u8 (inp ! 11);
                 signalLength = unat (inp ! 20);
                 unitLength = unat (inp ! 21);
                 valueLength = unat (inp ! 22);
                 expectedLength = kHeaderSize + signalLength + unitLength + valueLength
             in if \<not> isValidType type \<or> 1 < has_value \<or> \<not> isValidAvailability availability \<or>
                   \<not> isValidQuality quality \<or> \<not> isValidSource source \<or>
                   kMaxSignalIdLength < signalLength \<or> kMaxUnitLength < unitLength \<or>
                   expectedLength \<noteq> len
                then (ExportMalformedRecord, output)
                else
                  (let signal = kHeaderSize; unit = signal + signalLength; value_at = unit + unitLength
                   in if containsNull signal signalLength inp \<or> containsNull unit unitLength inp
                      then (ExportMalformedRecord, output)
                      else
                        (case decode_value type availability quality source (readU64 12 inp)
                             (copyBytes 0 (drop signal inp) signalLength (replicate (kMaxSignalIdLength + 1) 0))
                             (copyBytes 0 (drop unit inp) unitLength (replicate (kMaxUnitLength + 1) 0))
                             value_at valueLength inp of
                           None \<Rightarrow> (ExportMalformedRecord, output)
                         | Some (constructed, candidate) \<Rightarrow>
                             if \<not> constructed \<or> smp_availability candidate \<noteq> availability \<or>
                                hasValue candidate \<noteq> (has_value = 1)
                             then (ExportMalformedRecord, output)
                             else (ExportOk, candidate)))))"

end
