(* ===== verification/Export_Properties.thy ===== *)
theory Export_Properties
  imports Export_Record
begin

text \<open>
  The export format as a list of bytes, and the two directions of its round trip: what the encoder
  writes is the record of the sample, decoding a record gives the sample back, and a decodable
  input is the record of the sample it decodes to. Then the bounds of the encoder and the behaviour
  of both on failure.
\<close>

section \<open>The format\<close>

primrec payload :: "reading \<Rightarrow> bytes" where
  "payload No_reading = []"
| "payload (Number d) = le_bytes 8 d"
| "payload (Flag b) = [if b then 1 else 0]"
| "payload (Words w) = w"

definition header :: "NormalizedVehicleSample \<Rightarrow> nat \<Rightarrow> bytes" where
  "header s required =
     [0x56, 0x44, 0x45, 0x52, 1] @ le_bytes 2 (of_nat required :: u16) @
     [valueType_to_u8 (smp_valueType s), if hasValue s then 1 else 0,
      availability_to_u8 (smp_availability s), quality_to_u8 (smp_quality s),
      source_to_u8 (smp_source s)] @ le_bytes 8 (smp_timestampMs s) @
     [of_nat (bt_length (smp_signalId s)), of_nat (bt_length (smp_unit s)), of_nat (payloadLength s)]"

definition export_record ::
  "bytes \<Rightarrow> bytes \<Rightarrow> reading \<Rightarrow> VehicleSource \<Rightarrow> VehicleQuality \<Rightarrow> VehicleAvailability \<Rightarrow> u64 \<Rightarrow> bytes" where
  "export_record i u rd sc q a t =
     header (sample_of i u rd sc q a t) (23 + length i + length u + length (payload rd)) @
     i @ u @ payload rd"

lemma length_header [simp]: "length (header s n) = 23"
  by (simp add: header_def)

lemma payloadLength_sample_of: "payloadLength (sample_of i u rd sc q a t) = length (payload rd)"
  by (cases rd) (simp_all add: payloadLength_def)

lemma length_payload: "reading_ok rd \<Longrightarrow> length (payload rd) \<le> 17"
  by (cases rd) (simp_all add: text_ok_def acceptable_def kMaxTextLength_def)

lemma export_isValid_sample_of:
  assumes "text_ok kMaxSignalIdLength i" "text_ok kMaxUnitLength u" "reading_ok rd"
    and "rd = No_reading \<longleftrightarrow> a \<noteq> Availability_Available"
  shows "export_isValid (sample_of i u rd sc q a t) \<longleftrightarrow>
    isValidAvailability a \<and> isValidQuality q \<and> isValidSource sc \<and>
    (case rd of Number d \<Rightarrow> isfinite d | _ \<Rightarrow> True)"
  using assms by (cases rd) (auto simp: export_isValid_def text_ok_def acceptable_def hasValue_def)

section \<open>Writing and reading bytes\<close>

lemma writeU16_front:
  "writeU16 (length pre) v (pre @ x # y # r) = pre @ le_bytes 2 v @ r"
proof -
  have "byte_at 0 v = ucast v" "byte_at 1 v = ucast (drop_bit 8 v)" by (simp_all add: byte_at_def)
  then show ?thesis by (simp add: writeU16_def ucast_low_byte le_bytes_2 list_update_append)
qed

lemma writeU64_bytes:
  assumes "at + 8 \<le> length out"
  shows "writeU64 at v out = blit out at (le_bytes 8 v)"
proof -
  have "fold (\<lambda>k out. out[at + k := byte_at k v]) [0 ..< n] out = blit out at (le_bytes n v)"
    if "at + n \<le> length out" for n
    using that
  proof (induction n)
    case 0
    then show ?case by (simp add: blit_def le_bytes_def)
  next
    case (Suc n)
    have "drop (at + n) out = out ! (at + n) # drop (Suc (at + n)) out"
      using Suc.prems by (simp add: Cons_nth_drop_Suc)
    with Suc show ?case
      by (simp add: blit_def le_bytes_def list_update_append)
  qed
  from this [OF assms] show ?thesis by (simp add: writeU64_def ucast_low_byte byte_at_def)
qed

lemma readU16_word: "readU16 at inp = word_of_bytes 2 (\<lambda>i. inp ! (at + i))"
  by (simp add: readU16_def word_of_bytes_def eval_nat_numeral)

lemma readU64_word: "readU64 at inp = word_of_bytes 8 (\<lambda>i. inp ! (at + i))"
  by (simp add: readU64_def word_of_bytes_def)

lemma copyBytes_blit: "copyBytes at src n out = blit out at (take n src)"
  by (simp add: copyBytes_def blit_def)

lemma containsNull_iff:
  "at + n \<le> length inp \<Longrightarrow> containsNull at n inp \<longleftrightarrow> \<not> nul_free (take n (drop at inp))"
  by (auto simp: containsNull_def list_ex_iff nul_free_def list_all_length)

lemma copyBytes_zero:
  "length xs \<le> m \<Longrightarrow> copyBytes 0 (xs @ r) (length xs) (replicate (m + 1) 0) =
     xs @ replicate (m + 1 - length xs) 0"
  by (simp add: copyBytes_blit blit_def del: replicate_Suc)

lemma blit_header: "length pre = n \<Longrightarrow> blit (pre @ r) n src = pre @ src @ drop (length src) r"
  by (simp add: blit_def)

section \<open>The encoder writes the record\<close>

lemma length_23:
  assumes "23 \<le> length xs"
  obtains x0 x1 x2 x3 x4 x5 x6 x7 x8 x9 x10 x11 x12 x13 x14 x15 x16 x17 x18 x19 x20 x21 x22 r
  where "xs = [x0, x1, x2, x3, x4, x5, x6, x7, x8, x9, x10, x11,
      x12, x13, x14, x15, x16, x17, x18, x19, x20, x21, x22] @ r"
proof -
  have "[0 ..< 23] = [0, 1, 2, 3, 4, 5, 6, 7, 8, 9, 10, 11, 12, 13, 14, 15, 16, 17, 18, 19, 20, 21, 22]"
    by code_simp
  then have "take 23 xs = map ((!) xs) [0, 1, 2, 3, 4, 5, 6, 7, 8, 9, 10, 11, 12, 13, 14, 15, 16, 17, 18, 19, 20, 21, 22]"
    using assms by (metis map_nth_upt)
  then have "xs = map ((!) xs) [0, 1, 2, 3, 4, 5, 6, 7, 8, 9, 10, 11, 12, 13, 14, 15, 16, 17, 18, 19, 20, 21, 22] @ drop 23 xs"
    by (metis append_take_drop_id)
  then show thesis unfolding list.map by (rule that)
qed

lemma encode_header_front:
  assumes "23 \<le> length out"
  shows "encode_header s required out = header s required @ drop 23 out"
proof -
  obtain x0 x1 x2 x3 x4 x5 x6 x7 x8 x9 x10 x11 x12 x13 x14 x15 x16 x17 x18 x19 x20 x21 x22 r
    where out: "out = [x0, x1, x2, x3, x4, x5, x6, x7, x8, x9, x10, x11,
      x12, x13, x14, x15, x16, x17, x18, x19, x20, x21, x22] @ r"
    using length_23 [OF assms] .
  have bytes: "byte_at 0 v = ucast v" "byte_at (Suc 0) v = ucast (drop_bit 8 v)" for v :: u16
    by (simp_all add: byte_at_def)
  show ?thesis
    by (simp add: out encode_header_def Let_def writeU16_def ucast_low_byte writeU64_bytes blit_def
        header_def kVersion_def le_bytes_2 le_bytes_8 bytes)
qed

lemma writePayload_blit:
  "at + length (payload rd) \<le> length out \<Longrightarrow>
   writePayload (sample_of i u rd sc q a t) at out = blit out at (payload rd)"
proof (cases rd)
  case (Flag b)
  moreover assume "at + length (payload rd) \<le> length out"
  ultimately show ?thesis
    by (simp add: writePayload_def blit_def upd_conv_take_nth_drop)
next
  case No_reading
  then show ?thesis by (simp add: writePayload_def blit_def)
next
  case (Number d)
  moreover assume "at + length (payload rd) \<le> length out"
  ultimately show ?thesis by (simp add: writePayload_def writeU64_bytes)
next
  case (Words w)
  then show ?thesis by (simp add: writePayload_def copyBytes_blit canonical_def)
qed

lemma take_canonical [simp]: "take (length s) (bt_data (canonical Capacity s)) = s"
  by (simp add: canonical_def)

text \<open>A valid sample, the parts of the record and the number of its bytes.\<close>

definition exportable ::
  "bytes \<Rightarrow> bytes \<Rightarrow> reading \<Rightarrow> VehicleSource \<Rightarrow> VehicleQuality \<Rightarrow> VehicleAvailability \<Rightarrow> bool" where
  "exportable i u rd sc q a \<longleftrightarrow>
     text_ok kMaxSignalIdLength i \<and> text_ok kMaxUnitLength u \<and> reading_ok rd \<and>
     (rd = No_reading \<longleftrightarrow> a \<noteq> Availability_Available) \<and>
     isValidAvailability a \<and> isValidQuality q \<and> isValidSource sc \<and>
     (case rd of Number d \<Rightarrow> isfinite d | _ \<Rightarrow> True)"

lemma exportable_lengths:
  assumes "exportable i u rd sc q a"
  shows "length i \<le> 64" "length u \<le> 32" "length (payload rd) \<le> 17"
  using assms length_payload [of rd]
  by (auto simp: exportable_def text_ok_def acceptable_def kMaxSignalIdLength_def kMaxUnitLength_def)

lemma length_export_record:
  "length (export_record i u rd sc q a t) = 23 + length i + length u + length (payload rd)"
  by (simp add: export_record_def)

lemma encode_sample_of:
  assumes "exportable i u rd sc q a" and "cap \<le> length out"
  shows "export_encode (sample_of i u rd sc q a t) (Some out) cap =
    (let n = length (export_record i u rd sc q a t)
     in if cap < n then (ExportBufferTooSmall, n, Some out)
        else (ExportOk, n, Some (export_record i u rd sc q a t @ drop n out)))"
proof -
  let ?s = "sample_of i u rd sc q a t" and ?n = "23 + length i + length u + length (payload rd)"
  have req: "export_requiredCapacity ?s = (ExportOk, ?n)"
    using assms(1) by (simp add: export_requiredCapacity_def export_isValid_sample_of exportable_def
        payloadLength_sample_of kHeaderSize_def)
  show ?thesis
  proof (cases "cap < ?n")
    case True
    then show ?thesis by (simp add: export_encode_def req length_export_record)
  next
    case False
    define r where "r = drop 23 out"
    have front: "encode_header ?s ?n out = header ?s ?n @ r"
      using False assms(2) by (simp add: encode_header_front r_def)
    have lr: "length i + length u + length (payload rd) \<le> length r" "drop ?n out = drop (?n - 23) r"
      using False assms(2) by (simp_all add: r_def ac_simps)
    have i: "copyBytes 23 (bt_data (canonical kMaxSignalIdLength i)) (length i) (header ?s ?n @ r) =
        (header ?s ?n @ i) @ drop (length i) r"
      by (simp add: copyBytes_blit blit_header)
    have u: "copyBytes (23 + length i) (bt_data (canonical kMaxUnitLength u)) (length u)
        ((header ?s ?n @ i) @ drop (length i) r) = (header ?s ?n @ i @ u) @ drop (length i + length u) r"
      by (subst copyBytes_blit, subst blit_header) (simp_all add: add.commute)
    have p: "writePayload ?s (23 + length i + length u) ((header ?s ?n @ i @ u) @ drop (length i + length u) r) =
        export_record i u rd sc q a t @ drop (?n - 23) r"
      using lr by (subst writePayload_blit, simp, subst blit_header)
        (simp_all add: export_record_def add.commute add.left_commute)
    show ?thesis using False i u p
      by (simp add: export_encode_def req length_export_record front kHeaderSize_def Let_def lr(2))
  qed
qed

section \<open>The decoder reads the record\<close>

text \<open>The reading of the payload bytes of a type, and the sample built from the parts.\<close>

definition reading_from :: "VehicleValueType \<Rightarrow> bytes \<Rightarrow> VehicleAvailability \<Rightarrow> reading option" where
  "reading_from ty p a =
     (case ty of
        ValueType_None \<Rightarrow> if a \<noteq> Availability_Available \<and> p = [] then Some No_reading else None
      | ValueType_Numeric \<Rightarrow>
          (let d = word_of_bytes 8 (\<lambda>k. p ! k)
           in if length p = 8 \<and> isfinite d then Some (Number d) else None)
      | ValueType_Boolean \<Rightarrow> if length p = 1 \<and> p ! 0 \<le> 1 then Some (Flag (p ! 0 \<noteq> 0)) else None
      | ValueType_Text \<Rightarrow> if text_ok kMaxTextLength p then Some (Words p) else None
      | ValueType_Other _ \<Rightarrow> None)"

lemma fits_buffer: "fits cap (Some mem) \<longleftrightarrow> text_ok cap (c_string mem)"
  by (simp add: fits_def text_ok_def)

lemma text_ok_nul_free: "text_ok cap s \<Longrightarrow> nul_free s"
  by (simp add: text_ok_def)

lemma take_nth_eq:
  assumes "take (length p) (drop at inp) = p" and "at + length p \<le> length inp" and "k < length p"
  shows "inp ! (at + k) = p ! k"
proof -
  have "p ! k = take (length p) (drop at inp) ! k" using assms(1) by simp
  also have "\<dots> = inp ! (at + k)" using assms(2,3) by simp
  finally show ?thesis by simp
qed

lemma decode_value_spec:
  assumes i: "c_string sb = i" and u: "c_string ub = u"
    and p: "take (length p) (drop at inp) = p" "at + length p \<le> length inp"
  shows "case decode_value ty a q sc t sb ub at (length p) inp of
    None \<Rightarrow> reading_from ty p a = None
  | Some (ok, c) \<Rightarrow>
      if ok then text_ok kMaxSignalIdLength i \<and> text_ok kMaxUnitLength u \<and>
        (\<exists>rd. reading_from ty p a = Some rd \<and>
          c = sample_of i u rd sc q (if rd = No_reading then a else Availability_Available) t)
      else \<not> (text_ok kMaxSignalIdLength i \<and> text_ok kMaxUnitLength u \<and> reading_from ty p a \<noteq> None)"
proof -
  note built = factory_def fits_buffer i u option.sel
  show ?thesis
  proof (cases ty)
    case ValueType_None
    then show ?thesis
      by (simp add: decode_value_def tryStatus_factory built reading_from_def del: replicate_Suc)
  next
    case ValueType_Numeric
    have "readU64 at inp = word_of_bytes 8 (\<lambda>k. p ! k)" if "length p = 8"
      unfolding readU64_word using that take_nth_eq [OF p] by (intro word_of_bytes_cong) simp
    then show ?thesis using ValueType_Numeric
      by (simp add: decode_value_def tryNumeric_factory built reading_from_def Let_def del: replicate_Suc)
  next
    case ValueType_Boolean
    have "inp ! at = p ! 0" if "length p = 1" using take_nth_eq [OF p, of 0] that by simp
    then show ?thesis using ValueType_Boolean
      by (simp add: decode_value_def tryBoolean_factory built reading_from_def not_less [symmetric] del: replicate_Suc not_less)
  next
    case ValueType_Text
    have null: "containsNull at (length p) inp \<longleftrightarrow> \<not> nul_free p"
      using containsNull_iff [OF p(2)] p(1) by simp
    have buffer: "copyBytes 0 (drop at inp) (length p) (replicate (kMaxTextLength + 1) 0) =
        p @ replicate (kMaxTextLength + 1 - length p) 0" if "length p \<le> kMaxTextLength"
      using copyBytes_zero [OF that, of "drop (length p) (drop at inp)"] p(1)
      by (metis append_take_drop_id)
    have padded: "c_string (p @ replicate (kMaxTextLength + 1 - length p) 0) = p"
      if "nul_free p" "length p \<le> kMaxTextLength"
      using that by (intro c_string_padded) simp_all
    show ?thesis
    proof (cases "length p \<le> kMaxTextLength \<and> nul_free p")
      case True
      then have "c_string (copyBytes 0 (drop at inp) (length p) (replicate (kMaxTextLength + 1) 0)) = p"
        using buffer padded by simp
      then show ?thesis using ValueType_Text True
        by (auto simp: decode_value_def tryText_factory built reading_from_def null Let_def
            simp del: replicate_Suc)
    next
      case False
      then show ?thesis using ValueType_Text
        by (auto simp: decode_value_def reading_from_def null text_ok_def acceptable_def)
    qed
  next
    case (ValueType_Other b)
    then show ?thesis by (simp add: decode_value_def reading_from_def)
  qed
qed

lemma valid_casts:
  "isValidType ty \<Longrightarrow> valueType_of_u8 (valueType_to_u8 ty) = ty"
  "isValidAvailability a \<Longrightarrow> availability_of_u8 (availability_to_u8 a) = a"
  "isValidQuality q \<Longrightarrow> quality_of_u8 (quality_to_u8 q) = q"
  "isValidSource sc \<Longrightarrow> source_of_u8 (source_to_u8 sc) = sc"
  by (auto simp: isValidType_def isValidAvailability_def isValidQuality_def isValidSource_def
      valueType_of_u8_def availability_of_u8_def quality_of_u8_def source_of_u8_def)

lemma reading_from_payload:
  assumes "reading_ok rd" and "rd = No_reading \<longrightarrow> a \<noteq> Availability_Available"
    and "case rd of Number d \<Rightarrow> isfinite d | _ \<Rightarrow> True"
  shows "reading_from (nv_type (value_of rd)) (payload rd) a = Some rd"
proof (cases rd)
  case (Number d)
  have "word_of_bytes 8 (\<lambda>k. le_bytes 8 d ! k) = word_of_bytes 8 (\<lambda>k. byte_at k d)"
    by (rule word_of_bytes_cong) (simp add: le_bytes_def)
  also have "\<dots> = d" by (rule word_of_bytes_at) simp
  finally show ?thesis using Number assms(3) by (simp add: reading_from_def)
qed (use assms in \<open>simp_all add: reading_from_def\<close>)

lemma reading_from_Some:
  assumes "reading_from ty p a = Some rd"
  shows "ty = nv_type (value_of rd) \<and> p = payload rd \<and> reading_ok rd \<and>
    (rd = No_reading \<longrightarrow> a \<noteq> Availability_Available) \<and>
    (case rd of Number d \<Rightarrow> isfinite d | _ \<Rightarrow> True)"
proof (cases ty)
  case ValueType_Numeric
  have "p = le_bytes 8 (word_of_bytes 8 (\<lambda>k. p ! k) :: u64)" if "length p = 8"
    using that by (intro nth_equalityI) (simp_all add: le_bytes_def byte_at_word_of_bytes)
  with assms ValueType_Numeric show ?thesis by (auto simp: reading_from_def Let_def split: if_splits)
next
  case ValueType_Boolean
  then have p: "length p = 1" "p ! 0 \<le> 1" "rd = Flag (p ! 0 \<noteq> 0)"
    using assms by (auto simp: reading_from_def split: if_splits)
  have "p ! 0 = 0 \<or> p ! 0 = 1" using p(2) by (auto simp: word_le_nat_alt le_Suc_eq word_unat_eq_iff)
  moreover have "p = [p ! 0]" using p(1) by (cases p) auto
  ultimately show ?thesis using ValueType_Boolean p(3) by auto
qed (use assms in \<open>auto simp: reading_from_def split: if_splits\<close>)

text \<open>What the decoder has checked when it accepts.\<close>

definition field_at :: "bytes \<Rightarrow> nat \<Rightarrow> nat \<Rightarrow> bytes" where
  "field_at inp at n = take n (drop at inp)"

definition decoder_guard :: "bytes \<Rightarrow> nat \<Rightarrow> bool" where
  "decoder_guard inp len \<longleftrightarrow>
     23 \<le> len \<and> inp ! 0 = 0x56 \<and> inp ! 1 = 0x44 \<and> inp ! 2 = 0x45 \<and> inp ! 3 = 0x52 \<and>
     unat (readU16 5 inp) = len \<and> inp ! 4 = 1 \<and>
     isValidType (valueType_of_u8 (inp ! 7)) \<and> inp ! 8 \<le> 1 \<and>
     isValidAvailability (availability_of_u8 (inp ! 9)) \<and> isValidQuality (quality_of_u8 (inp ! 10)) \<and>
     isValidSource (source_of_u8 (inp ! 11)) \<and> unat (inp ! 20) \<le> kMaxSignalIdLength \<and>
     unat (inp ! 21) \<le> kMaxUnitLength \<and>
     23 + unat (inp ! 20) + unat (inp ! 21) + unat (inp ! 22) = len \<and>
     nul_free (field_at inp 23 (unat (inp ! 20))) \<and>
     nul_free (field_at inp (23 + unat (inp ! 20)) (unat (inp ! 21)))"

definition decoder_value :: "bytes \<Rightarrow> (bool \<times> NormalizedVehicleSample) option" where
  "decoder_value inp =
     decode_value (valueType_of_u8 (inp ! 7)) (availability_of_u8 (inp ! 9)) (quality_of_u8 (inp ! 10))
       (source_of_u8 (inp ! 11)) (readU64 12 inp)
       (copyBytes 0 (drop 23 inp) (unat (inp ! 20)) (replicate (kMaxSignalIdLength + 1) 0))
       (copyBytes 0 (drop (23 + unat (inp ! 20)) inp) (unat (inp ! 21)) (replicate (kMaxUnitLength + 1) 0))
       (23 + unat (inp ! 20) + unat (inp ! 21)) (unat (inp ! 22)) inp"

lemma export_decode_guard:
  assumes "len \<le> length inp"
  shows "export_decode (Some inp) len output = (ExportOk, s) \<longleftrightarrow>
    decoder_guard inp len \<and> decoder_value inp = Some (True, s) \<and>
    smp_availability s = availability_of_u8 (inp ! 9) \<and> hasValue s = (inp ! 8 = 1)"
proof (cases "23 + unat (inp ! 20) + unat (inp ! 21) + unat (inp ! 22) = len")
  case True
  then have "containsNull 23 (unat (inp ! 20)) inp \<longleftrightarrow> \<not> nul_free (field_at inp 23 (unat (inp ! 20)))"
    "containsNull (23 + unat (inp ! 20)) (unat (inp ! 21)) inp \<longleftrightarrow>
      \<not> nul_free (field_at inp (23 + unat (inp ! 20)) (unat (inp ! 21)))"
    using assms unfolding field_at_def by (intro containsNull_iff; simp)+
  then show ?thesis
    unfolding export_decode_def decoder_guard_def decoder_value_def kHeaderSize_def kVersion_def Let_def
    using True by (auto simp: not_less split: option.splits if_splits)
next
  case False
  then show ?thesis
    by (auto simp: export_decode_def decoder_guard_def kHeaderSize_def Let_def split: if_splits)
qed

lemma c_string_copied:
  assumes "at + n \<le> length inp" and "n \<le> cap" and "nul_free (field_at inp at n)"
  shows "c_string (copyBytes 0 (drop at inp) n (replicate (cap + 1) 0)) = field_at inp at n"
proof -
  have "length (field_at inp at n) = n" using assms(1) by (simp add: field_at_def)
  then have "copyBytes 0 (drop at inp) n (replicate (cap + 1) 0) =
      field_at inp at n @ replicate (cap + 1 - n) 0"
    by (simp add: copyBytes_blit blit_def field_at_def [symmetric] del: replicate_Suc)
  then show ?thesis using assms(2,3) by (simp add: c_string_padded del: replicate_Suc)
qed

text \<open>The parts of an input whose header is consistent, and the verdict on the value.\<close>

lemma decoder_value_spec:
  assumes "decoder_guard inp len" and "len \<le> length inp"
  shows "let i = field_at inp 23 (unat (inp ! 20));
             u = field_at inp (23 + unat (inp ! 20)) (unat (inp ! 21));
             p = field_at inp (23 + unat (inp ! 20) + unat (inp ! 21)) (unat (inp ! 22));
             a = availability_of_u8 (inp ! 9); rd = reading_from (valueType_of_u8 (inp ! 7)) p a
    in (decoder_value inp = Some (True, s) \<longleftrightarrow>
         text_ok kMaxSignalIdLength i \<and> text_ok kMaxUnitLength u \<and> rd \<noteq> None \<and>
         s = sample_of i u (the rd) (source_of_u8 (inp ! 11)) (quality_of_u8 (inp ! 10))
           (if the rd = No_reading then a else Availability_Available) (readU64 12 inp))"
proof -
  let ?i = "field_at inp 23 (unat (inp ! 20))"
  let ?u = "field_at inp (23 + unat (inp ! 20)) (unat (inp ! 21))"
  let ?at = "23 + unat (inp ! 20) + unat (inp ! 21)"
  let ?p = "field_at inp ?at (unat (inp ! 22))"
  have len: "?at + unat (inp ! 22) \<le> length inp" and lp: "length ?p = unat (inp ! 22)"
    using assms by (auto simp: decoder_guard_def field_at_def)
  have i: "c_string (copyBytes 0 (drop 23 inp) (unat (inp ! 20)) (replicate (kMaxSignalIdLength + 1) 0)) = ?i"
    using assms len by (intro c_string_copied) (simp_all add: decoder_guard_def)
  have u: "c_string (copyBytes 0 (drop (23 + unat (inp ! 20)) inp) (unat (inp ! 21))
      (replicate (kMaxUnitLength + 1) 0)) = ?u"
    using assms len by (intro c_string_copied) (simp_all add: decoder_guard_def)
  have p: "take (length ?p) (drop ?at inp) = ?p" "?at + length ?p \<le> length inp"
    using lp len by (simp_all add: field_at_def)
  show ?thesis
    using decode_value_spec [OF i u p, where ty = "valueType_of_u8 (inp ! 7)"
        and a = "availability_of_u8 (inp ! 9)" and q = "quality_of_u8 (inp ! 10)"
        and sc = "source_of_u8 (inp ! 11)" and t = "readU64 12 inp"]
    unfolding decoder_value_def [symmetric] lp Let_def
    by (auto split: option.splits prod.splits if_splits)
qed

text \<open>The decoder accepts exactly the records of the exportable samples.\<close>

lemma decoder_accepts_record:
  assumes ok: "export_decode (Some inp) len output = (ExportOk, s)" and len: "len \<le> length inp"
  shows "\<exists>i u rd sc q a t. exportable i u rd sc q a \<and> s = sample_of i u rd sc q a t \<and>
    take len inp = export_record i u rd sc q a t"
proof -
  have guard: "decoder_guard inp len" and v: "decoder_value inp = Some (True, s)"
    and av: "smp_availability s = availability_of_u8 (inp ! 9)" and hv: "hasValue s = (inp ! 8 = 1)"
    using ok unfolding export_decode_guard [OF len] by auto
  define sl ul vl where "sl = unat (inp ! 20)" and "ul = unat (inp ! 21)" and "vl = unat (inp ! 22)"
  define i u p where "i = field_at inp 23 sl" and "u = field_at inp (23 + sl) ul"
    and "p = field_at inp (23 + sl + ul) vl"
  define a where "a = availability_of_u8 (inp ! 9)"
  have n: "23 + sl + ul + vl = len" using guard by (simp add: decoder_guard_def sl_def ul_def vl_def)
  have lengths: "length i = sl" "length u = ul" "length p = vl"
    using n len by (simp_all add: i_def u_def p_def field_at_def)
  obtain rd where rd: "reading_from (valueType_of_u8 (inp ! 7)) p a = Some rd"
    and iok: "text_ok kMaxSignalIdLength i" and uok: "text_ok kMaxUnitLength u"
    and s: "s = sample_of i u rd (source_of_u8 (inp ! 11)) (quality_of_u8 (inp ! 10))
        (if rd = No_reading then a else Availability_Available) (readU64 12 inp)"
    using decoder_value_spec [OF guard len, of s] v
    unfolding Let_def sl_def [symmetric] ul_def [symmetric] vl_def [symmetric] i_def [symmetric]
      u_def [symmetric] p_def [symmetric] a_def [symmetric] by auto
  define sc q t where "sc = source_of_u8 (inp ! 11)" and "q = quality_of_u8 (inp ! 10)"
    and "t = readU64 12 inp"
  have "(if rd = No_reading then a else Availability_Available) = a"
    using av by (simp add: s a_def)
  then have s: "s = sample_of i u rd sc q a t" by (simp add: s sc_def q_def t_def)
  note rdS = reading_from_Some [OF rd]
  have "rd = No_reading \<longleftrightarrow> a \<noteq> Availability_Available"
    using rdS \<open>(if rd = No_reading then a else Availability_Available) = a\<close> by (auto split: if_splits)
  with guard rdS iok uok have ex: "exportable i u rd sc q a"
    by (simp add: exportable_def decoder_guard_def a_def q_def sc_def)
  have "take len inp = take 23 inp @ take (sl + ul + vl) (drop 23 inp)"
    using n by (simp add: take_add [symmetric] add.assoc)
  also have "take (sl + ul + vl) (drop 23 inp) = i @ u @ p"
    by (simp add: i_def u_def p_def field_at_def take_add add.commute add.left_commute)
  also have "p = payload rd" using rdS by simp
  also have "take 23 inp = header s len"
  proof -
    have "23 \<le> length inp" using guard len by (simp add: decoder_guard_def)
    then obtain x0 x1 x2 x3 x4 x5 x6 x7 x8 x9 x10 x11 x12 x13 x14 x15 x16 x17 x18 x19 x20 x21 x22 r
      where inp: "inp = [x0, x1, x2, x3, x4, x5, x6, x7, x8, x9, x10, x11, x12, x13, x14, x15, x16, x17,
        x18, x19, x20, x21, x22] @ r"
      by (rule length_23)
    have "len = unat (readU16 5 inp)" using guard by (simp add: decoder_guard_def)
    then have "readU16 5 inp = of_nat len" by simp
    then have size: "[x5, x6] = le_bytes 2 (of_nat len :: u16)"
      by (simp add: readU16_word word_of_bytes_eq_iff all_less_two numeral_2_eq_2 le_bytes_def inp)
    have "le_bytes 8 t = map (\<lambda>k. inp ! (12 + k)) [0 ..< 8]"
      unfolding t_def readU64_word le_bytes_def by (simp add: byte_at_word_of_bytes)
    then have stamp: "[x12, x13, x14, x15, x16, x17, x18, x19] = le_bytes 8 t"
      by (simp add: upt_8 inp)
    have "nv_type (value_of rd) = valueType_of_u8 (inp ! 7)" using rdS by simp
    then have "valueType_to_u8 (smp_valueType s) = inp ! 7"
      by (simp only: s sample_of_sel valueType_casts)
    then have "valueType_to_u8 (smp_valueType s) = x7" by (simp only: inp) simp
    moreover have "(if hasValue s then 1 else 0) = x8"
      using hv guard by (auto simp: decoder_guard_def inp word_le_nat_alt le_Suc_eq word_unat_eq_iff)
    moreover have "availability_to_u8 a = x9" "quality_to_u8 q = x10" "source_to_u8 sc = x11"
      by (simp_all add: a_def q_def sc_def inp)
    moreover have "of_nat (length i) = x20" "of_nat (length u) = x21" "of_nat (length p) = x22"
      using lengths by (simp_all add: sl_def ul_def vl_def inp)
    moreover have "x0 = 0x56" "x1 = 0x44" "x2 = 0x45" "x3 = 0x52" "x4 = 1"
      using guard by (simp_all add: decoder_guard_def inp)
    ultimately show ?thesis unfolding header_def size [symmetric] stamp [symmetric]
      using rdS stamp by (simp add: inp s payloadLength_sample_of)
  qed
  finally have "take len inp = export_record i u rd sc q a t"
    using n lengths rdS by (simp add: export_record_def s)
  with ex s show ?thesis by blast
qed

lemma decoder_reads_record:
  assumes ex: "exportable i u rd sc q a" and inp: "inp = export_record i u rd sc q a t @ r"
  shows "export_decode (Some inp) (length (export_record i u rd sc q a t)) output =
    (ExportOk, sample_of i u rd sc q a t)"
proof -
  let ?s = "sample_of i u rd sc q a t" and ?n = "length (export_record i u rd sc q a t)"
  note lens = exportable_lengths [OF ex]
  have n: "?n = 23 + length i + length u + length (payload rd)" "?n \<le> 136"
    using lens by (simp_all add: length_export_record)
  have head: "inp = [0x56, 0x44, 0x45, 0x52, 1, byte_at 0 (of_nat ?n :: u16), byte_at 1 (of_nat ?n :: u16),
      valueType_to_u8 (smp_valueType ?s), if hasValue ?s then 1 else 0, availability_to_u8 a,
      quality_to_u8 q, source_to_u8 sc, byte_at 0 t, byte_at 1 t, byte_at 2 t, byte_at 3 t, byte_at 4 t,
      byte_at 5 t, byte_at 6 t, byte_at 7 t, of_nat (length i), of_nat (length u),
      of_nat (length (payload rd))] @ i @ u @ payload rd @ r"
    by (simp add: inp export_record_def header_def le_bytes_2 le_bytes_8 payloadLength_sample_of n(1)
        add.assoc)
  have bytes: "inp ! 0 = 0x56" "inp ! 1 = 0x44" "inp ! 2 = 0x45" "inp ! 3 = 0x52" "inp ! 4 = 1"
    "inp ! 7 = valueType_to_u8 (smp_valueType ?s)" "inp ! 8 = (if hasValue ?s then 1 else 0)"
    "inp ! 9 = availability_to_u8 a" "inp ! 10 = quality_to_u8 q" "inp ! 11 = source_to_u8 sc"
    "unat (inp ! 20) = length i" "unat (inp ! 21) = length u" "unat (inp ! 22) = length (payload rd)"
    using lens by (simp_all add: head u8_of_nat_eq)
  have size: "unat (readU16 5 inp) = ?n"
  proof -
    have "readU16 5 inp = of_nat ?n"
      unfolding readU16_word by (subst word_of_bytes_eq_iff) (simp_all add: numeral_2_eq_2 all_less_two head)
    then show ?thesis using n(2) by (simp add: unat_of_nat take_bit_eq_mod)
  qed
  have "map (\<lambda>k. inp ! (12 + k)) [0 ..< 8] = le_bytes 8 t"
    by (simp add: upt_8 head le_bytes_8)
  then have "\<forall>k < 8. inp ! (12 + k) = byte_at k t"
    by (simp add: le_bytes_def)
  then have stamp: "readU64 12 inp = t"
    unfolding readU64_word by (subst word_of_bytes_eq_iff) simp_all
  have body: "drop 23 inp = i @ u @ payload rd @ r" by (simp add: head)
  then have rest: "drop (23 + k) inp = drop k (i @ u @ payload rd @ r)" for k
    by (metis add.commute drop_drop)
  have fields: "field_at inp 23 (length i) = i" "field_at inp (23 + length i) (length u) = u"
    "field_at inp (23 + length i + length u) (length (payload rd)) = payload rd"
    by (simp_all add: field_at_def body rest add.assoc)
  have casts: "valueType_of_u8 (valueType_to_u8 (smp_valueType ?s)) = smp_valueType ?s"
    "availability_of_u8 (availability_to_u8 a) = a" "quality_of_u8 (quality_to_u8 q) = q"
    "source_of_u8 (source_to_u8 sc) = sc"
    using ex by (auto simp: exportable_def valueType_of_u8_def intro!: valid_casts split: reading.split)
  have le: "?n \<le> length inp" by (simp add: inp)
  have guard: "decoder_guard inp ?n"
    using ex n lens size bytes casts fields
    by (auto simp: decoder_guard_def exportable_def text_ok_def acceptable_def isValidType_def
        split: reading.split)
  have rd: "reading_from (smp_valueType ?s) (payload rd) a = Some rd"
    using ex by (simp only: sample_of_sel) (intro reading_from_payload; simp add: exportable_def)
  have "(if rd = No_reading then a else Availability_Available) = a"
    using ex by (auto simp: exportable_def)
  then have "decoder_value inp = Some (True, ?s)"
    using decoder_value_spec [OF guard le, of ?s] rd ex
    by (simp only: bytes casts fields stamp Let_def option.sel) (simp add: exportable_def)
  then show ?thesis using export_decode_guard [OF le] guard bytes casts by simp
qed

section \<open>Properties\<close>

definition meaningful :: "NormalizedVehicleSample \<Rightarrow> bool" where
  "meaningful s \<longleftrightarrow>
     isValidAvailability (smp_availability s) \<and> isValidQuality (smp_quality s) \<and>
     isValidSource (smp_source s) \<and>
     (smp_valueType s = ValueType_Numeric \<longrightarrow> isfinite (nv_numeric (smp_value s)))"

lemma exportable_sample:
  assumes "sample_inv s" and "meaningful s"
  obtains i u rd sc q a t where "s = sample_of i u rd sc q a t" "exportable i u rd sc q a"
proof -
  from assms(1) obtain i u rd sc q a t where s: "s = sample_of i u rd sc q a t"
    "text_ok kMaxSignalIdLength i" "text_ok kMaxUnitLength u" "reading_ok rd"
    "rd = No_reading \<longleftrightarrow> a \<noteq> Availability_Available"
    by (rule sample_invE)
  then have "exportable i u rd sc q a"
    using assms(2) by (simp add: exportable_def meaningful_def split: reading.splits)
  with s(1) that show thesis by blast
qed

lemma exportable_inv: "exportable i u rd sc q a \<Longrightarrow> sample_inv (sample_of i u rd sc q a t)"
  by (rule sample_invI) (simp_all add: exportable_def)

lemma export_isValid_meaningful:
  assumes "sample_inv s"
  shows "export_isValid s \<longleftrightarrow> meaningful s"
  using assms
  by (elim sample_invE) (auto simp: export_isValid_sample_of meaningful_def split: reading.splits)

lemma encode_invalid:
  "sample_inv s \<Longrightarrow> \<not> meaningful s \<Longrightarrow> export_encode s out cap = (ExportInvalidSample, 0, out)"
  by (simp add: export_encode_def export_requiredCapacity_def export_isValid_meaningful)

lemma decode_failure:
  "fst (export_decode input len r) \<noteq> ExportOk \<Longrightarrow> snd (export_decode input len r) = r"
  by (auto simp: export_decode_def Let_def split: if_splits option.splits prod.splits)

text \<open>
  C9: encoding and then decoding a sample gives exactly that sample back: every field, the texts
  byte for byte and a number bit for bit, whatever the rest of the buffer holds.
\<close>

lemma export_roundtrip:
  assumes "sample_inv s" and "capacity \<le> length out"
    and "export_encode s (Some out) capacity = (ExportOk, n, Some out')"
  shows "export_decode (Some out') n output = (ExportOk, s)"
proof -
  have "meaningful s" using assms(1,3) encode_invalid by force
  then obtain i u rd sc q a t where s: "s = sample_of i u rd sc q a t" and ex: "exportable i u rd sc q a"
    using exportable_sample [OF assms(1)] by blast
  have "n = length (export_record i u rd sc q a t)" "out' = export_record i u rd sc q a t @ drop n out"
    using encode_sample_of [OF ex assms(2)] assms(3) by (auto simp: s Let_def split: if_splits)
  then show ?thesis using decoder_reads_record [OF ex] s by blast
qed

text \<open>The coolant temperature 90.5, as a number with a unit.\<close>

definition coolant_sample :: NormalizedVehicleSample where
  "coolant_sample = sample_of [0x74] [0x43] (Number 0x4056A00000000000) Source_Obd Quality_ValidCurrent
     Availability_Available 7"

lemma coolant_exportable:
  "exportable [0x74] [0x43] (Number 0x4056A00000000000) Source_Obd Quality_ValidCurrent Availability_Available"
  by code_simp

lemma coolant_encoded:
  "export_encode coolant_sample (Some (replicate 40 0)) 40 =
     (ExportOk, 33, Some (export_record [0x74] [0x43] (Number 0x4056A00000000000) Source_Obd
        Quality_ValidCurrent Availability_Available 7 @ replicate 7 0))"
  using encode_sample_of [OF coolant_exportable, of 40 "replicate 40 0" 7]
  by (simp add: coolant_sample_def length_export_record Let_def)

lemma export_roundtrip_witness:
  "export_decode (Some (export_record [0x74] [0x43] (Number 0x4056A00000000000) Source_Obd
        Quality_ValidCurrent Availability_Available 7 @ replicate 7 0)) 33 NormalizedVehicleSample_default =
     (ExportOk, coolant_sample)"
proof -
  have "sample_inv coolant_sample"
    unfolding coolant_sample_def by (rule exportable_inv [OF coolant_exportable])
  from export_roundtrip [OF this _ coolant_encoded] show ?thesis by simp
qed

text \<open>
  C15: the decoder is strict. An input it accepts is, byte for byte, what the encoder writes for the
  sample it returns, so every sample has exactly one encoding and no malformed, padded or
  inconsistent record is accepted; the sample satisfies the invariant of samples. On any other
  verdict the caller's object is untouched.
\<close>

lemma export_decoder_strict:
  assumes "len \<le> length inp" and "len \<le> length out"
  shows "case export_decode (Some inp) len output of
    (ExportOk, s) \<Rightarrow> sample_inv s \<and>
      export_encode s (Some out) len = (ExportOk, len, Some (take len inp @ drop len out))
  | (_, s) \<Rightarrow> s = output"
proof (cases "\<exists>s. export_decode (Some inp) len output = (ExportOk, s)")
  case True
  then obtain s where ok: "export_decode (Some inp) len output = (ExportOk, s)" by blast
  from decoder_accepts_record [OF ok assms(1)] obtain i u rd sc q a t where
    ex: "exportable i u rd sc q a" and s: "s = sample_of i u rd sc q a t"
    and rec: "take len inp = export_record i u rd sc q a t" by blast
  then have "length (export_record i u rd sc q a t) = len" using assms(1) by (metis length_take min.absorb2)
  then show ?thesis using encode_sample_of [OF ex assms(2)] exportable_inv [OF ex] s
    by (simp add: ok rec [symmetric] Let_def)
next
  case False
  then have "fst (export_decode (Some inp) len output) \<noteq> ExportOk"
    by (metis prod.collapse)
  from decode_failure [OF this] this show ?thesis
    by (auto simp: case_prod_beta split: VehicleDataExportStatus.split)
qed

lemma export_decoder_strict_witness:
  "export_encode coolant_sample (Some (replicate 33 0)) 33 =
     (ExportOk, 33, Some (export_record [0x74] [0x43] (Number 0x4056A00000000000) Source_Obd
        Quality_ValidCurrent Availability_Available 7)) \<and>
   snd (export_decode (Some (replicate 33 0)) 33 coolant_sample) = coolant_sample"
proof -
  let ?r = "export_record [0x74] [0x43] (Number 0x4056A00000000000) Source_Obd
        Quality_ValidCurrent Availability_Available 7"
  have len: "length ?r = 33" by (simp add: length_export_record)
  have "export_decode (Some ?r) 33 NormalizedVehicleSample_default = (ExportOk, coolant_sample)"
    using decoder_reads_record [OF coolant_exportable, of ?r 7 "[]"] len by (simp add: coolant_sample_def)
  moreover have "fst (export_decode (Some (replicate 33 0)) 33 coolant_sample) = ExportMalformedRecord"
    by (simp add: export_decode_def kHeaderSize_def)
  ultimately show ?thesis
    using export_decoder_strict [of 33 ?r "replicate 33 0" NormalizedVehicleSample_default]
      export_decoder_strict [of 33 "replicate 33 0" "replicate 33 0" coolant_sample] len
    by (auto split: prod.splits)
qed



end
