(* ===== verification/Bounded_Writer.thy ===== *)
theory Bounded_Writer
  imports Prelude
begin

text \<open>
  The writer both serialisers use (class \<open>Writer\<close> of \<open>application/ble_vehicle_data_payload.h\<close>, class
  \<open>JsonWriter\<close> of \<open>application/web_vehicle_data_response.h\<close>): a buffer, its capacity and the number
  of bytes so far. A writer without a buffer only counts. \<open>run_all\<close> is the short-circuit \<open>&&\<close> of a
  chain of calls. A call \<open>emits\<close> a list of bytes if it appends exactly these whenever they fit and
  reports failure otherwise; a chain of calls emits the concatenation. \<open>size_t\<close> has the 32 bits of the target.
\<close>

section \<open>State and chains of calls\<close>

definition size_max :: nat where "size_max = 4294967295"

record BoundedWriter =
  bw_output :: "bytes option"
  bw_capacity :: nat
  bw_size :: nat

definition BoundedWriter_make :: "bytes option \<Rightarrow> nat \<Rightarrow> BoundedWriter" where
  "BoundedWriter_make output capacity = \<lparr>bw_output = output, bw_capacity = capacity, bw_size = 0\<rparr>"

type_synonym writing = "BoundedWriter \<Rightarrow> bool \<times> BoundedWriter"

primrec run_all :: "writing list \<Rightarrow> writing" where
  "run_all [] w = (True, w)"
| "run_all (f # fs) w = (case f w of (True, w') \<Rightarrow> run_all fs w' | (False, w') \<Rightarrow> (False, w'))"

section \<open>Emitting bytes\<close>

definition bw_ok :: "BoundedWriter \<Rightarrow> bool" where
  "bw_ok w \<longleftrightarrow> bw_size w \<le> size_max \<and>
     (case bw_output w of
        None \<Rightarrow> True
      | Some out \<Rightarrow> bw_size w \<le> bw_capacity w \<and> bw_capacity w \<le> length out)"

definition bw_room :: "nat \<Rightarrow> BoundedWriter \<Rightarrow> bool" where
  "bw_room n w \<longleftrightarrow> bw_size w + n \<le> size_max \<and> (bw_output w \<noteq> None \<longrightarrow> bw_size w + n \<le> bw_capacity w)"

definition bw_advance :: "bytes \<Rightarrow> BoundedWriter \<Rightarrow> BoundedWriter" where
  "bw_advance bs w =
     w\<lparr>bw_output := map_option (\<lambda>out. blit out (bw_size w) bs) (bw_output w),
       bw_size := bw_size w + length bs\<rparr>"

definition emits :: "writing \<Rightarrow> bytes \<Rightarrow> bool" where
  "emits f bs \<longleftrightarrow> (\<forall>w. bw_ok w \<longrightarrow>
     (if bw_room (length bs) w then f w = (True, bw_advance bs w) else \<not> fst (f w)))"

lemma blit_blit:
  "n + length b \<le> length out \<Longrightarrow> blit (blit out n b) (n + length b) c = blit out n (b @ c)"
  by (simp add: blit_def ac_simps)

lemma advance_ok: "bw_ok w \<Longrightarrow> bw_room (length a) w \<Longrightarrow> bw_ok (bw_advance a w)"
  by (auto simp: bw_advance_def bw_room_def bw_ok_def split: option.splits)

lemma advance_room: "bw_room n (bw_advance a w) \<longleftrightarrow> bw_room (length a + n) w"
  by (auto simp: bw_advance_def bw_room_def)

lemma advance_append:
  "bw_ok w \<Longrightarrow> bw_room (length a + length b) w \<Longrightarrow> bw_advance b (bw_advance a w) = bw_advance (a @ b) w"
  by (cases "bw_output w") (simp_all add: bw_advance_def bw_room_def bw_ok_def blit_blit add.assoc)

lemma room_less: "bw_room (m + n) w \<Longrightarrow> bw_room m w"
  by (auto simp: bw_room_def)

lemma emits_room: "emits f bs \<Longrightarrow> bw_ok w \<Longrightarrow> bw_room (length bs) w \<Longrightarrow> f w = (True, bw_advance bs w)"
  by (simp add: emits_def)

lemma emits_full: "emits f bs \<Longrightarrow> bw_ok w \<Longrightarrow> \<not> bw_room (length bs) w \<Longrightarrow> \<not> fst (f w)"
  by (simp add: emits_def)

lemma emitsI:
  assumes "\<And>w. bw_ok w \<Longrightarrow> bw_room (length bs) w \<Longrightarrow> f w = (True, bw_advance bs w)"
    and "\<And>w. bw_ok w \<Longrightarrow> \<not> bw_room (length bs) w \<Longrightarrow> \<not> fst (f w)"
  shows "emits f bs"
  using assms by (simp add: emits_def)

lemma emits_Nil: "emits (run_all []) []"
  by (auto simp: emits_def bw_room_def bw_ok_def bw_advance_def blit_def option.map_ident split: option.splits)

lemma emits_Cons:
  assumes f: "emits f a" and fs: "emits (run_all fs) b"
  shows "emits (run_all (f # fs)) (a @ b)"
proof (rule emitsI)
  fix w assume w: "bw_ok w" "bw_room (length (a @ b)) w"
  then have "f w = (True, bw_advance a w)"
    using room_less [of "length a" "length b"] by (intro emits_room [OF f]) simp_all
  moreover have "run_all fs (bw_advance a w) = (True, bw_advance b (bw_advance a w))"
    using w room_less [of "length a" "length b"]
    by (intro emits_room [OF fs] advance_ok) (simp_all add: advance_room)
  ultimately show "run_all (f # fs) w = (True, bw_advance (a @ b) w)"
    using w advance_append [of w a b] by simp
next
  fix w assume w: "bw_ok w" "\<not> bw_room (length (a @ b)) w"
  show "\<not> fst (run_all (f # fs) w)"
  proof (cases "bw_room (length a) w")
    case True
    then have "\<not> fst (run_all fs (bw_advance a w))"
      using w by (intro emits_full [OF fs] advance_ok) (simp_all add: advance_room)
    then show ?thesis using emits_room [OF f w(1) True] by simp
  next
    case False
    then show ?thesis using emits_full [OF f w(1)] by (auto split: prod.split bool.split)
  qed
qed

lemma emits_run: "list_all2 emits fs bss \<Longrightarrow> emits (run_all fs) (concat bss)"
  by (induction rule: list_all2_induct) (auto intro: emits_Cons emits_Nil simp del: run_all.simps)

lemma emits_run_append:
  assumes "emits (run_all fs) a" and "emits (run_all gs) b"
  shows "emits (run_all (fs @ gs)) (a @ b)"
proof -
  have "run_all (fs @ gs) = run_all [run_all fs, run_all gs]"
  proof
    show "run_all (fs @ gs) w = run_all [run_all fs, run_all gs] w" for w
      by (induction fs arbitrary: w) (auto split: prod.split bool.split)
  qed
  moreover have "emits (run_all [run_all fs, run_all gs]) (a @ b @ [])"
    using assms by (intro emits_Cons emits_Nil)
  ultimately show ?thesis by simp
qed

lemmas emits_intros = emits_Cons emits_Nil emits_run_append

text \<open>The two passes of the serialisers: counting, then writing into the buffer.\<close>

lemma emits_sizing:
  assumes "emits f bs"
  shows "length bs \<le> size_max \<Longrightarrow>
      \<exists>w. f (BoundedWriter_make None n) = (True, w) \<and> bw_size w = length bs"
    and "size_max < length bs \<Longrightarrow> \<not> fst (f (BoundedWriter_make None n))"
  using assms by (simp_all add: emits_def bw_ok_def bw_room_def BoundedWriter_make_def bw_advance_def)

lemma emits_writing:
  assumes "emits f bs" and "length bs \<le> size_max" and "length bs \<le> capacity" and "capacity \<le> length out"
  shows "\<exists>w. f (BoundedWriter_make (Some out) capacity) = (True, w) \<and> bw_size w = length bs \<and>
    bw_output w = Some (bs @ drop (length bs) out)"
  using assms by (simp add: emits_def bw_ok_def bw_room_def BoundedWriter_make_def bw_advance_def blit_def)

section \<open>The interface of the two writers\<close>

text \<open>
  What the operations built on \<open>append\<close> rely on: it emits its argument. The two classes of the
  repository differ in how they check the capacity; both are interpretations.
\<close>

locale byte_writer =
  fixes append :: "bytes \<Rightarrow> writing"
  assumes emits_append: "emits (append bs) bs"
begin

lemma emits_pieces: "emits (run_all (map append bss)) (concat bss)"
  by (rule emits_run) (simp add: list_all2_map1 list.rel_refl emits_append)

lemma emits_if_short: "length bs \<le> n \<Longrightarrow> emits (\<lambda>w. if length bs \<le> n then append bs w else (False, w)) bs"
  using emits_append by simp

end

end
