(* ===== verification/Ble_Payload.thy ===== *)
theory Ble_Payload
  imports Read_Model Byte_Order Bounded_Writer
begin

text \<open>
  The logical BLE records (\<open>application/ble_vehicle_data_payload.h\<close>): the operations of the writer, the
  codes of the enumerations, the three record writers and the two-pass encoder. The state of a
  writer and the chains of its calls are those of \<open>Bounded_Writer\<close>.
\<close>

datatype BlePayloadStatus = BleEncoded | BleInsufficientCapacity | BleInvalidInput

record BlePayloadResult =
  bp_status :: BlePayloadStatus
  bp_requiredCapacity :: nat

datatype BlePayloadRecordType = Record_SnapshotMetadata | Record_Capability | Record_Sample

primrec recordType_code :: "BlePayloadRecordType \<Rightarrow> u8" where
  "recordType_code Record_SnapshotMetadata = 1"
| "recordType_code Record_Capability = 2"
| "recordType_code Record_Sample = 3"

section \<open>The writer\<close>

definition ble_append :: "bytes \<Rightarrow> writing" where
  "ble_append bs w =
     (if size_max - bw_size w < length bs then (False, w)
      else if bw_output w \<noteq> None \<and>
              (bw_capacity w < bw_size w \<or> bw_capacity w - bw_size w < length bs)
      then (False, w)
      else (True, w\<lparr>bw_output := map_option (\<lambda>out. blit out (bw_size w) bs) (bw_output w),
                    bw_size := bw_size w + length bs\<rparr>))"

definition appendByte :: "u8 \<Rightarrow> writing" where
  "appendByte v = ble_append [v]"

definition appendText :: "bytes \<Rightarrow> nat \<Rightarrow> writing" where
  "appendText mem len = ble_append (take len mem)"

definition appendU16 :: "u16 \<Rightarrow> writing" where
  "appendU16 v = run_all [appendByte (ucast (drop_bit 8 v)), appendByte (ucast v)]"

definition appendU32 :: "u32 \<Rightarrow> writing" where
  "appendU32 v = run_all (map (\<lambda>shift. appendByte (ucast (drop_bit shift v))) [24, 16, 8, 0])"

definition appendU64 :: "u64 \<Rightarrow> writing" where
  "appendU64 v =
     run_all (map (\<lambda>shift. appendByte (ucast (drop_bit shift v))) [56, 48, 40, 32, 24, 16, 8, 0])"

definition appendHeader :: "BlePayloadRecordType \<Rightarrow> writing" where
  "appendHeader type = run_all [appendByte 1, appendByte (recordType_code type)]"

definition appendString :: "bytes \<Rightarrow> nat \<Rightarrow> writing" where
  "appendString mem len w =
     (if len \<le> 255 then run_all [appendByte (of_nat len), appendText mem len] w else (False, w))"

definition appendDouble :: "double \<Rightarrow> writing" where
  "appendDouble v = appendU64 v"

section \<open>Validity and codes\<close>

primrec valid_selection :: "ProfileSelectionState \<Rightarrow> bool" where
  "valid_selection Selection_Unknown = True"
| "valid_selection Selection_Ambiguous = True"
| "valid_selection Selection_ManualSelectionRequired = True"
| "valid_selection Selection_Selected = True"
| "valid_selection (Selection_Other b) = False"

primrec valid_valueType :: "VehicleValueType \<Rightarrow> bool" where
  "valid_valueType ValueType_None = True"
| "valid_valueType ValueType_Numeric = True"
| "valid_valueType ValueType_Boolean = True"
| "valid_valueType ValueType_Text = True"
| "valid_valueType (ValueType_Other b) = False"

primrec valid_support :: "CapabilitySupport \<Rightarrow> bool" where
  "valid_support Support_Supported = True"
| "valid_support Support_Unsupported = True"
| "valid_support Support_Pending = True"
| "valid_support Support_Unknown = True"
| "valid_support (Support_Other b) = False"

primrec valid_availability :: "VehicleAvailability \<Rightarrow> bool" where
  "valid_availability Availability_Available = True"
| "valid_availability Availability_Unsupported = True"
| "valid_availability Availability_Unavailable = True"
| "valid_availability Availability_Pending = True"
| "valid_availability Availability_Unknown = True"
| "valid_availability (Availability_Other b) = False"

primrec valid_quality :: "VehicleQuality \<Rightarrow> bool" where
  "valid_quality Quality_ValidCurrent = True"
| "valid_quality Quality_Stale = True"
| "valid_quality Quality_InvalidOrUnknown = True"
| "valid_quality (Quality_Other b) = False"

primrec valid_source :: "VehicleSource \<Rightarrow> bool" where
  "valid_source Source_Obd = True"
| "valid_source Source_Uds = True"
| "valid_source Source_PassiveCan = True"
| "valid_source Source_Derived = True"
| "valid_source Source_Unknown = True"
| "valid_source (Source_Other b) = False"

primrec code_selection :: "ProfileSelectionState \<Rightarrow> u8" where
  "code_selection Selection_Unknown = 0"
| "code_selection Selection_Ambiguous = 1"
| "code_selection Selection_ManualSelectionRequired = 2"
| "code_selection Selection_Selected = 3"
| "code_selection (Selection_Other b) = 0xFF"

primrec code_valueType :: "VehicleValueType \<Rightarrow> u8" where
  "code_valueType ValueType_None = 0"
| "code_valueType ValueType_Numeric = 1"
| "code_valueType ValueType_Boolean = 2"
| "code_valueType ValueType_Text = 3"
| "code_valueType (ValueType_Other b) = 0xFF"

primrec code_support :: "CapabilitySupport \<Rightarrow> u8" where
  "code_support Support_Supported = 0"
| "code_support Support_Unsupported = 1"
| "code_support Support_Pending = 2"
| "code_support Support_Unknown = 3"
| "code_support (Support_Other b) = 0xFF"

primrec code_availability :: "VehicleAvailability \<Rightarrow> u8" where
  "code_availability Availability_Available = 0"
| "code_availability Availability_Unsupported = 1"
| "code_availability Availability_Unavailable = 2"
| "code_availability Availability_Pending = 3"
| "code_availability Availability_Unknown = 4"
| "code_availability (Availability_Other b) = 0xFF"

primrec code_quality :: "VehicleQuality \<Rightarrow> u8" where
  "code_quality Quality_ValidCurrent = 0"
| "code_quality Quality_Stale = 1"
| "code_quality Quality_InvalidOrUnknown = 2"
| "code_quality (Quality_Other b) = 0xFF"

primrec code_source :: "VehicleSource \<Rightarrow> u8" where
  "code_source Source_Obd = 0"
| "code_source Source_Uds = 1"
| "code_source Source_PassiveCan = 2"
| "code_source Source_Derived = 3"
| "code_source Source_Unknown = 4"
| "code_source (Source_Other b) = 0xFF"

section \<open>The three records\<close>

definition write_snapshot :: "VehicleDataReadSnapshot \<Rightarrow> writing" where
  "write_snapshot s w =
     (if \<not> valid_selection (rs_selectionState s) \<or>
         (rs_selectionState s = Selection_Selected) \<noteq> (rs_activeIdentity s \<noteq> None) \<or>
         \<not> rs_hasCapabilityRegistry s \<and> rs_capabilityCount s \<noteq> 0 \<or>
         65535 < rs_capabilityCount s \<or> 65535 < rs_sampleCount s
      then (False, w)
      else run_all
        [appendHeader Record_SnapshotMetadata,
         appendByte (code_selection (rs_selectionState s)),
         appendByte (if rs_activeIdentity s \<noteq> None then 1 else 0),
         (case rs_activeIdentity s of None \<Rightarrow> run_all [] | Some i \<Rightarrow> appendU32 (pi_value i)),
         appendByte (if rs_hasCapabilityRegistry s then 1 else 0),
         appendU16 (of_nat (rs_capabilityCount s)),
         appendU16 (of_nat (rs_sampleCount s))] w)"

definition write_capability :: "NormalizedSignalDescriptor \<Rightarrow> nat \<Rightarrow> writing" where
  "write_capability c index w =
     (if 65535 < index \<or> \<not> valid_valueType (nsd_expectedValueType c) \<or> \<not> valid_support (nsd_support c)
      then (False, w)
      else run_all
        [appendHeader Record_Capability,
         appendU16 (of_nat index),
         appendString (bt_data (nsd_identity c)) (bt_length (nsd_identity c)),
         appendByte (code_valueType (nsd_expectedValueType c)),
         appendString (bt_data (nsd_unit c)) (bt_length (nsd_unit c)),
         appendByte (code_support (nsd_support c))] w)"

definition write_value :: "NormalizedVehicleSample \<Rightarrow> writing" where
  "write_value s w =
     (if hasValue s
      then (case smp_valueType s of
              ValueType_Numeric \<Rightarrow> appendDouble (nv_numeric (smp_value s)) w
            | ValueType_Boolean \<Rightarrow> appendByte (if nv_boolean (smp_value s) then 1 else 0) w
            | ValueType_Text \<Rightarrow>
                appendString (bt_data (nv_text (smp_value s))) (bt_length (nv_text (smp_value s))) w
            | ValueType_None \<Rightarrow> (False, w)
            | ValueType_Other _ \<Rightarrow> (True, w))
      else (True, w))"

definition write_sample :: "NormalizedVehicleSample \<Rightarrow> nat \<Rightarrow> writing" where
  "write_sample s index w =
     (if 65535 < index \<or> \<not> valid_valueType (smp_valueType s) \<or> \<not> valid_source (smp_source s) \<or>
         \<not> valid_quality (smp_quality s) \<or> \<not> valid_availability (smp_availability s) \<or>
         smp_availability s \<noteq> Availability_Available \<and> hasValue s \<or>
         smp_availability s = Availability_Available \<and> smp_valueType s = ValueType_None \<or>
         hasValue s \<and> smp_valueType s = ValueType_None \<or>
         hasValue s \<and> smp_valueType s = ValueType_Numeric \<and> \<not> isfinite (nv_numeric (smp_value s))
      then (False, w)
      else run_all
        [appendHeader Record_Sample,
         appendU16 (of_nat index),
         appendString (bt_data (smp_signalId s)) (bt_length (smp_signalId s)),
         appendByte (code_valueType (smp_valueType s)),
         appendByte (if hasValue s then 1 else 0),
         write_value s,
         appendString (bt_data (smp_unit s)) (bt_length (smp_unit s)),
         appendByte (code_source (smp_source s)),
         appendByte (code_quality (smp_quality s)),
         appendByte (code_availability (smp_availability s)),
         appendU64 (smp_timestampMs s)] w)"

section \<open>The encoder\<close>

text \<open>The result and the caller's buffer after the call.\<close>

definition ble_encode :: "writing \<Rightarrow> bytes option \<Rightarrow> nat \<Rightarrow> BlePayloadResult \<times> bytes option" where
  "ble_encode write output capacity =
     (case write (BoundedWriter_make None 0) of
        (False, _) \<Rightarrow> (\<lparr>bp_status = BleInvalidInput, bp_requiredCapacity = 0\<rparr>, output)
      | (True, sizing) \<Rightarrow>
          (let required = bw_size sizing
           in if capacity < required
              then (\<lparr>bp_status = BleInsufficientCapacity, bp_requiredCapacity = required\<rparr>, output)
              else if output = None
              then (\<lparr>bp_status = BleInvalidInput, bp_requiredCapacity = required\<rparr>, output)
              else
                (case write (BoundedWriter_make output capacity) of
                   (ok, writer) \<Rightarrow>
                     (\<lparr>bp_status = (if \<not> ok \<or> bw_size writer \<noteq> required then BleInvalidInput else BleEncoded),
                       bp_requiredCapacity = required\<rparr>, bw_output writer))))"

definition encodeBleSnapshotMetadata ::
  "VehicleDataReadSnapshot \<Rightarrow> bytes option \<Rightarrow> nat \<Rightarrow> BlePayloadResult \<times> bytes option" where
  "encodeBleSnapshotMetadata s = ble_encode (write_snapshot s)"

definition encodeBleCapabilityRecord ::
  "NormalizedSignalDescriptor \<Rightarrow> nat \<Rightarrow> bytes option \<Rightarrow> nat \<Rightarrow> BlePayloadResult \<times> bytes option" where
  "encodeBleCapabilityRecord c index = ble_encode (write_capability c index)"

definition encodeBleSampleRecord ::
  "NormalizedVehicleSample \<Rightarrow> nat \<Rightarrow> bytes option \<Rightarrow> nat \<Rightarrow> BlePayloadResult \<times> bytes option" where
  "encodeBleSampleRecord s index = ble_encode (write_sample s index)"

end
