(* ===== verification/Ble_Properties.thy ===== *)
theory Ble_Properties
  imports Ble_Payload
begin

text \<open>
  What the BLE encoder emits: each record is a fixed list of bytes, so both passes of the encoder
  agree, and its verdict and the caller's buffer follow from the bytes of the record.
\<close>

section \<open>What the writer emits\<close>

interpretation ble: byte_writer ble_append
  by unfold_locales (auto simp: emits_def ble_append_def bw_advance_def bw_room_def bw_ok_def split: option.splits)

lemma emits_bytes: "emits (run_all (map appendByte bs)) bs"
proof -
  have "map appendByte bs = map ble_append (map (\<lambda>b. [b]) bs)" by (simp add: appendByte_def)
  then show ?thesis using ble.emits_pieces [of "map (\<lambda>b. [b]) bs"] by (simp only: concat_map_singleton map_ident)
qed

lemma emits_byte: "emits (appendByte b) [b]"
  by (simp add: appendByte_def ble.emits_append)

lemma emits_U16: "emits (appendU16 v) (be_bytes 2 v)"
  using emits_bytes [of "[ucast (drop_bit 8 v), ucast v]"]
  by (simp add: appendU16_def be_bytes_def le_bytes_2 byte_at_def del: run_all.simps)

lemma emits_U32: "emits (appendU32 v) (be_bytes 4 v)"
proof -
  have "[0 ..< 4] = [0, 1, 2, 3 :: nat]" by code_simp
  then show ?thesis using emits_bytes [of "map (\<lambda>shift. ucast (drop_bit shift v)) [24, 16, 8, 0]"]
    by (simp add: appendU32_def be_bytes_def le_bytes_def byte_at_def comp_def del: run_all.simps)
qed

lemma emits_U64: "emits (appendU64 v) (be_bytes 8 v)"
  using emits_bytes [of "map (\<lambda>shift. ucast (drop_bit shift v)) [56, 48, 40, 32, 24, 16, 8, 0]"]
  by (simp add: appendU64_def be_bytes_def le_bytes_8 byte_at_def comp_def del: run_all.simps)

lemma emits_header: "emits (appendHeader r) [1, recordType_code r]"
  using emits_bytes [of "[1, recordType_code r]"] by (simp add: appendHeader_def del: run_all.simps)

definition string_bytes :: "bytes \<Rightarrow> bytes" where
  "string_bytes s = of_nat (length s) # s"

lemma emits_string:
  assumes "bt_inv n t" and "n \<le> 255"
  shows "emits (appendString (bt_data t) (bt_length t)) (string_bytes (bt_text t))"
proof -
  have len: "bt_length t \<le> 255" "length (bt_text t) = bt_length t"
    using assms by (auto simp: bt_inv_def bt_text_def)
  have "emits (run_all [appendByte (of_nat (bt_length t)), ble_append (bt_text t)])
      (concat [[of_nat (bt_length t)], bt_text t])"
    by (rule emits_run) (simp add: emits_byte ble.emits_append)
  then show ?thesis using len
    by (simp add: emits_def appendString_def appendText_def bt_text_def string_bytes_def del: run_all.simps)
qed

lemma ble_encode_emits:
  assumes "emits f bs" and "length bs \<le> size_max" and "capacity \<le> length out"
  shows "ble_encode f (Some out) capacity =
    (if capacity < length bs
     then (\<lparr>bp_status = BleInsufficientCapacity, bp_requiredCapacity = length bs\<rparr>, Some out)
     else (\<lparr>bp_status = BleEncoded, bp_requiredCapacity = length bs\<rparr>, Some (bs @ drop (length bs) out)))"
proof -
  from emits_sizing(1) [OF assms(1,2)] obtain w
    where w: "f (BoundedWriter_make None 0) = (True, w)" "bw_size w = length bs" by blast
  show ?thesis
  proof (cases "length bs \<le> capacity")
    case True
    from emits_writing [OF assms(1,2) True assms(3)] obtain w'
      where "f (BoundedWriter_make (Some out) capacity) = (True, w')" "bw_size w' = length bs"
        "bw_output w' = Some (bs @ drop (length bs) out)" by blast
    with w True show ?thesis by (simp add: ble_encode_def Let_def)
  qed (use w in \<open>simp add: ble_encode_def Let_def\<close>)
qed

section \<open>The records as bytes\<close>

definition snapshot_acceptable :: "VehicleDataReadSnapshot \<Rightarrow> bool" where
  "snapshot_acceptable s \<longleftrightarrow> valid_selection (rs_selectionState s) \<and>
     (rs_selectionState s = Selection_Selected \<longleftrightarrow> rs_activeIdentity s \<noteq> None) \<and>
     (rs_hasCapabilityRegistry s \<or> rs_capabilityCount s = 0) \<and>
     rs_capabilityCount s \<le> 65535 \<and> rs_sampleCount s \<le> 65535"

definition snapshot_bytes :: "VehicleDataReadSnapshot \<Rightarrow> bytes" where
  "snapshot_bytes s =
     [1, 1, code_selection (rs_selectionState s), if rs_activeIdentity s \<noteq> None then 1 else 0] @
     (case rs_activeIdentity s of None \<Rightarrow> [] | Some i \<Rightarrow> be_bytes 4 (pi_value i)) @
     [if rs_hasCapabilityRegistry s then 1 else 0] @
     be_bytes 2 (of_nat (rs_capabilityCount s) :: u16) @ be_bytes 2 (of_nat (rs_sampleCount s) :: u16)"

definition capability_acceptable :: "NormalizedSignalDescriptor \<Rightarrow> nat \<Rightarrow> bool" where
  "capability_acceptable c index \<longleftrightarrow>
     index \<le> 65535 \<and> valid_valueType (nsd_expectedValueType c) \<and> valid_support (nsd_support c)"

definition capability_bytes :: "NormalizedSignalDescriptor \<Rightarrow> nat \<Rightarrow> bytes" where
  "capability_bytes c index =
     [1, 2] @ be_bytes 2 (of_nat index :: u16) @ string_bytes (bt_text (nsd_identity c)) @
     [code_valueType (nsd_expectedValueType c)] @ string_bytes (bt_text (nsd_unit c)) @
     [code_support (nsd_support c)]"

definition sample_acceptable :: "NormalizedVehicleSample \<Rightarrow> nat \<Rightarrow> bool" where
  "sample_acceptable s index \<longleftrightarrow>
     index \<le> 65535 \<and> valid_source (smp_source s) \<and> valid_quality (smp_quality s) \<and>
     valid_availability (smp_availability s) \<and>
     (hasValue s \<and> smp_valueType s = ValueType_Numeric \<longrightarrow> isfinite (nv_numeric (smp_value s)))"

primrec reading_bytes :: "reading \<Rightarrow> bytes" where
  "reading_bytes No_reading = []"
| "reading_bytes (Number d) = be_bytes 8 d"
| "reading_bytes (Flag b) = [if b then 1 else 0]"
| "reading_bytes (Words w) = string_bytes w"

definition sample_bytes ::
  "bytes \<Rightarrow> bytes \<Rightarrow> reading \<Rightarrow> VehicleSource \<Rightarrow> VehicleQuality \<Rightarrow> VehicleAvailability \<Rightarrow> u64 \<Rightarrow> nat \<Rightarrow> bytes" where
  "sample_bytes i u rd sc q a t index =
     [1, 3] @ be_bytes 2 (of_nat index :: u16) @ string_bytes i @
     [code_valueType (nv_type (value_of rd)),
      if rd \<noteq> No_reading \<and> q \<noteq> Quality_InvalidOrUnknown then 1 else 0] @
     (if q \<noteq> Quality_InvalidOrUnknown then reading_bytes rd else []) @ string_bytes u @
     [code_source sc, code_quality q, code_availability a] @ be_bytes 8 t"

lemma emits_snapshot:
  assumes "snapshot_acceptable s"
  shows "emits (write_snapshot s) (snapshot_bytes s)"
proof -
  let ?ws = "[appendHeader Record_SnapshotMetadata, appendByte (code_selection (rs_selectionState s)),
     appendByte (if rs_activeIdentity s \<noteq> None then 1 else 0),
     (case rs_activeIdentity s of None \<Rightarrow> run_all [] | Some i \<Rightarrow> appendU32 (pi_value i)),
     appendByte (if rs_hasCapabilityRegistry s then 1 else 0),
     appendU16 (of_nat (rs_capabilityCount s)), appendU16 (of_nat (rs_sampleCount s))]"
  let ?bs = "[[1, 1], [code_selection (rs_selectionState s)], [if rs_activeIdentity s \<noteq> None then 1 else 0],
     (case rs_activeIdentity s of None \<Rightarrow> [] | Some i \<Rightarrow> be_bytes 4 (pi_value i)),
     [if rs_hasCapabilityRegistry s then 1 else 0],
     be_bytes 2 (of_nat (rs_capabilityCount s) :: u16), be_bytes 2 (of_nat (rs_sampleCount s) :: u16)]"
  have "list_all2 emits ?ws ?bs"
    using emits_header [of Record_SnapshotMetadata]
    by (simp add: emits_byte emits_U16 emits_U32 emits_Nil del: run_all.simps split: option.split)
  from emits_run [OF this] have "emits (run_all ?ws) (snapshot_bytes s)"
    by (simp add: snapshot_bytes_def del: run_all.simps)
  moreover have "write_snapshot s = run_all ?ws"
    unfolding write_snapshot_def
    by (intro ext if_not_P) (use assms in \<open>auto simp: snapshot_acceptable_def\<close>)
  ultimately show ?thesis by (simp only:)
qed

lemma emits_capability:
  assumes "descriptor_inv c" and "capability_acceptable c index"
  shows "emits (write_capability c index) (capability_bytes c index)"
proof -
  let ?ws = "[appendHeader Record_Capability, appendU16 (of_nat index),
     appendString (bt_data (nsd_identity c)) (bt_length (nsd_identity c)),
     appendByte (code_valueType (nsd_expectedValueType c)),
     appendString (bt_data (nsd_unit c)) (bt_length (nsd_unit c)), appendByte (code_support (nsd_support c))]"
  let ?bs = "[[1, 2], be_bytes 2 (of_nat index :: u16), string_bytes (bt_text (nsd_identity c)),
     [code_valueType (nsd_expectedValueType c)], string_bytes (bt_text (nsd_unit c)),
     [code_support (nsd_support c)]]"
  have "list_all2 emits ?ws ?bs"
    using emits_header [of Record_Capability] assms(1)
      emits_string [of kMaxSignalIdLength "nsd_identity c"] emits_string [of kMaxUnitLength "nsd_unit c"]
    by (simp add: emits_byte emits_U16 descriptor_inv_def kMaxSignalIdLength_def kMaxUnitLength_def)
  from emits_run [OF this] have "emits (run_all ?ws) (capability_bytes c index)"
    by (simp add: capability_bytes_def del: run_all.simps)
  moreover have "write_capability c index = run_all ?ws"
    unfolding write_capability_def
    by (intro ext if_not_P) (use assms(2) in \<open>auto simp: capability_acceptable_def\<close>)
  ultimately show ?thesis by (simp only:)
qed

lemma bt_inv_canonical: "text_ok Capacity s \<Longrightarrow> bt_inv Capacity (canonical Capacity s)"
  by (simp add: text_ok_def canonical_inv)

lemma emits_canonical:
  "text_ok Capacity s \<Longrightarrow> Capacity \<le> 255 \<Longrightarrow>
   emits (appendString (bt_data (canonical Capacity s)) (length s)) (string_bytes s)"
  using emits_string [OF bt_inv_canonical] by (metis bt_length_canonical bt_text_canonical)

lemma emits_value:
  assumes "reading_ok rd" and "rd = No_reading \<longleftrightarrow> a \<noteq> Availability_Available"
  shows "emits (write_value (sample_of i u rd sc q a t))
    (if q \<noteq> Quality_InvalidOrUnknown then reading_bytes rd else [])"
proof (cases "hasValue (sample_of i u rd sc q a t)")
  case False
  then show ?thesis using emits_Nil assms(2)
    by (cases rd) (auto simp: emits_def write_value_def hasValue_sample_of)
next
  case True
  then show ?thesis using assms
  proof (cases rd)
    case (Words w)
    then show ?thesis using True assms emits_canonical [of kMaxTextLength w]
      by (simp add: emits_def write_value_def hasValue_sample_of kMaxTextLength_def)
  qed (auto simp: emits_def write_value_def hasValue_sample_of appendDouble_def
      emits_U64 [unfolded emits_def] emits_byte [unfolded emits_def])
qed

definition sendable ::
  "bytes \<Rightarrow> bytes \<Rightarrow> reading \<Rightarrow> VehicleSource \<Rightarrow> VehicleQuality \<Rightarrow> VehicleAvailability \<Rightarrow> nat \<Rightarrow> bool" where
  "sendable i u rd sc q a index \<longleftrightarrow>
     text_ok kMaxSignalIdLength i \<and> text_ok kMaxUnitLength u \<and> reading_ok rd \<and>
     (rd = No_reading \<longleftrightarrow> a \<noteq> Availability_Available) \<and>
     index \<le> 65535 \<and> valid_source sc \<and> valid_quality q \<and> valid_availability a \<and>
     (case rd of Number d \<Rightarrow> q \<noteq> Quality_InvalidOrUnknown \<longrightarrow> isfinite d | _ \<Rightarrow> True)"

lemma sendable_sample:
  assumes "sample_inv s" and "sample_acceptable s index"
  obtains i u rd sc q a t where "s = sample_of i u rd sc q a t" "sendable i u rd sc q a index"
proof -
  from assms(1) obtain i u rd sc q a t where s: "s = sample_of i u rd sc q a t"
    "text_ok kMaxSignalIdLength i" "text_ok kMaxUnitLength u" "reading_ok rd"
    "rd = No_reading \<longleftrightarrow> a \<noteq> Availability_Available"
    by (rule sample_invE)
  then have "sendable i u rd sc q a index"
    using assms(2) by (auto simp: sendable_def sample_acceptable_def hasValue_sample_of split: reading.splits)
  with s(1) that show thesis by blast
qed

lemma emits_sample:
  assumes "sendable i u rd sc q a index"
  shows "emits (write_sample (sample_of i u rd sc q a t) index) (sample_bytes i u rd sc q a t index)"
proof -
  let ?s = "sample_of i u rd sc q a t"
  have rd: "rd = No_reading \<longleftrightarrow> a \<noteq> Availability_Available" "reading_ok rd"
    using assms by (auto simp: sendable_def)
  let ?ws = "[appendHeader Record_Sample, appendU16 (of_nat index),
     appendString (bt_data (smp_signalId ?s)) (bt_length (smp_signalId ?s)),
     appendByte (code_valueType (smp_valueType ?s)), appendByte (if hasValue ?s then 1 else 0),
     write_value ?s, appendString (bt_data (smp_unit ?s)) (bt_length (smp_unit ?s)),
     appendByte (code_source (smp_source ?s)), appendByte (code_quality (smp_quality ?s)),
     appendByte (code_availability (smp_availability ?s)), appendU64 (smp_timestampMs ?s)]"
  let ?bs = "[[1, 3], be_bytes 2 (of_nat index :: u16), string_bytes i,
     [code_valueType (nv_type (value_of rd))],
     [if rd \<noteq> No_reading \<and> q \<noteq> Quality_InvalidOrUnknown then 1 else 0],
     (if q \<noteq> Quality_InvalidOrUnknown then reading_bytes rd else []), string_bytes u,
     [code_source sc], [code_quality q], [code_availability a], be_bytes 8 t]"
  have texts: "emits (appendString (bt_data (canonical kMaxSignalIdLength i)) (length i)) (string_bytes i)"
    "emits (appendString (bt_data (canonical kMaxUnitLength u)) (length u)) (string_bytes u)"
    using assms by (intro emits_canonical; simp add: sendable_def kMaxSignalIdLength_def kMaxUnitLength_def)+
  have "list_all2 emits ?ws ?bs"
    using emits_header [of Record_Sample] texts emits_value [OF rd(2,1), of i u sc q t]
    by (simp only: list_all2_Cons list_all2_Nil sample_of_sel bt_length_canonical
        hasValue_sample_of [OF rd(1)] recordType_code.simps emits_byte emits_U16 emits_U64 simp_thms)
  from emits_run [OF this] have "emits (run_all ?ws) (sample_bytes i u rd sc q a t index)"
    by (simp only: sample_bytes_def concat.simps append_assoc append_Cons append_Nil append_Nil2)
  moreover have "write_sample ?s index = run_all ?ws"
    unfolding write_sample_def
    by (intro ext if_not_P)
      (use assms in \<open>auto simp: sendable_def hasValue_sample_of [OF rd(1)] split: reading.splits\<close>)
  ultimately show ?thesis by (simp only:)
qed

lemma length_string_bytes [simp]: "length (string_bytes s) = Suc (length s)"
  by (simp add: string_bytes_def)

lemma length_snapshot_bytes: "length (snapshot_bytes s) \<le> 13"
  by (simp add: snapshot_bytes_def split: option.split)

lemma length_capability_bytes: "descriptor_inv c \<Longrightarrow> length (capability_bytes c index) \<le> 104"
  by (auto simp: capability_bytes_def descriptor_inv_def bt_inv_def bt_text_def kMaxSignalIdLength_def
      kMaxUnitLength_def)

lemma length_sample_bytes:
  assumes "sendable i u rd sc q a index"
  shows "length (sample_bytes i u rd sc q a t index) \<le> 133"
proof -
  have "length i \<le> 64" "length u \<le> 32" "length (reading_bytes rd) \<le> 18"
    using assms by (cases rd; simp add: sendable_def text_ok_def acceptable_def kMaxSignalIdLength_def
        kMaxUnitLength_def kMaxTextLength_def)+
  then show ?thesis by (simp add: sample_bytes_def)
qed

section \<open>Rejected input\<close>

lemma ble_encode_rejected:
  "fst (f (BoundedWriter_make None 0)) = False \<Longrightarrow>
   ble_encode f out cap = (\<lparr>bp_status = BleInvalidInput, bp_requiredCapacity = 0\<rparr>, out)"
  by (auto simp: ble_encode_def split: prod.split bool.split)

lemma snapshot_rejected: "\<not> snapshot_acceptable s \<Longrightarrow> write_snapshot s w = (False, w)"
  unfolding write_snapshot_def by (intro if_P) (auto simp: snapshot_acceptable_def)

lemma capability_rejected: "\<not> capability_acceptable c index \<Longrightarrow> write_capability c index w = (False, w)"
  unfolding write_capability_def by (intro if_P) (auto simp: capability_acceptable_def)

lemma sample_rejected: "\<not> sample_acceptable s index \<Longrightarrow> sample_inv s \<Longrightarrow> write_sample s index w = (False, w)"
  unfolding write_sample_def
  by (intro if_P, elim sample_invE)
    (auto simp: sample_acceptable_def hasValue_sample_of split: reading.splits)

section \<open>Properties\<close>

text \<open>The record of a sample, from its fields, and the verdict the bytes of a record determine.\<close>

definition sample_record :: "NormalizedVehicleSample \<Rightarrow> nat \<Rightarrow> bytes" where
  "sample_record s index =
     [1, 3] @ be_bytes 2 (of_nat index :: u16) @ string_bytes (bt_text (smp_signalId s)) @
     [code_valueType (smp_valueType s), if hasValue s then 1 else 0] @
     (if hasValue s
      then (case smp_valueType s of
              ValueType_Numeric \<Rightarrow> be_bytes 8 (nv_numeric (smp_value s))
            | ValueType_Boolean \<Rightarrow> [if nv_boolean (smp_value s) then 1 else 0]
            | ValueType_Text \<Rightarrow> string_bytes (bt_text (nv_text (smp_value s)))
            | _ \<Rightarrow> [])
      else []) @
     string_bytes (bt_text (smp_unit s)) @
     [code_source (smp_source s), code_quality (smp_quality s), code_availability (smp_availability s)] @
     be_bytes 8 (smp_timestampMs s)"

lemma sample_record_of:
  "rd = No_reading \<longleftrightarrow> a \<noteq> Availability_Available \<Longrightarrow>
   sample_record (sample_of i u rd sc q a t) index = sample_bytes i u rd sc q a t index"
  by (cases rd) (auto simp: sample_record_def sample_bytes_def hasValue_sample_of)

definition exact_encoding :: "bool \<Rightarrow> bytes \<Rightarrow> bytes \<Rightarrow> nat \<Rightarrow> BlePayloadResult \<times> bytes option" where
  "exact_encoding sound bs out capacity =
     (if \<not> sound then (\<lparr>bp_status = BleInvalidInput, bp_requiredCapacity = 0\<rparr>, Some out)
      else if capacity < length bs
      then (\<lparr>bp_status = BleInsufficientCapacity, bp_requiredCapacity = length bs\<rparr>, Some out)
      else (\<lparr>bp_status = BleEncoded, bp_requiredCapacity = length bs\<rparr>, Some (bs @ drop (length bs) out)))"

lemma size_max_small: "n \<le> 133 \<Longrightarrow> n \<le> size_max"
  by (simp add: size_max_def)

lemma ble_snapshot_exact:
  assumes "capacity \<le> length out"
  shows "encodeBleSnapshotMetadata m (Some out) capacity =
    exact_encoding (snapshot_acceptable m) (snapshot_bytes m) out capacity"
  using ble_encode_emits [OF emits_snapshot _ assms] length_snapshot_bytes [of m]
    size_max_small [of "length (snapshot_bytes m)"]
  by (simp add: encodeBleSnapshotMetadata_def exact_encoding_def ble_encode_rejected snapshot_rejected)

lemma ble_capability_exact:
  assumes "descriptor_inv c" and "capacity \<le> length out"
  shows "encodeBleCapabilityRecord c index (Some out) capacity =
    exact_encoding (capability_acceptable c index) (capability_bytes c index) out capacity"
  using ble_encode_emits [OF emits_capability [OF assms(1)] _ assms(2)] length_capability_bytes [OF assms(1), of index]
    size_max_small [of "length (capability_bytes c index)"]
  by (simp add: encodeBleCapabilityRecord_def exact_encoding_def ble_encode_rejected capability_rejected)

lemma sample_record_sent:
  assumes "sample_inv s" and "sample_acceptable s index"
  shows "emits (write_sample s index) (sample_record s index) \<and> length (sample_record s index) \<le> 133"
proof -
  obtain i u rd sc q a t where s: "s = sample_of i u rd sc q a t" and ok: "sendable i u rd sc q a index"
    using sendable_sample [OF assms] by blast
  then have "sample_record s index = sample_bytes i u rd sc q a t index"
    by (simp add: sample_record_of sendable_def)
  with emits_sample [OF ok] length_sample_bytes [OF ok] s show ?thesis by simp
qed

lemma ble_sample_exact:
  assumes "sample_inv s" and "capacity \<le> length out"
  shows "encodeBleSampleRecord s index (Some out) capacity =
    exact_encoding (sample_acceptable s index) (sample_record s index) out capacity"
proof (cases "sample_acceptable s index")
  case True
  then show ?thesis using ble_encode_emits [OF _ _ assms(2)] sample_record_sent [OF assms(1) True]
      size_max_small [of "length (sample_record s index)"]
    by (simp add: encodeBleSampleRecord_def exact_encoding_def)
next
  case False
  then show ?thesis using sample_rejected [OF False assms(1)]
    by (simp add: encodeBleSampleRecord_def exact_encoding_def ble_encode_rejected)
qed

text \<open>
  C39: the two-pass encoder is exact for all three records. It rejects exactly the undefined
  enumerations, inconsistent metadata, indices and counts beyond 16 bits and numbers that are not
  finite; otherwise it reports the exact size - at most 13, 104 and 133 bytes - and writes the
  documented record to the front of the buffer if and only if it fits. The rest of the buffer, and
  all of it unless the record is encoded, is untouched.
\<close>

lemma ble_records_exact:
  assumes "sample_inv s" and "descriptor_inv c" and "capacity \<le> length out"
  shows "encodeBleSnapshotMetadata m (Some out) capacity =
      exact_encoding (snapshot_acceptable m) (snapshot_bytes m) out capacity \<and>
    encodeBleCapabilityRecord c index (Some out) capacity =
      exact_encoding (capability_acceptable c index) (capability_bytes c index) out capacity \<and>
    encodeBleSampleRecord s index (Some out) capacity =
      exact_encoding (sample_acceptable s index) (sample_record s index) out capacity \<and>
    length (snapshot_bytes m) \<le> 13 \<and> length (capability_bytes c index) \<le> 104 \<and>
    (sample_acceptable s index \<longrightarrow> length (sample_record s index) \<le> 133)"
  using ble_snapshot_exact [OF assms(3)] ble_capability_exact [OF assms(2,3)] ble_sample_exact [OF assms(1,3)]
    length_snapshot_bytes length_capability_bytes [OF assms(2)] sample_record_sent [OF assms(1)]
  by simp

text \<open>An unselected snapshot, the speed of the Kamiq registry and a flag, into eight bytes.\<close>

lemma ble_records_exact_witness:
  "encodeBleSnapshotMetadata VehicleDataReadSnapshot_default (Some (replicate 9 0)) 9 =
     (\<lparr>bp_status = BleEncoded, bp_requiredCapacity = 9\<rparr>, Some [1, 1, 0, 0, 0, 0, 0, 0, 0]) \<and>
   fst (encodeBleSampleRecord (flag_sample 0x61 5) 0 (Some (replicate 9 0)) 9) =
     \<lparr>bp_status = BleInsufficientCapacity, bp_requiredCapacity = 21\<rparr>"
proof -
  let ?c = "kamiq_descriptor ''vehicle.speed'' ''km/h''"
  have c: "descriptor_inv ?c"
    by code_simp
  have b: "snapshot_bytes VehicleDataReadSnapshot_default = [1, 1, 0, 0, 0, 0, 0, 0, 0]"
    by code_simp
  have ok: "snapshot_acceptable VehicleDataReadSnapshot_default" "sample_acceptable (flag_sample 0x61 5) 0"
    "length (sample_record (flag_sample 0x61 5) 0) = 21"
    by (simp_all add: snapshot_acceptable_def VehicleDataReadSnapshot_default_def sample_acceptable_def
        flag_sample_def sample_record_of sample_bytes_def)
  show ?thesis
    using ble_records_exact [OF flag_sample_inv [OF letters_ok(1), of 5] c, of 9 "replicate 9 0"
        VehicleDataReadSnapshot_default 0]
    by (simp add: exact_encoding_def ok b)
qed

end
