(* ===== verification/Ble_Decoder.thy ===== *)
theory Ble_Decoder
  imports Ble_Properties
begin

text \<open>
  The reference decoder of the BLE records (\<open>tests/host/ble_payload_decoder.h\<close>) and its round trip
  with the encoder. A reader is the list of the bytes that remain; an operation of the reader gives
  a value and the rest, or \<open>None\<close> where the code returns false. The decoded object is returned as a
  whole; what a failed call leaves in the caller's object is not modelled.
\<close>

section \<open>The reader\<close>

type_synonym 'a wire = "bytes \<Rightarrow> ('a \<times> bytes) option"

definition wire_return :: "'a \<Rightarrow> 'a wire" where
  "wire_return v bs = Some (v, bs)"

definition wire_bind :: "'a wire \<Rightarrow> ('a \<Rightarrow> 'b wire) \<Rightarrow> 'b wire" where
  "wire_bind p f bs = (case p bs of None \<Rightarrow> None | Some (v, r) \<Rightarrow> f v r)"

definition wire_check :: "bool \<Rightarrow> 'a wire \<Rightarrow> 'a wire" where
  "wire_check b p = (if b then p else (\<lambda>bs. None))"

definition wire_byte :: "u8 wire" where
  "wire_byte bs = (case bs of [] \<Rightarrow> None | b # r \<Rightarrow> Some (b, r))"

definition wire_u16 :: "u16 wire" where
  "wire_u16 = wire_bind wire_byte (\<lambda>high. wire_bind wire_byte (\<lambda>low.
     wire_return (push_bit 8 (ucast high) OR ucast low)))"

primrec wire_word :: "nat \<Rightarrow> 'a :: len word \<Rightarrow> 'a word wire" where
  "wire_word 0 v = wire_return v"
| "wire_word (Suc n) v = wire_bind wire_byte (\<lambda>part. wire_word n (push_bit 8 v OR ucast part))"

definition wire_u32 :: "u32 wire" where
  "wire_u32 = wire_word 4 0"

definition wire_u64 :: "u64 wire" where
  "wire_u64 = wire_word 8 0"

definition wire_string :: "nat \<Rightarrow> BoundedText wire" where
  "wire_string Capacity = wire_bind wire_byte (\<lambda>len bs.
     if Capacity < unat len \<or> length bs < unat len then None
     else if \<not> nul_free (take (unat len) bs) then None
     else
       (case BoundedText_assign (Some (take (unat len) bs @ replicate (Capacity + 1 - unat len) 0))
            (BoundedText_default Capacity) of
          (ok, text) \<Rightarrow> if ok then Some (text, drop (unat len) bs) else None))"

definition wire_enum :: "u8 \<Rightarrow> (u8 \<Rightarrow> 'a) \<Rightarrow> 'a wire" where
  "wire_enum maximum cast = wire_bind wire_byte (\<lambda>raw. wire_check (raw \<le> maximum) (wire_return (cast raw)))"

definition wire_flag :: "bool wire" where
  "wire_flag = wire_bind wire_byte (\<lambda>raw. wire_check (raw \<le> 1) (wire_return (raw \<noteq> 0)))"

section \<open>The decoder\<close>

definition selection_of_u8 :: "u8 \<Rightarrow> ProfileSelectionState" where
  "selection_of_u8 b =
     (if b = 0 then Selection_Unknown else if b = 1 then Selection_Ambiguous
      else if b = 2 then Selection_ManualSelectionRequired else if b = 3 then Selection_Selected
      else Selection_Other b)"

definition support_of_u8 :: "u8 \<Rightarrow> CapabilitySupport" where
  "support_of_u8 b =
     (if b = 0 then Support_Supported else if b = 1 then Support_Unsupported
      else if b = 2 then Support_Pending else if b = 3 then Support_Unknown else Support_Other b)"

record DecodedBlePayload =
  dp_recordType :: BlePayloadRecordType
  dp_index :: nat
  dp_selectionState :: ProfileSelectionState
  dp_hasActiveIdentity :: bool
  dp_activeIdentity :: u32
  dp_hasCapabilityRegistry :: bool
  dp_capabilityCount :: u16
  dp_sampleCount :: u16
  dp_capability :: NormalizedSignalDescriptor
  dp_signalId :: BoundedText
  dp_unit :: BoundedText
  dp_valueType :: VehicleValueType
  dp_hasValue :: bool
  dp_numericValue :: double
  dp_booleanValue :: bool
  dp_textValue :: BoundedText
  dp_source :: VehicleSource
  dp_quality :: VehicleQuality
  dp_availability :: VehicleAvailability
  dp_timestampMs :: u64

text \<open>A value-initialised descriptor: every enumeration holds its zero.\<close>

definition NormalizedSignalDescriptor_default :: NormalizedSignalDescriptor where
  "NormalizedSignalDescriptor_default =
     \<lparr>nsd_identity = BoundedText_default kMaxSignalIdLength, nsd_expectedValueType = ValueType_None,
      nsd_unit = BoundedText_default kMaxUnitLength, nsd_support = Support_Supported\<rparr>"

definition DecodedBlePayload_default :: DecodedBlePayload where
  "DecodedBlePayload_default =
     \<lparr>dp_recordType = Record_SnapshotMetadata, dp_index = 0, dp_selectionState = Selection_Unknown,
      dp_hasActiveIdentity = False, dp_activeIdentity = 0, dp_hasCapabilityRegistry = False,
      dp_capabilityCount = 0, dp_sampleCount = 0, dp_capability = NormalizedSignalDescriptor_default,
      dp_signalId = BoundedText_default kMaxSignalIdLength, dp_unit = BoundedText_default kMaxUnitLength,
      dp_valueType = ValueType_None, dp_hasValue = False, dp_numericValue = 0, dp_booleanValue = False,
      dp_textValue = BoundedText_default kMaxTextLength, dp_source = Source_Unknown,
      dp_quality = Quality_InvalidOrUnknown, dp_availability = Availability_Unknown, dp_timestampMs = 0\<rparr>"

definition decode_snapshot :: "DecodedBlePayload wire" where
  "decode_snapshot =
     wire_bind (wire_enum 3 selection_of_u8) (\<lambda>selection.
     wire_bind wire_flag (\<lambda>hasIdentity.
     wire_bind (if hasIdentity then wire_u32 else wire_return 0) (\<lambda>identity.
     wire_bind wire_flag (\<lambda>hasRegistry.
     wire_bind wire_u16 (\<lambda>capabilityCount.
     wire_bind wire_u16 (\<lambda>sampleCount.
     wire_check
       (\<not> ((selection = Selection_Selected) \<noteq> hasIdentity \<or> \<not> hasRegistry \<and> capabilityCount \<noteq> 0))
       (wire_return (DecodedBlePayload_default
          \<lparr>dp_recordType := Record_SnapshotMetadata, dp_selectionState := selection,
           dp_hasActiveIdentity := hasIdentity, dp_activeIdentity := identity,
           dp_hasCapabilityRegistry := hasRegistry, dp_capabilityCount := capabilityCount,
           dp_sampleCount := sampleCount\<rparr>))))))))"

definition decode_capability :: "DecodedBlePayload wire" where
  "decode_capability =
     wire_bind wire_u16 (\<lambda>index.
     wire_bind (wire_string kMaxSignalIdLength) (\<lambda>identity.
     wire_bind (wire_enum 3 valueType_of_u8) (\<lambda>type.
     wire_bind (wire_string kMaxUnitLength) (\<lambda>unit.
     wire_bind (wire_enum 3 support_of_u8) (\<lambda>support.
     wire_return (DecodedBlePayload_default
       \<lparr>dp_recordType := Record_Capability, dp_index := unat index,
        dp_capability := \<lparr>nsd_identity = identity, nsd_expectedValueType = type, nsd_unit = unit,
          nsd_support = support\<rparr>\<rparr>))))))"

text \<open>The value of a sample, into the object: the \<open>switch\<close> over the type.\<close>

definition decode_ble_value :: "DecodedBlePayload \<Rightarrow> DecodedBlePayload wire" where
  "decode_ble_value d =
     (if \<not> dp_hasValue d then wire_return d
      else
        (case dp_valueType d of
           ValueType_Numeric \<Rightarrow>
             wire_bind wire_u64 (\<lambda>bits. wire_check (isfinite bits) (wire_return (d\<lparr>dp_numericValue := bits\<rparr>)))
         | ValueType_Boolean \<Rightarrow> wire_bind wire_flag (\<lambda>b. wire_return (d\<lparr>dp_booleanValue := b\<rparr>))
         | ValueType_Text \<Rightarrow>
             wire_bind (wire_string kMaxTextLength) (\<lambda>text. wire_return (d\<lparr>dp_textValue := text\<rparr>))
         | ValueType_None \<Rightarrow> wire_check False (wire_return d)
         | ValueType_Other b \<Rightarrow> wire_return d))"

definition decode_sample :: "DecodedBlePayload wire" where
  "decode_sample =
     wire_bind wire_u16 (\<lambda>index.
     wire_bind (wire_string kMaxSignalIdLength) (\<lambda>signalId.
     wire_bind (wire_enum 3 valueType_of_u8) (\<lambda>type.
     wire_bind wire_flag (\<lambda>present.
     wire_bind (decode_ble_value (DecodedBlePayload_default
       \<lparr>dp_recordType := Record_Sample, dp_index := unat index, dp_signalId := signalId,
        dp_valueType := type, dp_hasValue := present\<rparr>)) (\<lambda>d.
     wire_bind (wire_string kMaxUnitLength) (\<lambda>unit.
     wire_bind (wire_enum 4 source_of_u8) (\<lambda>source.
     wire_bind (wire_enum 2 quality_of_u8) (\<lambda>quality.
     wire_bind (wire_enum 4 availability_of_u8) (\<lambda>availability.
     wire_bind wire_u64 (\<lambda>timestampMs.
     wire_check
       (\<not> (availability \<noteq> Availability_Available \<and> dp_hasValue d \<or>
           availability = Availability_Available \<and> dp_valueType d = ValueType_None \<or>
           dp_hasValue d \<and> quality = Quality_InvalidOrUnknown))
       (wire_return (d\<lparr>dp_unit := unit, dp_source := source, dp_quality := quality,
          dp_availability := availability, dp_timestampMs := timestampMs\<rparr>))))))))))))"

text \<open>Every record must end with the payload; \<open>None\<close> is the null pointer.\<close>

definition decodeBlePayload :: "bytes option \<Rightarrow> DecodedBlePayload option" where
  "decodeBlePayload payload =
     (case payload of
        None \<Rightarrow> None
      | Some bs \<Rightarrow>
          if length bs < 2 then None
          else
            (case wire_bind wire_byte (\<lambda>version. wire_bind wire_byte (\<lambda>rawType.
                wire_check (version = 1 \<and> \<not> (rawType < 1 \<or> 3 < rawType))
                  (if rawType = 1 then decode_snapshot else if rawType = 2 then decode_capability
                   else decode_sample))) bs of
               Some (decoded, []) \<Rightarrow> Some decoded
             | _ \<Rightarrow> None))"

section \<open>What the reader reads\<close>

definition reads :: "'a wire \<Rightarrow> bytes \<Rightarrow> 'a \<Rightarrow> bool" where
  "reads p bs v \<longleftrightarrow> (\<forall>r. p (bs @ r) = Some (v, r))"

lemma reads_return: "reads (wire_return v) [] v"
  by (simp add: reads_def wire_return_def)

lemma reads_bind: "reads p a x \<Longrightarrow> reads (f x) b y \<Longrightarrow> reads (wire_bind p f) (a @ b) y"
  by (simp add: reads_def wire_bind_def)

lemma reads_byte: "reads wire_byte [b] b"
  by (simp add: reads_def wire_byte_def)

lemma reads_check: "b \<Longrightarrow> reads p bs v \<Longrightarrow> reads (wire_check b p) bs v"
  by (simp add: wire_check_def)

lemma reads_eq: "reads p bs v \<Longrightarrow> v = w \<Longrightarrow> reads p bs w"
  by simp

text \<open>Words: the loop of shifts puts the bytes, most significant first, back together.\<close>

lemma reads_word_loop: "reads (wire_word (length bs) v) bs (foldl (\<lambda>v b. push_bit 8 v OR ucast b) v bs)"
proof (induction bs arbitrary: v)
  case Nil
  then show ?case using reads_return by simp
next
  case (Cons b bs)
  from reads_bind [OF reads_byte, of "\<lambda>part. wire_word (length bs) (push_bit 8 v OR ucast part)", OF Cons]
  show ?case by simp
qed

lemma bit_joined:
  "bit (foldl (\<lambda>v b. push_bit 8 v OR ucast b) 0 (rev (map g [0 ..< n])) :: 'a :: len word) k \<longleftrightarrow>
     k < LENGTH('a) \<and> k < n * 8 \<and> bit (g (k div 8)) (k mod 8)" for g :: "nat \<Rightarrow> u8"
proof (induction n arbitrary: g k)
  case 0
  then show ?case by simp
next
  case (Suc n)
  let ?join = "foldl (\<lambda>v b. push_bit 8 v OR ucast b) (0 :: 'a word)"
  have step: "?join (rev (map g [0 ..< Suc n])) = push_bit 8 (?join (rev (map (\<lambda>i. g (Suc i)) [0 ..< n]))) OR ucast (g 0)"
    by (simp only: map_upt_Suc rev.simps foldl_append foldl.simps)
  show ?case
  proof (cases "k < 8")
    case True
    then show ?thesis by (auto simp: step bit_simps simp del: upt_Suc)
  next
    case False
    then have "\<not> bit (g 0) k" using bit_imp_le_length [of "g 0" k] by auto
    moreover have "k div 8 = Suc ((k - 8) div 8)" "k mod 8 = (k - 8) mod 8"
      using False le_div_geq [of 8 k] le_mod_geq [of 8 k] by simp_all
    ultimately show ?thesis using False by (auto simp: step bit_simps Suc.IH simp del: upt_Suc)
  qed
qed

lemma joined_be_bytes:
  assumes "LENGTH('a) = n * 8"
  shows "foldl (\<lambda>v b. push_bit 8 v OR ucast b) 0 (be_bytes n w) = (w :: 'a :: len word)"
  by (rule bit_word_eqI) (use assms in \<open>simp add: be_bytes_def le_bytes_def bit_joined bit_byte_at\<close>)

lemma reads_words:
  "reads wire_u32 (be_bytes 4 v4) v4" "reads wire_u64 (be_bytes 8 v8) v8"
  using reads_word_loop [of "be_bytes 4 v4" "0 :: u32"] reads_word_loop [of "be_bytes 8 v8" "0 :: u64"]
    joined_be_bytes [of 4 v4] joined_be_bytes [of 8 v8]
  by (simp_all add: wire_u32_def wire_u64_def)

lemma reads_u16: "reads wire_u16 (be_bytes 2 v) v"
proof -
  have "push_bit 8 (ucast (byte_at 1 v)) OR ucast (byte_at 0 v) = v"
    using joined_be_bytes [of 2 v] by (simp add: be_bytes_def le_bytes_2)
  then show ?thesis
    by (simp add: reads_def wire_u16_def wire_bind_def wire_byte_def wire_return_def be_bytes_def le_bytes_2)
qed

lemma reads_string:
  assumes "text_ok Capacity s" and "Capacity \<le> 255"
  shows "reads (wire_string Capacity) (string_bytes s) (canonical Capacity s)"
proof -
  have len: "unat (of_nat (length s) :: u8) = length s" "length s \<le> Capacity"
    using assms by (simp_all add: text_ok_def acceptable_def unat_of_nat take_bit_eq_mod)
  have "c_string (s @ replicate (Capacity + 1 - length s) 0) = s"
    using assms(1) len(2) by (intro c_string_padded) (simp_all add: text_ok_def)
  then have "BoundedText_assign (Some (s @ replicate (Capacity + 1 - length s) 0)) (BoundedText_default Capacity) =
      (True, canonical Capacity s)"
    using assms(1) by (simp only: assign_default) (simp add: text_ok_def)
  then show ?thesis using len assms(1)
    by (simp add: reads_def wire_string_def wire_bind_def wire_byte_def string_bytes_def text_ok_def)
qed

lemma reads_flag: "reads wire_flag [if b then 1 else 0] b"
  by (simp add: reads_def wire_flag_def wire_bind_def wire_byte_def wire_check_def wire_return_def)

lemma reads_enum: "raw \<le> maximum \<Longrightarrow> cast raw = v \<Longrightarrow> reads (wire_enum maximum cast) [raw] v"
  by (simp add: reads_def wire_enum_def wire_bind_def wire_byte_def wire_check_def wire_return_def)

text \<open>The codes of the encoder and the casts of the decoder.\<close>

lemma reads_selection: "valid_selection x \<Longrightarrow> reads (wire_enum 3 selection_of_u8) [code_selection x] x"
  by (rule reads_enum; cases x) (simp_all add: selection_of_u8_def)

lemma reads_valueType: "valid_valueType x \<Longrightarrow> reads (wire_enum 3 valueType_of_u8) [code_valueType x] x"
  by (rule reads_enum; cases x) (simp_all add: valueType_of_u8_def)

lemma reads_support: "valid_support x \<Longrightarrow> reads (wire_enum 3 support_of_u8) [code_support x] x"
  by (rule reads_enum; cases x) (simp_all add: support_of_u8_def)

lemma reads_source: "valid_source x \<Longrightarrow> reads (wire_enum 4 source_of_u8) [code_source x] x"
  by (rule reads_enum; cases x) (simp_all add: source_of_u8_def)

lemma reads_quality: "valid_quality x \<Longrightarrow> reads (wire_enum 2 quality_of_u8) [code_quality x] x"
  by (rule reads_enum; cases x) (simp_all add: quality_of_u8_def)

lemma reads_availability: "valid_availability x \<Longrightarrow> reads (wire_enum 4 availability_of_u8) [code_availability x] x"
  by (rule reads_enum; cases x) (simp_all add: availability_of_u8_def)

lemmas reads_codes = reads_selection reads_valueType reads_support reads_source reads_quality reads_availability
lemmas reads_intros = reads_bind reads_check reads_return reads_words reads_u16 reads_flag reads_codes

section \<open>The records are read back\<close>

definition decoded_snapshot :: "VehicleDataReadSnapshot \<Rightarrow> DecodedBlePayload" where
  "decoded_snapshot s = DecodedBlePayload_default
     \<lparr>dp_recordType := Record_SnapshotMetadata, dp_selectionState := rs_selectionState s,
      dp_hasActiveIdentity := rs_activeIdentity s \<noteq> None,
      dp_activeIdentity := (case rs_activeIdentity s of None \<Rightarrow> 0 | Some i \<Rightarrow> pi_value i),
      dp_hasCapabilityRegistry := rs_hasCapabilityRegistry s,
      dp_capabilityCount := of_nat (rs_capabilityCount s), dp_sampleCount := of_nat (rs_sampleCount s)\<rparr>"

definition decoded_capability :: "NormalizedSignalDescriptor \<Rightarrow> nat \<Rightarrow> DecodedBlePayload" where
  "decoded_capability c index = DecodedBlePayload_default
     \<lparr>dp_recordType := Record_Capability, dp_index := index,
      dp_capability := c
        \<lparr>nsd_identity := canonical kMaxSignalIdLength (bt_text (nsd_identity c)),
         nsd_unit := canonical kMaxUnitLength (bt_text (nsd_unit c))\<rparr>\<rparr>"

definition decoded_sample :: "NormalizedVehicleSample \<Rightarrow> nat \<Rightarrow> DecodedBlePayload" where
  "decoded_sample s index = DecodedBlePayload_default
     \<lparr>dp_recordType := Record_Sample, dp_index := index, dp_signalId := smp_signalId s,
      dp_unit := smp_unit s, dp_valueType := smp_valueType s, dp_hasValue := hasValue s,
      dp_numericValue := (if hasValue s then nv_numeric (smp_value s) else 0),
      dp_booleanValue := (hasValue s \<and> nv_boolean (smp_value s)),
      dp_textValue := (if hasValue s then nv_text (smp_value s) else BoundedText_default kMaxTextLength),
      dp_source := smp_source s, dp_quality := smp_quality s, dp_availability := smp_availability s,
      dp_timestampMs := smp_timestampMs s\<rparr>"

lemma decode_reads:
  assumes "reads p body d" and "rawType = 1 \<and> p = decode_snapshot \<or> rawType = 2 \<and> p = decode_capability \<or>
      rawType = 3 \<and> p = decode_sample"
  shows "decodeBlePayload (Some ([1, rawType] @ body)) = Some d"
  using assms
  by (auto simp: decodeBlePayload_def wire_bind_def wire_byte_def wire_check_def reads_def
      dest: spec [of _ "[]"])

lemma of_nat_u16: "n \<le> 65535 \<Longrightarrow> unat (of_nat n :: u16) = n"
  by (simp add: unat_of_nat take_bit_eq_mod)

lemma decode_snapshot_bytes:
  assumes "snapshot_acceptable s"
  shows "decodeBlePayload (Some (snapshot_bytes s)) = Some (decoded_snapshot s)"
proof -
  have zero: "(of_nat (rs_capabilityCount s) :: u16) \<noteq> 0 \<Longrightarrow> rs_capabilityCount s \<noteq> 0" by (rule notI) simp
  have identity: "reads (if rs_activeIdentity s \<noteq> None then wire_u32 else wire_return 0)
      (case rs_activeIdentity s of None \<Rightarrow> [] | Some i \<Rightarrow> be_bytes 4 (pi_value i))
      (case rs_activeIdentity s of None \<Rightarrow> 0 | Some i \<Rightarrow> pi_value i)"
    by (cases "rs_activeIdentity s") (simp_all add: reads_return reads_words)
  have "reads decode_snapshot ([code_selection (rs_selectionState s)] @ [if rs_activeIdentity s \<noteq> None then 1 else 0] @
      (case rs_activeIdentity s of None \<Rightarrow> [] | Some i \<Rightarrow> be_bytes 4 (pi_value i)) @
      [if rs_hasCapabilityRegistry s then 1 else 0] @ be_bytes 2 (of_nat (rs_capabilityCount s) :: u16) @
      be_bytes 2 (of_nat (rs_sampleCount s) :: u16) @ []) (decoded_snapshot s)"
    unfolding decode_snapshot_def
    by (rule reads_eq, (rule identity reads_intros |
          use assms zero in \<open>force simp: snapshot_acceptable_def; fail\<close>)+)
      (simp add: decoded_snapshot_def)
  from decode_reads [OF this, of 1] show ?thesis by (simp add: snapshot_bytes_def)
qed

lemma text_ok_inv: "bt_inv Capacity t \<Longrightarrow> text_ok Capacity (bt_text t)"
  by (auto simp: bt_inv_def text_ok_def acceptable_def bt_text_def)

lemma decode_capability_bytes:
  assumes "descriptor_inv c" and "capability_acceptable c index"
  shows "decodeBlePayload (Some (capability_bytes c index)) = Some (decoded_capability c index)"
proof -
  have texts: "reads (wire_string kMaxSignalIdLength) (string_bytes (bt_text (nsd_identity c)))
      (canonical kMaxSignalIdLength (bt_text (nsd_identity c)))"
    "reads (wire_string kMaxUnitLength) (string_bytes (bt_text (nsd_unit c)))
      (canonical kMaxUnitLength (bt_text (nsd_unit c)))"
    using assms(1)
    by (intro reads_string text_ok_inv; simp add: descriptor_inv_def kMaxSignalIdLength_def kMaxUnitLength_def)+
  have "reads decode_capability (be_bytes 2 (of_nat index :: u16) @ string_bytes (bt_text (nsd_identity c)) @
      [code_valueType (nsd_expectedValueType c)] @ string_bytes (bt_text (nsd_unit c)) @
      [code_support (nsd_support c)] @ []) (decoded_capability c index)"
    unfolding decode_capability_def
    by (rule reads_eq, (rule texts reads_intros |
          use assms(2) in \<open>simp add: capability_acceptable_def; fail\<close>)+)
      (use assms(2) in \<open>simp add: decoded_capability_def of_nat_u16 capability_acceptable_def\<close>)
  from decode_reads [OF this, of 2] show ?thesis by (simp add: capability_bytes_def)
qed

lemma reads_value:
  assumes "reading_ok rd" and "dp_valueType d = nv_type (value_of rd)"
    and "dp_hasValue d \<longrightarrow> rd \<noteq> No_reading \<and> (\<forall>n. rd = Number n \<longrightarrow> isfinite n)"
  shows "reads (decode_ble_value d) (if dp_hasValue d then reading_bytes rd else [])
    (if dp_hasValue d
     then (case rd of No_reading \<Rightarrow> d | Number n \<Rightarrow> d\<lparr>dp_numericValue := n\<rparr>
           | Flag b \<Rightarrow> d\<lparr>dp_booleanValue := b\<rparr> | Words w \<Rightarrow> d\<lparr>dp_textValue := canonical kMaxTextLength w\<rparr>)
     else d)"
proof (cases "dp_hasValue d")
  case False
  then show ?thesis by (simp add: decode_ble_value_def reads_return)
next
  case True
  note last = reads_bind [OF _ reads_return, unfolded append_Nil2]
  show ?thesis
  proof (cases rd)
    case (Number n)
    from assms(3) True Number have "isfinite n" by blast
    then have "reads (wire_bind wire_u64 (\<lambda>bits. wire_check (isfinite bits) (wire_return (d\<lparr>dp_numericValue := bits\<rparr>))))
        (be_bytes 8 n @ []) (d\<lparr>dp_numericValue := n\<rparr>)"
      by (rule reads_bind [OF reads_words(2) reads_check [OF _ reads_return]])
    then show ?thesis using True assms(2) by (simp add: decode_ble_value_def Number)
  next
    case (Flag b)
    then show ?thesis using True assms(2) last [OF reads_flag, of "\<lambda>b. d\<lparr>dp_booleanValue := b\<rparr>" b]
      by (simp add: decode_ble_value_def)
  next
    case (Words w)
    then show ?thesis
      using True assms(1,2) last [OF reads_string, of kMaxTextLength w "\<lambda>t. d\<lparr>dp_textValue := t\<rparr>"]
      by (simp add: decode_ble_value_def kMaxTextLength_def)
  qed (use assms(3) True in simp)
qed

lemma decode_sample_bytes:
  assumes ok: "sendable i u rd sc q a index"
  shows "decodeBlePayload (Some (sample_bytes i u rd sc q a t index)) =
    Some (decoded_sample (sample_of i u rd sc q a t) index)"
proof -
  define present where "present \<longleftrightarrow> rd \<noteq> No_reading \<and> q \<noteq> Quality_InvalidOrUnknown"
  define d where "d = DecodedBlePayload_default
    \<lparr>dp_recordType := Record_Sample, dp_index := unat (of_nat index :: u16),
     dp_signalId := canonical kMaxSignalIdLength i, dp_valueType := nv_type (value_of rd), dp_hasValue := present\<rparr>"
  define body where "body = (if dp_hasValue d then reading_bytes rd else [])"
  define e where "e = (if dp_hasValue d
       then (case rd of No_reading \<Rightarrow> d | Number n \<Rightarrow> d\<lparr>dp_numericValue := n\<rparr>
             | Flag b \<Rightarrow> d\<lparr>dp_booleanValue := b\<rparr> | Words w \<Rightarrow> d\<lparr>dp_textValue := canonical kMaxTextLength w\<rparr>)
       else d)"
  have index: "unat (of_nat index :: u16) = index" using ok by (simp add: sendable_def of_nat_u16)
  have texts: "reads (wire_string kMaxSignalIdLength) (string_bytes i) (canonical kMaxSignalIdLength i)"
    "reads (wire_string kMaxUnitLength) (string_bytes u) (canonical kMaxUnitLength u)"
    using ok by (intro reads_string; simp add: sendable_def kMaxSignalIdLength_def kMaxUnitLength_def)+
  have reading: "reads (decode_ble_value d) body e"
    unfolding body_def e_def using ok by (intro reads_value) (auto simp: sendable_def d_def present_def)
  have type: "valid_valueType (nv_type (value_of rd))" by (cases rd) simp_all
  have e: "dp_hasValue e = present" "dp_valueType e = nv_type (value_of rd)"
    by (auto simp: e_def d_def split: reading.split)
  have consistent: "\<not> (a \<noteq> Availability_Available \<and> dp_hasValue e \<or>
      a = Availability_Available \<and> dp_valueType e = ValueType_None \<or>
      dp_hasValue e \<and> q = Quality_InvalidOrUnknown)"
    using ok unfolding e by (auto simp: present_def sendable_def split: reading.splits)
  have "reads decode_sample (be_bytes 2 (of_nat index :: u16) @ string_bytes i @
      [code_valueType (nv_type (value_of rd))] @ [if present then 1 else 0] @
      body @ string_bytes u @ [code_source sc] @ [code_quality q] @
      [code_availability a] @ be_bytes 8 t @ [])
      (e\<lparr>dp_unit := canonical kMaxUnitLength u, dp_source := sc, dp_quality := q,
         dp_availability := a, dp_timestampMs := t\<rparr>)"
    unfolding decode_sample_def
    by (rule texts reads_bind reads_check [OF consistent] reads_return reads_words reads_u16 reads_flag
          reads_codes type reading [unfolded d_def] |
        use ok in \<open>simp only: sendable_def; fail\<close>)+
  moreover have "e\<lparr>dp_unit := canonical kMaxUnitLength u, dp_source := sc, dp_quality := q,
         dp_availability := a, dp_timestampMs := t\<rparr> = decoded_sample (sample_of i u rd sc q a t) index"
  proof -
    have "rd = No_reading \<longleftrightarrow> a \<noteq> Availability_Available" using ok by (simp add: sendable_def)
    from hasValue_sample_of [OF this] have "hasValue (sample_of i u rd sc q a t) = present"
      by (simp add: present_def)
    then show ?thesis
      by (cases rd; cases present)
        (simp_all add: decoded_sample_def e_def d_def index DecodedBlePayload_default_def present_def
          value_of.simps(2-) value_numeric_def value_boolean_def NormalizedVehicleValue_default_def)
  qed
  moreover have "sample_bytes i u rd sc q a t index = [1, 3] @ be_bytes 2 (of_nat index :: u16) @ string_bytes i @
      [code_valueType (nv_type (value_of rd))] @ [if present then 1 else 0] @
      body @ string_bytes u @ [code_source sc] @ [code_quality q] @
      [code_availability a] @ be_bytes 8 t @ []"
    by (cases rd) (simp_all add: sample_bytes_def body_def d_def present_def)
  ultimately show ?thesis
    using decode_reads [of decode_sample _ "decoded_sample (sample_of i u rd sc q a t) index" 3] by simp
qed

section \<open>Properties\<close>

definition received :: "BlePayloadResult \<times> bytes option \<Rightarrow> DecodedBlePayload \<Rightarrow> bool" where
  "received encoding d \<longleftrightarrow>
     (case encoding of (result, out) \<Rightarrow> bp_status result = BleEncoded \<longrightarrow>
        decodeBlePayload (map_option (take (bp_requiredCapacity result)) out) = Some d)"

lemma received_exact:
  "(sound \<Longrightarrow> decodeBlePayload (Some bs) = Some d) \<Longrightarrow> received (exact_encoding sound bs out capacity) d"
  by (simp add: received_def exact_encoding_def)

text \<open>
  C8: a BLE client receives what was sent. Whenever the encoder succeeds, the reference decoder
  accepts the bytes it wrote and recovers the record: the selection, the profile and the counts of a
  snapshot; the texts, type and support of a capability; the texts, the states, the time stamp and,
  exactly if it has one, the value of a sample, every bit of a number included.
\<close>

theorem ble_roundtrip:
  assumes "sample_inv s" and "descriptor_inv c" and "capacity \<le> length out"
  shows "received (encodeBleSnapshotMetadata m (Some out) capacity) (decoded_snapshot m) \<and>
    received (encodeBleCapabilityRecord c index (Some out) capacity) (decoded_capability c index) \<and>
    received (encodeBleSampleRecord s index (Some out) capacity) (decoded_sample s index)"
proof -
  have "decodeBlePayload (Some (sample_record s index)) = Some (decoded_sample s index)"
    if accepted: "sample_acceptable s index"
  proof -
    obtain i u rd sc q a t where s: "s = sample_of i u rd sc q a t" and ok: "sendable i u rd sc q a index"
      using sendable_sample [OF assms(1) accepted] by blast
    then have "sample_record s index = sample_bytes i u rd sc q a t index"
      by (simp add: sample_record_of sendable_def)
    then show ?thesis using decode_sample_bytes [OF ok] s by simp
  qed
  then show ?thesis
    using decode_snapshot_bytes decode_capability_bytes [OF assms(2)]
    by (simp add: ble_snapshot_exact ble_capability_exact ble_sample_exact assms received_exact)
qed

text \<open>The flag of signal 'a' in a buffer that has room for it.\<close>

lemma ble_roundtrip_witness:
  "decodeBlePayload (map_option (take 21) (snd (encodeBleSampleRecord (flag_sample 0x61 5) 3
       (Some (replicate 30 0)) 30))) =
     Some (decoded_sample (flag_sample 0x61 5) 3)"
proof -
  have c: "descriptor_inv (kamiq_descriptor ''vehicle.speed'' ''km/h'')"
    by code_simp
  have s: "sample_inv (flag_sample 0x61 5)" by (rule flag_sample_inv [OF letters_ok(1)])
  have "sample_acceptable (flag_sample 0x61 5) 3" "length (sample_record (flag_sample 0x61 5) 3) = 21"
    by (simp_all add: sample_acceptable_def flag_sample_def sample_record_of sample_bytes_def)
  then show ?thesis
    using ble_roundtrip [OF s c, of 30 "replicate 30 0" VehicleDataReadSnapshot_default 3]
      ble_sample_exact [OF s, of 30 "replicate 30 0" 3]
    by (simp add: received_def exact_encoding_def)
qed

end
