(* ===== verification/Esp32_Twai.thy ===== *)
theory Esp32_Twai
  imports Can_Types
begin

text \<open>
  The CAN back end of the device (\<open>esp32_twai_can.cpp\<close>, \<open>hal/esp32_twai_can.h\<close>). The TWAI driver
  of the SDK is not part of the repository: its functions are the fields of a record over an
  arbitrary driver world \<open>'w\<close>, and its flag constants are parameters. The configuration macros are
  tokens, since the code only passes them on.
\<close>

section \<open>The driver's interface\<close>

datatype esp_err =
    ESP_OK
  | ESP_FAIL
  | ESP_ERR_TIMEOUT
  | ESP_ERR_INVALID_STATE
  | ESP_ERR_INVALID_ARG
  | ESP_ERR_NOT_SUPPORTED
  | ESP_ERR_OTHER int

datatype twai_state = TWAI_STATE_STOPPED | TWAI_STATE_RUNNING | TWAI_STATE_BUS_OFF | TWAI_STATE_RECOVERING

datatype twai_timing =
    TWAI_TIMING_CONFIG_10KBITS
  | TWAI_TIMING_CONFIG_20KBITS
  | TWAI_TIMING_CONFIG_25KBITS
  | TWAI_TIMING_CONFIG_50KBITS
  | TWAI_TIMING_CONFIG_100KBITS
  | TWAI_TIMING_CONFIG_125KBITS
  | TWAI_TIMING_CONFIG_250KBITS
  | TWAI_TIMING_CONFIG_500KBITS
  | TWAI_TIMING_CONFIG_800KBITS
  | TWAI_TIMING_CONFIG_1MBITS

datatype twai_mode = TWAI_MODE_NORMAL

datatype twai_filter = TWAI_FILTER_CONFIG_ACCEPT_ALL

record twai_general =
  tg_tx_gpio :: "16 word"
  tg_rx_gpio :: "16 word"
  tg_mode :: twai_mode
  tg_rx_queue_len :: nat
  tg_alerts_enabled :: u32

record twai_message =
  tm_identifier :: u32
  tm_data_length_code :: u8
  tm_flags :: u32
  tm_data :: bytes

record 'w twai =
  tw_install :: "twai_general \<Rightarrow> twai_timing \<Rightarrow> twai_filter \<Rightarrow> 'w \<Rightarrow> esp_err \<times> 'w"
  tw_uninstall :: "'w \<Rightarrow> esp_err \<times> 'w"
  tw_start :: "'w \<Rightarrow> esp_err \<times> 'w"
  tw_stop :: "'w \<Rightarrow> esp_err \<times> 'w"
  tw_get_status_info :: "'w \<Rightarrow> esp_err \<times> twai_state \<times> 'w"
  tw_read_alerts :: "'w \<Rightarrow> esp_err \<times> u32 \<times> 'w"
  tw_transmit :: "twai_message \<Rightarrow> 'w \<Rightarrow> esp_err \<times> 'w"
  tw_receive :: "'w \<Rightarrow> esp_err \<times> twai_message \<times> 'w"
  tw_millis :: "'w \<Rightarrow> u32 \<times> 'w"
  TWAI_ALERT_RX_QUEUE_FULL :: u32
  TWAI_ALERT_RX_FIFO_OVERRUN :: u32
  TWAI_ALERT_BUS_OFF :: u32
  TWAI_ALERT_TX_FAILED :: u32
  TWAI_MSG_FLAG_NONE :: u32
  TWAI_MSG_FLAG_EXTD :: u32
  TWAI_MSG_FLAG_RTR :: u32

definition kRequiredAlerts :: "'w twai \<Rightarrow> u32" where
  "kRequiredAlerts d =
     TWAI_ALERT_RX_QUEUE_FULL d OR TWAI_ALERT_RX_FIFO_OVERRUN d OR TWAI_ALERT_BUS_OFF d OR
     TWAI_ALERT_TX_FAILED d"

section \<open>The back end\<close>

record Esp32TwaiCan =
  tc_installed :: bool
  tc_started :: bool
  tc_pendingAlerts :: u32

definition Esp32TwaiCan_init :: Esp32TwaiCan where
  "Esp32TwaiCan_init = \<lparr>tc_installed = False, tc_started = False, tc_pendingAlerts = 0\<rparr>"

definition timingForBitrate :: "u32 \<Rightarrow> twai_timing option" where
  "timingForBitrate bitrate =
     (if bitrate = 10000 then Some TWAI_TIMING_CONFIG_10KBITS
      else if bitrate = 20000 then Some TWAI_TIMING_CONFIG_20KBITS
      else if bitrate = 25000 then Some TWAI_TIMING_CONFIG_25KBITS
      else if bitrate = 50000 then Some TWAI_TIMING_CONFIG_50KBITS
      else if bitrate = 100000 then Some TWAI_TIMING_CONFIG_100KBITS
      else if bitrate = 125000 then Some TWAI_TIMING_CONFIG_125KBITS
      else if bitrate = 250000 then Some TWAI_TIMING_CONFIG_250KBITS
      else if bitrate = 500000 then Some TWAI_TIMING_CONFIG_500KBITS
      else if bitrate = 800000 then Some TWAI_TIMING_CONFIG_800KBITS
      else if bitrate = 1000000 then Some TWAI_TIMING_CONFIG_1MBITS
      else None)"

definition validConfig :: "HardwareConfig \<Rightarrow> bool" where
  "validConfig c \<longleftrightarrow> 0 \<le> sint (hc_canTxGpio c) \<and> 0 \<le> sint (hc_canRxGpio c) \<and> hc_canBitrate c \<noteq> 0"

definition twai_stop :: "'w twai \<Rightarrow> Esp32TwaiCan \<Rightarrow> 'w \<Rightarrow> CanStatus \<times> Esp32TwaiCan \<times> 'w" where
  "twai_stop d c w =
     (if \<not> tc_installed c then (CanOk, c, w)
      else
        (case tw_get_status_info d w of (err, state, w) \<Rightarrow>
           if err \<noteq> ESP_OK then (CanDriverError, c, w)
           else
             (case (if state = TWAI_STATE_RUNNING then tw_stop d w else (ESP_OK, w)) of (err, w) \<Rightarrow>
                if err \<noteq> ESP_OK then (CanDriverError, c, w)
                else
                  (case tw_uninstall d w of (err, w) \<Rightarrow>
                     if err \<noteq> ESP_OK then (CanDriverError, c, w)
                     else (CanOk, c\<lparr>tc_installed := False, tc_started := False, tc_pendingAlerts := 0\<rparr>, w)))))"

definition twai_install_and_start ::
  "'w twai \<Rightarrow> HardwareConfig \<Rightarrow> twai_timing \<Rightarrow> Esp32TwaiCan \<Rightarrow> 'w \<Rightarrow> CanStatus \<times> Esp32TwaiCan \<times> 'w" where
  "twai_install_and_start d config timing c w =
     (let general = \<lparr>tg_tx_gpio = hc_canTxGpio config, tg_rx_gpio = hc_canRxGpio config,
            tg_mode = TWAI_MODE_NORMAL, tg_rx_queue_len = 16, tg_alerts_enabled = kRequiredAlerts d\<rparr>
      in case tw_install d general timing TWAI_FILTER_CONFIG_ACCEPT_ALL w of (err, w) \<Rightarrow>
           if err \<noteq> ESP_OK then (CanInvalidConfig, c, w)
           else
             (let c = c\<lparr>tc_installed := True\<rparr>
              in case tw_start d w of (err, w) \<Rightarrow>
                   if err \<noteq> ESP_OK
                   then
                     (case tw_uninstall d w of (err, w) \<Rightarrow>
                        if err \<noteq> ESP_OK
                        then (CanDriverError, c\<lparr>tc_installed := True, tc_started := False\<rparr>, w)
                        else (CanInvalidConfig, c\<lparr>tc_installed := False\<rparr>, w))
                   else (CanOk, c\<lparr>tc_started := True\<rparr>, w)))"

definition twai_initialize ::
  "'w twai \<Rightarrow> HardwareConfig \<Rightarrow> Esp32TwaiCan \<Rightarrow> 'w \<Rightarrow> CanStatus \<times> Esp32TwaiCan \<times> 'w" where
  "twai_initialize d config c w =
     (if \<not> validConfig config then (CanInvalidConfig, c, w)
      else
        (case timingForBitrate (hc_canBitrate config) of
           None \<Rightarrow> (CanInvalidConfig, c, w)
         | Some timing \<Rightarrow>
             (if tc_installed c \<or> tc_started c
              then (case twai_stop d c w of (cleanup, c, w) \<Rightarrow>
                      if cleanup \<noteq> CanOk then (cleanup, c, w)
                      else twai_install_and_start d config timing c w)
              else twai_install_and_start d config timing c w)))"

definition captureAlerts :: "'w twai \<Rightarrow> Esp32TwaiCan \<Rightarrow> 'w \<Rightarrow> Esp32TwaiCan \<times> 'w" where
  "captureAlerts d c w =
     (case tw_read_alerts d w of (err, alerts, w) \<Rightarrow>
        (if err = ESP_OK
         then c\<lparr>tc_pendingAlerts := tc_pendingAlerts c OR (alerts AND kRequiredAlerts d)\<rparr> else c, w))"

definition consumeSendAlert :: "'w twai \<Rightarrow> Esp32TwaiCan \<Rightarrow> CanStatus \<times> Esp32TwaiCan" where
  "consumeSendAlert d c =
     (if tc_pendingAlerts c AND TWAI_ALERT_BUS_OFF d \<noteq> 0
      then (CanBusOff, c\<lparr>tc_pendingAlerts := tc_pendingAlerts c AND NOT (TWAI_ALERT_BUS_OFF d)\<rparr>)
      else if tc_pendingAlerts c AND TWAI_ALERT_TX_FAILED d \<noteq> 0
      then (CanTxFailed, c\<lparr>tc_pendingAlerts := tc_pendingAlerts c AND NOT (TWAI_ALERT_TX_FAILED d)\<rparr>)
      else (CanOk, c))"

definition consumeReceiveAlert :: "'w twai \<Rightarrow> Esp32TwaiCan \<Rightarrow> CanStatus \<times> Esp32TwaiCan" where
  "consumeReceiveAlert d c =
     (let overflow = TWAI_ALERT_RX_QUEUE_FULL d OR TWAI_ALERT_RX_FIFO_OVERRUN d
      in if tc_pendingAlerts c AND overflow \<noteq> 0
         then (CanRxOverflow, c\<lparr>tc_pendingAlerts := tc_pendingAlerts c AND NOT overflow\<rparr>)
         else if tc_pendingAlerts c AND TWAI_ALERT_BUS_OFF d \<noteq> 0
         then (CanBusOff, c\<lparr>tc_pendingAlerts := tc_pendingAlerts c AND NOT (TWAI_ALERT_BUS_OFF d)\<rparr>)
         else (CanOk, c))"

definition driver_bus_off :: "'w twai \<Rightarrow> 'w \<Rightarrow> bool \<times> 'w" where
  "driver_bus_off d w =
     (case tw_get_status_info d w of (err, state, w) \<Rightarrow> (err = ESP_OK \<and> state = TWAI_STATE_BUS_OFF, w))"

definition message_of :: "'w twai \<Rightarrow> CanFrame \<Rightarrow> twai_message" where
  "message_of d f =
     \<lparr>tm_identifier = cf_id f, tm_data_length_code = cf_length f,
      tm_flags = (if cf_format f = Extended then TWAI_MSG_FLAG_EXTD d else TWAI_MSG_FLAG_NONE d),
      tm_data = fold (\<lambda>i v. v[i := cf_payload f ! i]) [0 ..< unat (cf_length f)] (replicate 8 0)\<rparr>"

definition send_result :: "esp_err \<Rightarrow> CanStatus" where
  "send_result result =
     (if result = ESP_OK then CanOk
      else if result = ESP_ERR_TIMEOUT \<or> result = ESP_FAIL then CanTxBusy
      else if result = ESP_ERR_INVALID_STATE then CanNotInitialized
      else if result = ESP_ERR_INVALID_ARG \<or> result = ESP_ERR_NOT_SUPPORTED then CanInvalidConfig
      else CanDriverError)"

definition twai_send ::
  "'w twai \<Rightarrow> CanFrame \<Rightarrow> Esp32TwaiCan \<Rightarrow> 'w \<Rightarrow> CanStatus \<times> Esp32TwaiCan \<times> 'w" where
  "twai_send d f c w =
     (if \<not> tc_started c then (CanNotInitialized, c, w)
      else if \<not> CanFrame_isValid f then (CanInvalidConfig, c, w)
      else
        (case captureAlerts d c w of (c, w) \<Rightarrow>
           (case consumeSendAlert d c of (alertStatus, c) \<Rightarrow>
              if alertStatus \<noteq> CanOk then (alertStatus, c, w)
              else
                (case driver_bus_off d w of (off, w) \<Rightarrow>
                   if off then (CanBusOff, c, w)
                   else
                     (case tw_transmit d (message_of d f) w of (result, w) \<Rightarrow> (send_result result, c, w))))))"

definition frame_of :: "'w twai \<Rightarrow> twai_message \<Rightarrow> u32 \<Rightarrow> CanFrame \<Rightarrow> CanFrame" where
  "frame_of d m millis f =
     f\<lparr>cf_id := tm_identifier m,
       cf_format := (if tm_flags m AND TWAI_MSG_FLAG_EXTD d \<noteq> 0 then Extended else Standard),
       cf_length := tm_data_length_code m,
       cf_payload := fold (\<lambda>i v. v[i := tm_data m ! i]) [0 ..< unat (tm_data_length_code m)] (cf_payload f),
       cf_timestamp := ucast millis\<rparr>"

definition twai_receive ::
  "'w twai \<Rightarrow> CanFrame \<Rightarrow> Esp32TwaiCan \<Rightarrow> 'w \<Rightarrow> CanStatus \<times> CanFrame \<times> Esp32TwaiCan \<times> 'w" where
  "twai_receive d f c w =
     (if \<not> tc_started c then (CanNotInitialized, f, c, w)
      else
        (case captureAlerts d c w of (c, w) \<Rightarrow>
           (case consumeReceiveAlert d c of (alertStatus, c) \<Rightarrow>
              if alertStatus \<noteq> CanOk then (alertStatus, f, c, w)
              else
                (case driver_bus_off d w of (off, w) \<Rightarrow>
                   if off then (CanBusOff, f, c, w)
                   else
                     (case tw_receive d w of (result, m, w) \<Rightarrow>
                        if result = ESP_ERR_TIMEOUT then (CanNoData, f, c, w)
                        else if result \<noteq> ESP_OK
                        then (if result = ESP_ERR_INVALID_STATE then CanNotInitialized else CanNoData, f, c, w)
                        else if kClassicCanMaxPayload < tm_data_length_code m \<or>
                                tm_flags m AND TWAI_MSG_FLAG_RTR d \<noteq> 0
                        then (CanInvalidConfig, f, c, w)
                        else (case tw_millis d w of (now, w) \<Rightarrow> (CanOk, frame_of d m now f, c, w)))))))"

text \<open>The destructor stops; its status is dropped. The class as a back end over its own state and the driver.\<close>

definition twai_destroy :: "'w twai \<Rightarrow> Esp32TwaiCan \<Rightarrow> 'w \<Rightarrow> 'w" where
  "twai_destroy d c w = snd (snd (twai_stop d c w))"

definition twai_hal :: "'w twai \<Rightarrow> (Esp32TwaiCan \<times> 'w) CanHal" where
  "twai_hal d =
     \<lparr>hal_initialize = (\<lambda>config (c, w). twai_initialize d config c w),
      hal_stop = (\<lambda>(c, w). twai_stop d c w),
      hal_send = (\<lambda>f (c, w). twai_send d f c w),
      hal_receive = (\<lambda>f (c, w). twai_receive d f c w)\<rparr>"

end
