(* ===== verification/Can_Backend.thy ===== *)
theory Can_Backend
  imports Esp32_Twai Mock_Platform
begin

text \<open>
  The contract of a CAN back end (\<open>hal/can_hal.h\<close>) as a locale, with both back ends of the repository
  as instances: the host mock and the TWAI back end of the device, the latter for every driver.
  Then what is special to the device: it keeps track of the driver's installation, and no alert
  is lost between the two directions.
\<close>

section \<open>The contract\<close>

datatype backend_op = OpInitialize HardwareConfig | OpStop | OpSend CanFrame | OpReceive CanFrame

fun backend_step :: "'w CanHal \<Rightarrow> backend_op \<Rightarrow> 'w \<times> CanFrame list \<Rightarrow> 'w \<times> CanFrame list" where
  "backend_step H (OpInitialize config) (w, acc) = (snd (hal_initialize H config w), acc)"
| "backend_step H OpStop (w, acc) = (snd (hal_stop H w), acc)"
| "backend_step H (OpSend f) (w, acc) =
     (case hal_send H f w of (st, w) \<Rightarrow> (w, if st = CanOk then acc @ [f] else acc))"
| "backend_step H (OpReceive f) (w, acc) = (snd (snd (hal_receive H f w)), acc)"

definition backend_run :: "'w CanHal \<Rightarrow> backend_op list \<Rightarrow> 'w \<times> CanFrame list \<Rightarrow> 'w \<times> CanFrame list" where
  "backend_run H ops x = fold (backend_step H) ops x"

locale can_backend =
  fixes H :: "'w CanHal" and inv :: "'w \<Rightarrow> bool" and ready :: "'w \<Rightarrow> bool"
  assumes initialize_law: "inv w \<Longrightarrow> hal_initialize H config w = (st, w') \<Longrightarrow>
      inv w' \<and> (st = CanOk \<longrightarrow> ready w')"
    and stop_law: "inv w \<Longrightarrow> hal_stop H w = (st, w') \<Longrightarrow>
      inv w' \<and> (ready w' \<longrightarrow> ready w) \<and> (st = CanOk \<longrightarrow> \<not> ready w')"
    and send_law: "inv w \<Longrightarrow> hal_send H f w = (st, w') \<Longrightarrow>
      inv w' \<and> (ready w' \<longleftrightarrow> ready w) \<and> (\<not> ready w \<longrightarrow> st = CanNotInitialized \<and> w' = w) \<and>
      (st = CanOk \<longrightarrow> CanFrame_isValid f)"
    and receive_law: "inv w \<Longrightarrow> hal_receive H f w = (st, f', w') \<Longrightarrow>
      inv w' \<and> (ready w' \<longleftrightarrow> ready w) \<and> (\<not> ready w \<longrightarrow> st = CanNotInitialized \<and> w' = w) \<and>
      (st \<noteq> CanOk \<longrightarrow> f' = f)"
begin

lemma step_inv:
  assumes "inv w" and "backend_step H e (w, acc) = (w', acc')"
  shows "inv w'"
proof (cases e)
  case (OpInitialize config)
  then show ?thesis using assms(2) initialize_law [OF assms(1) prod.collapse [symmetric]] by auto
next
  case OpStop
  then show ?thesis using assms(2) stop_law [OF assms(1) prod.collapse [symmetric]] by auto
next
  case (OpSend f)
  then show ?thesis using assms(2) send_law [OF assms(1) prod.collapse [symmetric], of f]
    by (simp add: case_prod_beta)
next
  case (OpReceive f)
  obtain st g v where "hal_receive H f w = (st, g, v)" by (metis prod_cases3)
  with receive_law [OF assms(1) this] show ?thesis using assms(2) OpReceive by auto
qed

lemma step_accepted:
  "inv w \<Longrightarrow> list_all CanFrame_isValid acc \<Longrightarrow> backend_step H e (w, acc) = (w', acc') \<Longrightarrow>
   list_all CanFrame_isValid acc'"
  using send_law by (cases e) (auto split: prod.splits if_splits)

lemma step_silent:
  assumes "inv w" and "\<not> ready w" and "backend_step H e (w, acc) = (w', acc')"
    and "\<forall>config. e \<noteq> OpInitialize config"
  shows "\<not> ready w' \<and> acc' = acc"
proof (cases e)
  case OpStop
  then show ?thesis using assms stop_law [OF assms(1)] by (metis backend_step.simps(2) prod.collapse prod.inject)
next
  case (OpSend f)
  obtain st v where s: "hal_send H f w = (st, v)" by fastforce
  from send_law [OF assms(1) s] assms(2,3) s OpSend show ?thesis by auto
next
  case (OpReceive f)
  obtain st g v where s: "hal_receive H f w = (st, g, v)" by (metis prod_cases3)
  from receive_law [OF assms(1) s] assms(2,3) s OpReceive show ?thesis by auto
qed (use assms(4) in simp)

text \<open>
  Only valid frames are ever accepted, and a back end that is not ready accepts nothing until it is
  initialised.
\<close>

lemma run_accepted:
  "inv w \<Longrightarrow> list_all CanFrame_isValid acc \<Longrightarrow>
   inv (fst (backend_run H ops (w, acc))) \<and> list_all CanFrame_isValid (snd (backend_run H ops (w, acc)))"
proof (induction ops arbitrary: w acc)
  case (Cons e ops)
  obtain w' acc' where s: "backend_step H e (w, acc) = (w', acc')" by fastforce
  with Cons step_inv [OF _ s] step_accepted [OF _ _ s] show ?case by (simp add: backend_run_def)
qed (simp add: backend_run_def)

lemma run_silent:
  "inv w \<Longrightarrow> \<not> ready w \<Longrightarrow> \<forall>e \<in> set ops. \<forall>config. e \<noteq> OpInitialize config \<Longrightarrow>
   \<not> ready (fst (backend_run H ops (w, acc))) \<and> snd (backend_run H ops (w, acc)) = acc"
proof (induction ops arbitrary: w acc)
  case (Cons e ops)
  obtain w' acc' where s: "backend_step H e (w, acc) = (w', acc')" by fastforce
  with Cons.prems step_inv [OF _ s] step_silent [OF _ _ s] Cons.IH [of w' acc'] show ?case
    by (simp add: backend_run_def)
qed (simp add: backend_run_def)

lemma stopped_silent:
  assumes "inv w" and "hal_stop H w = (CanOk, w')"
    and "\<forall>e \<in> set ops. \<forall>config. e \<noteq> OpInitialize config"
  shows "snd (backend_run H ops (w', acc)) = acc"
  using run_silent [of w' ops acc] stop_law [OF assms(1,2)] assms(3) by blast

end

section \<open>The host mock\<close>

interpretation mock: can_backend "env_can mock_env" "\<lambda>w. True" "\<lambda>w. mc_initialized (fst w)"
  by unfold_locales
    (auto simp: mock_env_def MockCan_initialize_def MockCan_stop_def MockCan_send_def MockCan_receive_def
      Let_def split: prod.splits if_splits list.splits)

section \<open>The device\<close>

definition twai_inv :: "Esp32TwaiCan \<times> 'w \<Rightarrow> bool" where
  "twai_inv x \<longleftrightarrow> (tc_started (fst x) \<longrightarrow> tc_installed (fst x))"

definition twai_ready :: "Esp32TwaiCan \<times> 'w \<Rightarrow> bool" where
  "twai_ready x \<longleftrightarrow> tc_started (fst x)"

lemma twai_stop_cases:
  assumes "twai_stop d c w = (st, c', w')"
  shows "(st = CanOk \<and> \<not> tc_installed c \<and> c' = c \<and> w' = w) \<or>
    (st = CanDriverError \<and> tc_installed c \<and> c' = c) \<or>
    (st = CanOk \<and> tc_installed c \<and> c' = c\<lparr>tc_installed := False, tc_started := False, tc_pendingAlerts := 0\<rparr>)"
  using assms by (auto simp: twai_stop_def split: if_splits prod.splits)

lemma install_and_start_cases:
  assumes "twai_install_and_start d config timing c w = (st, c', w')"
  shows "(st = CanInvalidConfig \<and> c' = c) \<or>
    (st = CanDriverError \<and> c' = c\<lparr>tc_installed := True, tc_started := False\<rparr>) \<or>
    (st = CanInvalidConfig \<and> c' = c\<lparr>tc_installed := False\<rparr>) \<or>
    (st = CanOk \<and> c' = c\<lparr>tc_installed := True, tc_started := True\<rparr>)"
  using assms by (auto simp: twai_install_and_start_def Let_def split: if_splits prod.splits)

lemma captureAlerts_same:
  "captureAlerts d c w = (c', w') \<Longrightarrow> tc_started c' = tc_started c \<and> tc_installed c' = tc_installed c"
  by (auto simp: captureAlerts_def split: prod.splits if_splits)

lemma consumeSendAlert_same:
  "consumeSendAlert d c = (st, c') \<Longrightarrow> tc_started c' = tc_started c \<and> tc_installed c' = tc_installed c"
  by (auto simp: consumeSendAlert_def split: if_splits)

lemma consumeReceiveAlert_same:
  "consumeReceiveAlert d c = (st, c') \<Longrightarrow> tc_started c' = tc_started c \<and> tc_installed c' = tc_installed c"
  by (auto simp: consumeReceiveAlert_def Let_def split: if_splits)

lemmas alerts_same = captureAlerts_same consumeSendAlert_same consumeReceiveAlert_same

lemma twai_initialize_ready:
  assumes "twai_initialize d config c w = (st, c', w')" and "tc_started c \<longrightarrow> tc_installed c"
  shows "(tc_started c' \<longrightarrow> tc_installed c') \<and> (st = CanOk \<longrightarrow> tc_started c')"
proof (cases "twai_initialize d config c w = (CanInvalidConfig, c, w)")
  case True
  then show ?thesis using assms by simp
next
  case False
  then obtain timing where t: "validConfig config" "timingForBitrate (hc_canBitrate config) = Some timing"
    by (auto simp: twai_initialize_def split: if_splits option.splits)
  show ?thesis
  proof (cases "tc_installed c \<or> tc_started c")
    case True
    obtain cl c1 w1 where s: "twai_stop d c w = (cl, c1, w1)" by (metis prod_cases3)
    show ?thesis
    proof (cases "cl = CanOk")
      case True
      then have "twai_install_and_start d config timing c1 w1 = (st, c', w')"
        using assms(1) t s \<open>tc_installed c \<or> tc_started c\<close> by (simp add: twai_initialize_def)
      from install_and_start_cases [OF this] twai_stop_cases [OF s] True assms(2)
        \<open>tc_installed c \<or> tc_started c\<close> show ?thesis by auto
    next
      case False
      then show ?thesis using assms t s \<open>tc_installed c \<or> tc_started c\<close> twai_stop_cases [OF s]
        by (auto simp: twai_initialize_def)
    qed
  next
    case False
    then have "twai_install_and_start d config timing c w = (st, c', w')"
      using assms(1) t by (simp add: twai_initialize_def)
    from install_and_start_cases [OF this] False show ?thesis by auto
  qed
qed

lemma twai_send_cases:
  assumes "twai_send d f c w = (st, c', w')"
  shows "tc_started c' = tc_started c \<and> tc_installed c' = tc_installed c \<and>
    (\<not> tc_started c \<longrightarrow> st = CanNotInitialized \<and> c' = c \<and> w' = w) \<and>
    (st = CanOk \<longrightarrow> CanFrame_isValid f \<and> (\<exists>v. tw_transmit d (message_of d f) v = (ESP_OK, w')))"
  using assms
  by (auto simp: twai_send_def send_result_def split: if_splits prod.splits dest!: alerts_same)

lemma twai_receive_cases:
  assumes "twai_receive d f c w = (st, f', c', w')"
  shows "tc_started c' = tc_started c \<and> tc_installed c' = tc_installed c \<and>
    (\<not> tc_started c \<longrightarrow> st = CanNotInitialized \<and> c' = c \<and> w' = w) \<and> (st \<noteq> CanOk \<longrightarrow> f' = f)"
  using assms
  by (auto simp: twai_receive_def split: if_splits prod.splits dest!: alerts_same)

interpretation twai: can_backend "twai_hal d" twai_inv twai_ready for d :: "'w twai"
proof unfold_locales
  fix x y :: "Esp32TwaiCan \<times> 'w" and config st f g
  obtain c w where x: "x = (c, w)" by fastforce
  obtain c' w' where y: "y = (c', w')" by fastforce
  show "hal_initialize (twai_hal d) config x = (st, y) \<Longrightarrow> twai_inv x \<Longrightarrow>
      twai_inv y \<and> (st = CanOk \<longrightarrow> twai_ready y)"
    using twai_initialize_ready [of d config c w st c' w'] x y
    by (simp add: twai_hal_def twai_inv_def twai_ready_def)
  show "hal_stop (twai_hal d) x = (st, y) \<Longrightarrow> twai_inv x \<Longrightarrow>
      twai_inv y \<and> (twai_ready y \<longrightarrow> twai_ready x) \<and> (st = CanOk \<longrightarrow> \<not> twai_ready y)"
    using twai_stop_cases [of d c w st c' w'] x y
    by (auto simp: twai_hal_def twai_inv_def twai_ready_def)
  show "hal_send (twai_hal d) f x = (st, y) \<Longrightarrow> twai_inv x \<Longrightarrow>
      twai_inv y \<and> (twai_ready y \<longleftrightarrow> twai_ready x) \<and>
      (\<not> twai_ready x \<longrightarrow> st = CanNotInitialized \<and> y = x) \<and> (st = CanOk \<longrightarrow> CanFrame_isValid f)"
    using twai_send_cases [of d f c w st c' w'] x y
    by (auto simp: twai_hal_def twai_inv_def twai_ready_def)
  show "hal_receive (twai_hal d) f x = (st, g, y) \<Longrightarrow> twai_inv x \<Longrightarrow>
      twai_inv y \<and> (twai_ready y \<longleftrightarrow> twai_ready x) \<and>
      (\<not> twai_ready x \<longrightarrow> st = CanNotInitialized \<and> y = x) \<and> (st \<noteq> CanOk \<longrightarrow> g = f)"
    using twai_receive_cases [of d f c w st g c' w'] x y
    by (auto simp: twai_hal_def twai_inv_def twai_ready_def)
qed

end
