(* ===== verification/Twai_Properties.thy ===== *)
theory Twai_Properties
  imports Can_Backend
begin

text \<open>
  The device's back end over every TWAI driver: its flags agree with the driver's installation in
  every run, only valid frames reach the driver, and an alert that one direction cannot report
  waits for the other.
\<close>

section \<open>The driver's installation\<close>

text \<open>
  What the code relies on: installing and uninstalling change the installation exactly when they
  succeed, and nothing else does.
\<close>

definition twai_contract :: "'w twai \<Rightarrow> ('w \<Rightarrow> bool) \<Rightarrow> bool" where
  "twai_contract d inst \<longleftrightarrow>
     (\<forall>g t f w. inst (snd (tw_install d g t f w)) = (inst w \<or> fst (tw_install d g t f w) = ESP_OK)) \<and>
     (\<forall>w. inst (snd (tw_uninstall d w)) = (inst w \<and> fst (tw_uninstall d w) \<noteq> ESP_OK)) \<and>
     (\<forall>w. inst (snd (tw_start d w)) = inst w) \<and> (\<forall>w. inst (snd (tw_stop d w)) = inst w) \<and>
     (\<forall>w. inst (snd (snd (tw_get_status_info d w))) = inst w) \<and>
     (\<forall>w. inst (snd (snd (tw_read_alerts d w))) = inst w) \<and>
     (\<forall>m w. inst (snd (tw_transmit d m w)) = inst w) \<and>
     (\<forall>w. inst (snd (snd (tw_receive d w))) = inst w) \<and> (\<forall>w. inst (snd (tw_millis d w)) = inst w)"

definition twai_tracks :: "('w \<Rightarrow> bool) \<Rightarrow> Esp32TwaiCan \<times> 'w \<Rightarrow> bool" where
  "twai_tracks inst x \<longleftrightarrow>
     tc_installed (fst x) = inst (snd x) \<and> (tc_started (fst x) \<longrightarrow> tc_installed (fst x))"

lemma stop_tracks:
  "twai_contract d inst \<Longrightarrow> twai_tracks inst (c, w) \<Longrightarrow> twai_tracks inst (snd (twai_stop d c w))"
  by (auto simp: twai_contract_def twai_stop_def twai_tracks_def case_prod_beta)

lemma install_tracks:
  "twai_contract d inst \<Longrightarrow> twai_tracks inst (c, w) \<Longrightarrow> \<not> tc_installed c \<Longrightarrow>
   twai_tracks inst (snd (twai_install_and_start d config timing c w))"
  by (auto simp: twai_contract_def twai_install_and_start_def twai_tracks_def case_prod_beta Let_def)

lemma initialize_tracks:
  assumes "twai_contract d inst" and "twai_tracks inst (c, w)"
  shows "twai_tracks inst (snd (twai_initialize d config c w))"
proof -
  obtain cl c1 w1 where s: "twai_stop d c w = (cl, c1, w1)" by (metis prod_cases3)
  have t: "twai_tracks inst (c1, w1)" using stop_tracks [OF assms] s by simp
  have "cl = CanOk \<Longrightarrow> \<not> tc_installed c1" using twai_stop_cases [OF s] by auto
  then show ?thesis using s assms(2) install_tracks [OF assms(1) t] install_tracks [OF assms] t
    by (simp add: twai_initialize_def split: option.split)
qed

text \<open>Sending and receiving only call functions that leave the installation alone.\<close>

lemma traffic_installed:
  assumes "twai_contract d inst"
  shows "inst (snd (captureAlerts d c w)) = inst w" and "inst (snd (driver_bus_off d w)) = inst w"
  using assms by (simp_all add: twai_contract_def captureAlerts_def driver_bus_off_def case_prod_beta)

lemma send_tracks:
  assumes "twai_contract d inst" and "twai_tracks inst (c, w)"
  shows "twai_tracks inst (snd (twai_send d f c w))"
proof -
  obtain st c' w' where s: "twai_send d f c w = (st, c', w')" by (metis prod_cases3)
  have "inst (snd (snd (twai_send d f c w))) = inst w"
    using assms(1) traffic_installed [OF assms(1)]
    by (simp add: twai_send_def case_prod_beta twai_contract_def)
  then show ?thesis using twai_send_cases [OF s] assms(2) s by (auto simp: twai_tracks_def)
qed

lemma receive_tracks:
  assumes "twai_contract d inst" and "twai_tracks inst (c, w)"
  shows "twai_tracks inst (snd (snd (twai_receive d f c w)))"
proof -
  obtain st f' c' w' where s: "twai_receive d f c w = (st, f', c', w')" by (metis prod_cases4)
  have "inst (snd (snd (snd (twai_receive d f c w)))) = inst w"
    using assms(1) traffic_installed [OF assms(1)]
    by (simp add: twai_receive_def case_prod_beta twai_contract_def)
  then show ?thesis using twai_receive_cases [OF s] assms(2) s by (auto simp: twai_tracks_def)
qed

lemma step_tracks:
  assumes "twai_contract d inst" and "twai_tracks inst x"
  shows "twai_tracks inst (fst (backend_step (twai_hal d) e (x, acc)))"
proof -
  obtain c w where x: "x = (c, w)" by fastforce
  show ?thesis using assms stop_tracks initialize_tracks send_tracks receive_tracks
    by (cases e) (simp_all add: x twai_hal_def case_prod_beta)
qed

lemma run_tracks:
  "twai_contract d inst \<Longrightarrow> twai_tracks inst x \<Longrightarrow>
   twai_tracks inst (fst (backend_run (twai_hal d) ops (x, acc)))"
proof (induction ops arbitrary: x acc)
  case (Cons e ops)
  obtain y acc' where s: "backend_step (twai_hal d) e (x, acc) = (y, acc')" by fastforce
  with Cons step_tracks [OF Cons.prems, of e acc] show ?case by (simp add: backend_run_def)
qed (simp add: backend_run_def)

section \<open>Alerts\<close>

text \<open>What the code relies on: the alerts are distinct flags.\<close>

definition rx_alerts :: "'w twai \<Rightarrow> u32" where
  "rx_alerts d = TWAI_ALERT_RX_QUEUE_FULL d OR TWAI_ALERT_RX_FIFO_OVERRUN d"

definition alerts_distinct :: "'w twai \<Rightarrow> bool" where
  "alerts_distinct d \<longleftrightarrow> rx_alerts d AND TWAI_ALERT_BUS_OFF d = 0 \<and>
     rx_alerts d AND TWAI_ALERT_TX_FAILED d = 0 \<and>
     TWAI_ALERT_TX_FAILED d AND TWAI_ALERT_BUS_OFF d = 0"

lemma clear_other: "m AND b = 0 \<Longrightarrow> (p AND NOT b) AND m = p AND m" for p m b :: u32
  by (simp add: bit_eq_iff bit_simps) blast

lemma keep_or: "p AND m \<noteq> 0 \<Longrightarrow> (p OR x) AND m \<noteq> 0" for p m x :: u32
  by (auto simp: bit_eq_iff bit_simps)

lemma captureAlerts_keeps:
  "tc_pendingAlerts c AND m \<noteq> 0 \<Longrightarrow> tc_pendingAlerts (fst (captureAlerts d c w)) AND m \<noteq> 0"
  by (simp add: captureAlerts_def case_prod_beta keep_or)

lemma send_keeps_rx:
  assumes "alerts_distinct d" and "tc_pendingAlerts c AND rx_alerts d \<noteq> 0"
  shows "tc_pendingAlerts (fst (snd (twai_send d f c w))) AND rx_alerts d \<noteq> 0"
proof -
  have "tc_pendingAlerts (snd (consumeSendAlert d (fst (captureAlerts d c w)))) AND rx_alerts d \<noteq> 0"
    using captureAlerts_keeps [OF assms(2), of d w] assms(1)
    by (auto simp: consumeSendAlert_def alerts_distinct_def clear_other)
  then show ?thesis using assms(2) by (simp add: twai_send_def case_prod_beta)
qed

lemma receive_keeps_tx:
  assumes "alerts_distinct d" and "tc_pendingAlerts c AND TWAI_ALERT_TX_FAILED d \<noteq> 0"
  shows "tc_pendingAlerts (fst (snd (snd (twai_receive d f c w)))) AND TWAI_ALERT_TX_FAILED d \<noteq> 0"
proof -
  have "TWAI_ALERT_TX_FAILED d AND rx_alerts d = 0"
    using assms(1) by (simp add: alerts_distinct_def and.commute)
  then have "tc_pendingAlerts (snd (consumeReceiveAlert d (fst (captureAlerts d c w)))) AND
      TWAI_ALERT_TX_FAILED d \<noteq> 0"
    using captureAlerts_keeps [OF assms(2), of d w] assms(1)
    by (auto simp: consumeReceiveAlert_def alerts_distinct_def clear_other Let_def rx_alerts_def [symmetric])
  then show ?thesis using assms(2) by (simp add: twai_receive_def case_prod_beta)
qed

lemma receive_reports_rx:
  assumes "tc_started c" and "tc_pendingAlerts c AND rx_alerts d \<noteq> 0"
  shows "fst (twai_receive d f c w) = CanRxOverflow"
  using assms captureAlerts_keeps [OF assms(2), of d w]
  by (simp add: twai_receive_def case_prod_beta consumeReceiveAlert_def Let_def rx_alerts_def [symmetric])

lemma send_reports_tx:
  assumes "tc_started c" and "CanFrame_isValid f" and "tc_pendingAlerts c AND TWAI_ALERT_TX_FAILED d \<noteq> 0"
  shows "fst (twai_send d f c w) \<in> {CanBusOff, CanTxFailed}"
  using assms captureAlerts_keeps [OF assms(3), of d w]
  by (simp add: twai_send_def case_prod_beta consumeSendAlert_def)

lemma sends_keep_rx:
  assumes "alerts_distinct d"
  shows "list_all (\<lambda>e. case e of OpSend f \<Rightarrow> True | _ \<Rightarrow> False) ops \<Longrightarrow> tc_started c \<Longrightarrow>
    tc_pendingAlerts c AND rx_alerts d \<noteq> 0 \<Longrightarrow>
    (case fst (backend_run (twai_hal d) ops ((c, w), acc)) of (c1, w1) \<Rightarrow>
       tc_started c1 \<and> tc_pendingAlerts c1 AND rx_alerts d \<noteq> 0)"
proof (induction ops arbitrary: c w acc)
  case (Cons e ops)
  then obtain f where e: "e = OpSend f" by (cases e) auto
  obtain st c' w' where s: "twai_send d f c w = (st, c', w')" by (metis prod_cases3)
  have "tc_started c'" "tc_pendingAlerts c' AND rx_alerts d \<noteq> 0"
    using twai_send_cases [OF s] send_keeps_rx [OF assms Cons.prems(3), of f w] s Cons.prems(2) by simp_all
  then show ?case using Cons.IH [of c' w'] Cons.prems(1) s
    by (simp add: e backend_run_def twai_hal_def)
qed (simp add: backend_run_def)

lemma receives_keep_tx:
  assumes "alerts_distinct d"
  shows "list_all (\<lambda>e. case e of OpReceive f \<Rightarrow> True | _ \<Rightarrow> False) ops \<Longrightarrow> tc_started c \<Longrightarrow>
    tc_pendingAlerts c AND TWAI_ALERT_TX_FAILED d \<noteq> 0 \<Longrightarrow>
    (case fst (backend_run (twai_hal d) ops ((c, w), acc)) of (c1, w1) \<Rightarrow>
       tc_started c1 \<and> tc_pendingAlerts c1 AND TWAI_ALERT_TX_FAILED d \<noteq> 0)"
proof (induction ops arbitrary: c w acc)
  case (Cons e ops)
  then obtain f where e: "e = OpReceive f" by (cases e) auto
  obtain st f' c' w' where s: "twai_receive d f c w = (st, f', c', w')" by (metis prod_cases4)
  have "tc_started c'" "tc_pendingAlerts c' AND TWAI_ALERT_TX_FAILED d \<noteq> 0"
    using twai_receive_cases [OF s] receive_keeps_tx [OF assms Cons.prems(3), of f w] s Cons.prems(2)
    by simp_all
  then show ?case using Cons.IH [of c' w'] Cons.prems(1) s
    by (simp add: e backend_run_def twai_hal_def)
qed (simp add: backend_run_def)

section \<open>Properties\<close>

text \<open>
  C17: the device's back end never loses track of the driver. In every run of initialisations,
  stops, sends and receives, whatever the driver answers, the object says ``installed'' exactly
  when the driver is installed, is started only if it is installed, and has handed only valid
  frames to the driver; so a failed stop or start can be repeated, and destroying the object
  uninstalls the driver unless the driver refuses.
\<close>

lemma twai_tracks_driver:
  assumes "twai_contract d inst" and "\<not> inst w"
  shows "case backend_run (twai_hal d) ops ((Esp32TwaiCan_init, w), []) of ((c, w'), accepted) \<Rightarrow>
    (tc_installed c \<longleftrightarrow> inst w') \<and> (tc_started c \<longrightarrow> tc_installed c) \<and>
    list_all CanFrame_isValid accepted \<and>
    (fst (twai_stop d c w') = CanOk \<longrightarrow> \<not> inst (twai_destroy d c w'))"
proof -
  obtain c w' accepted where
    r: "backend_run (twai_hal d) ops ((Esp32TwaiCan_init, w), []) = ((c, w'), accepted)"
    by (metis prod.collapse)
  have "twai_tracks inst (Esp32TwaiCan_init, w)"
    using assms(2) by (simp add: twai_tracks_def Esp32TwaiCan_init_def)
  from run_tracks [OF assms(1) this, of ops "[]"] have t: "twai_tracks inst (c, w')" by (simp add: r)
  have "twai_inv (Esp32TwaiCan_init, w)" by (simp add: twai_inv_def Esp32TwaiCan_init_def)
  then have valid: "list_all CanFrame_isValid accepted"
    using twai.run_accepted [of "(Esp32TwaiCan_init, w)" "[]" d ops] by (simp add: r)
  obtain st c1 w1 where s: "twai_stop d c w' = (st, c1, w1)" by (metis prod_cases3)
  have "twai_tracks inst (c1, w1)" using stop_tracks [OF assms(1) t] by (simp add: s)
  then have "st = CanOk \<Longrightarrow> \<not> inst w1" using twai_stop_cases [OF s] t by (auto simp: twai_tracks_def)
  then show ?thesis using t valid by (auto simp: r s twai_tracks_def twai_destroy_def)
qed

text \<open>A driver whose world is its installation, and that never has anything to say.\<close>

definition plain_driver :: "bool twai" where
  "plain_driver =
     \<lparr>tw_install = (\<lambda>g t f w. if w then (ESP_ERR_INVALID_STATE, w) else (ESP_OK, True)),
      tw_uninstall = (\<lambda>w. if w then (ESP_OK, False) else (ESP_ERR_INVALID_STATE, w)),
      tw_start = (\<lambda>w. (ESP_OK, w)), tw_stop = (\<lambda>w. (ESP_OK, w)),
      tw_get_status_info = (\<lambda>w. (ESP_OK, TWAI_STATE_RUNNING, w)),
      tw_read_alerts = (\<lambda>w. (ESP_ERR_TIMEOUT, 0, w)), tw_transmit = (\<lambda>m w. (ESP_OK, w)),
      tw_receive = (\<lambda>w. (ESP_ERR_TIMEOUT, \<lparr>tm_identifier = 0, tm_data_length_code = 0, tm_flags = 0,
         tm_data = []\<rparr>, w)),
      tw_millis = (\<lambda>w. (0, w)),
      TWAI_ALERT_RX_QUEUE_FULL = 1, TWAI_ALERT_RX_FIFO_OVERRUN = 2, TWAI_ALERT_BUS_OFF = 4,
      TWAI_ALERT_TX_FAILED = 8, TWAI_MSG_FLAG_NONE = 0, TWAI_MSG_FLAG_EXTD = 1, TWAI_MSG_FLAG_RTR = 2\<rparr>"

definition device_config :: HardwareConfig where
  "device_config = \<lparr>hc_canTxGpio = 5, hc_canRxGpio = 4, hc_canBitrate = 500000\<rparr>"

lemma plain_contract: "twai_contract plain_driver (\<lambda>w. w)"
  by (simp add: twai_contract_def plain_driver_def)

lemma twai_tracks_driver_witness:
  "backend_run (twai_hal plain_driver) [OpInitialize device_config, OpSend CanFrame_default]
     ((Esp32TwaiCan_init, False), []) =
     ((\<lparr>tc_installed = True, tc_started = True, tc_pendingAlerts = 0\<rparr>, True), [CanFrame_default]) \<and>
   CanFrame_isValid CanFrame_default"
proof -
  have run: "backend_run (twai_hal plain_driver) [OpInitialize device_config, OpSend CanFrame_default]
     ((Esp32TwaiCan_init, False), []) =
     ((\<lparr>tc_installed = True, tc_started = True, tc_pendingAlerts = 0\<rparr>, True), [CanFrame_default])"
    by code_simp
  show ?thesis
    using twai_tracks_driver [OF plain_contract, of False "[OpInitialize device_config, OpSend CanFrame_default]"]
    by (simp add: run)
qed

text \<open>
  C40: no alert is lost between the two directions. A reception alert that is pending stays pending
  over any number of sends and is reported by the next receive; a transmission failure that is
  pending stays pending over any number of receives, and the next send of a valid frame reports
  it (or a bus-off first) instead of transmitting.
\<close>

lemma twai_alert_persistent:
  assumes "alerts_distinct d" and "tc_started c"
  shows "(list_all (\<lambda>e. case e of OpSend g \<Rightarrow> True | _ \<Rightarrow> False) sends \<and>
      tc_pendingAlerts c AND rx_alerts d \<noteq> 0 \<longrightarrow>
      (case fst (backend_run (twai_hal d) sends ((c, w), [])) of (c1, w1) \<Rightarrow>
         fst (twai_receive d f c1 w1) = CanRxOverflow)) \<and>
    (list_all (\<lambda>e. case e of OpReceive g \<Rightarrow> True | _ \<Rightarrow> False) receives \<and>
      tc_pendingAlerts c AND TWAI_ALERT_TX_FAILED d \<noteq> 0 \<and> CanFrame_isValid f \<longrightarrow>
      (case fst (backend_run (twai_hal d) receives ((c, w), [])) of (c1, w1) \<Rightarrow>
         fst (twai_send d f c1 w1) \<in> {CanBusOff, CanTxFailed}))"
  using sends_keep_rx [OF assms(1) _ assms(2), of sends w "[]"]
    receives_keep_tx [OF assms(1) _ assms(2), of receives w "[]"]
    receive_reports_rx [of _ d f] send_reports_tx [of _ f d]
  by (auto simp: case_prod_beta)

lemma twai_alert_persistent_witness:
  "fst (twai_receive plain_driver CanFrame_default
     \<lparr>tc_installed = True, tc_started = True, tc_pendingAlerts = 10\<rparr> True) = CanRxOverflow \<and>
   fst (twai_send plain_driver CanFrame_default
     \<lparr>tc_installed = True, tc_started = True, tc_pendingAlerts = 10\<rparr> True) \<in> {CanBusOff, CanTxFailed}"
proof -
  have d: "alerts_distinct plain_driver" by code_simp
  have v: "CanFrame_isValid CanFrame_default" by code_simp
  show ?thesis
    using twai_alert_persistent [OF d, where c = "\<lparr>tc_installed = True, tc_started = True,
        tc_pendingAlerts = 10\<rparr>" and sends = "[]" and receives = "[]" and w = True
        and f = CanFrame_default] v
    by (simp add: backend_run_def rx_alerts_def plain_driver_def)
qed

end
