(* ===== verification/Decimal_Text.thy ===== *)
theory Decimal_Text
  imports Vehicle_Data
begin

text \<open>
  The decimal numbers \<open>std::to_chars\<close> writes for \<open>application/web_vehicle_data_response.h\<close>: unsigned
  integers, and a \<open>double\<close> in the general format with 17 significant digits - the shortest of the
  fixed and the scientific notation as \<open>%.17g\<close> chooses it, without trailing zeros. The value of a
  \<open>double\<close> is the exact fraction of its bit pattern; it is rounded to 17 digits, ties to even.
\<close>

section \<open>Integers\<close>

fun decimal :: "nat \<Rightarrow> bytes" where
  "decimal n = (if n < 10 then [of_nat (48 + n)] else decimal (n div 10) @ [of_nat (48 + n mod 10)])"

declare decimal.simps [simp del]

definition digit :: "u8 \<Rightarrow> bool" where
  "digit b \<longleftrightarrow> 48 \<le> b \<and> b \<le> 57"

lemma digit_of_nat: "n < 10 \<Longrightarrow> digit (of_nat (48 + n))"
  by (simp add: digit_def word_le_nat_alt unat_of_nat take_bit_eq_mod del: of_nat_add)

lemma decimal_digits: "list_all digit (decimal n)"
proof (induction n rule: decimal.induct)
  case (1 n)
  then show ?case using digit_of_nat [of n] digit_of_nat [of "n mod 10"]
    by (subst decimal.simps) (simp del: of_nat_add)
qed

lemma decimal_not_Nil [simp]: "decimal n \<noteq> []"
  by (subst decimal.simps) simp

lemma length_decimal_le: "n < 10 ^ k \<Longrightarrow> 0 < k \<Longrightarrow> length (decimal n) \<le> k"
proof (induction k arbitrary: n)
  case (Suc k)
  show ?case
  proof (cases "n < 10")
    case True
    then show ?thesis by (simp add: decimal.simps [of n])
  next
    case False
    then have "0 < k" using Suc.prems by (cases k) auto
    moreover have "n div 10 < 10 ^ k" using Suc.prems by (simp add: less_mult_imp_div_less)
    ultimately show ?thesis using Suc.IH [of "n div 10"] False by (simp add: decimal.simps [of n])
  qed
qed simp

lemma less_power_length_decimal: "n < 10 ^ length (decimal n)"
proof (induction n rule: decimal.induct)
  case (1 n)
  show ?case
  proof (cases "n < 10")
    case True
    then show ?thesis by (simp add: decimal.simps [of n])
  next
    case False
    have "n = n div 10 * 10 + n mod 10" by simp
    also have "\<dots> < 10 * 10 ^ length (decimal (n div 10))" using 1 [OF False] by linarith
    finally show ?thesis using False by (simp add: decimal.simps [of n])
  qed
qed

text \<open>No leading zero, except in \<open>0\<close> itself.\<close>

lemma decimal_zero: "decimal 0 = [48]"
  by (simp add: decimal.simps)

lemma decimal_first: "0 < n \<Longrightarrow> List.hd (decimal n) \<noteq> 48"
proof (induction n rule: decimal.induct)
  case (1 n)
  show ?case
  proof (cases "n < 10")
    case True
    then have "(of_nat (48 + n) :: u8) \<noteq> 48" using 1
      by (simp add: word_unat_eq_iff unat_of_nat take_bit_eq_mod del: of_nat_add)
    then show ?thesis using True by (simp add: decimal.simps [of n] del: of_nat_add)
  next
    case False
    then show ?thesis using 1 by (simp add: decimal.simps [of n])
  qed
qed

section \<open>Floating point\<close>

text \<open>The exact value of a finite \<open>double\<close>, without its sign, as a fraction.\<close>

definition double_ratio :: "double \<Rightarrow> nat \<times> nat" where
  "double_ratio d =
     (let e = unat (drop_bit 52 d AND 0x7FF);
          f = unat (d AND 0xFFFFFFFFFFFFF);
          m = (if e = 0 then f else 2 ^ 52 + f);
          e1 = max e 1
      in if 1075 \<le> e1 then (m * 2 ^ (e1 - 1075), 1) else (m, 2 ^ (1075 - e1)))"

definition round_half_even :: "nat \<Rightarrow> nat \<Rightarrow> nat" where
  "round_half_even num den =
     (let q = num div den; r = num mod den
      in if 2 * r < den then q else if den < 2 * r then q + 1 else if even q then q else q + 1)"

text \<open>The least power of ten that lifts a fraction to 1, up to a bound that covers every \<open>double\<close>.\<close>

primrec scale_up :: "nat \<Rightarrow> nat \<Rightarrow> nat \<Rightarrow> nat" where
  "scale_up 0 num den = 0"
| "scale_up (Suc n) num den = (if den \<le> num then 0 else Suc (scale_up n (num * 10) den))"

definition decimal_exponent :: "nat \<Rightarrow> nat \<Rightarrow> int" where
  "decimal_exponent num den =
     (if den \<le> num then int (length (decimal (num div den))) - 1 else - int (scale_up 400 num den))"

definition significand :: "nat \<Rightarrow> nat \<Rightarrow> int \<Rightarrow> nat" where
  "significand num den x =
     (if x \<le> 16 then round_half_even (num * 10 ^ nat (16 - x)) den
      else round_half_even num (den * 10 ^ nat (x - 16)))"

definition strip_zeros :: "bytes \<Rightarrow> bytes" where
  "strip_zeros ds = rev (dropWhile (\<lambda>b. b = 48) (rev ds))"

definition fraction :: "bytes \<Rightarrow> bytes" where
  "fraction ds = (if strip_zeros ds = [] then [] else 46 # strip_zeros ds)"

definition exponent_text :: "int \<Rightarrow> bytes" where
  "exponent_text x =
     [101, if x < 0 then 45 else 43] @
     (if nat \<bar>x\<bar> < 10 then [48] else []) @ decimal (nat \<bar>x\<bar>)"

definition general17 :: "nat \<Rightarrow> nat \<Rightarrow> bytes" where
  "general17 num den =
     (let x0 = decimal_exponent num den;
          n0 = significand num den x0;
          (n, x) = (if n0 = 10 ^ 17 then (10 ^ 16, x0 + 1) else (n0, x0));
          ds = decimal n
      in if 0 \<le> x \<and> x < 17 then take (nat x + 1) ds @ fraction (drop (nat x + 1) ds)
         else if - 4 \<le> x \<and> x < 0 then 48 # fraction (replicate (nat (- x) - 1) 48 @ ds)
         else take 1 ds @ fraction (drop 1 ds) @ exponent_text x)"

definition number_text :: "double \<Rightarrow> bytes" where
  "number_text d =
     (if bit d 63 then [45] else []) @
     (case double_ratio d of (num, den) \<Rightarrow> if num = 0 then [48] else general17 num den)"

lemma number_text_90_5: "number_text 0x4056A00000000000 = [57, 48, 46, 53]"
  by (simp add: number_text_def double_ratio_def general17_def decimal_exponent_def significand_def
      round_half_even_def fraction_def strip_zeros_def Let_def decimal.simps bit_iff_odd)

section \<open>Bounds\<close>

lemma round_half_even_le: "num < m * den \<Longrightarrow> round_half_even num den \<le> m"
proof -
  assume "num < m * den"
  then have "num div den < m" by (simp add: less_mult_imp_div_less)
  then show ?thesis by (simp add: round_half_even_def Let_def)
qed

lemma scale_up_le: "scale_up n num den \<le> n"
  by (induction n arbitrary: num) auto

lemma scale_up_below: "num < 10 * den \<Longrightarrow> num * 10 ^ scale_up n num den < 10 * den"
proof (induction n arbitrary: num)
  case (Suc n)
  then show ?case using Suc.IH [of "num * 10"] by (simp add: mult.assoc)
qed simp

lemma power_split: "a \<le> b \<Longrightarrow> (10 :: nat) ^ b = 10 ^ a * 10 ^ (b - a)"
  by (simp flip: power_add)

lemma significand_le:
  assumes "0 < den"
  shows "significand num den (decimal_exponent num den) \<le> 10 ^ 17"
proof (cases "den \<le> num")
  case True
  define k where "k = length (decimal (num div den)) - 1"
  have "length (decimal (num div den)) = Suc k" by (simp add: k_def)
  then have "num div den < 10 ^ Suc k" and x: "decimal_exponent num den = int k"
    using less_power_length_decimal [of "num div den"] True by (simp_all add: decimal_exponent_def)
  then have num: "num < 10 ^ Suc k * den" using assms by (simp only: div_less_iff_less_mult)
  show ?thesis
  proof (cases "k \<le> 16")
    case True
    have "num * 10 ^ (16 - k) < 10 ^ Suc k * den * 10 ^ (16 - k)"
      using num by (simp only: mult_less_mono1 zero_less_power zero_less_numeral)
    also have "\<dots> = 10 ^ 17 * den" using True power_split [of "Suc k" 17] by (simp add: ac_simps)
    finally have "round_half_even (num * 10 ^ (16 - k)) den \<le> 10 ^ 17" by (rule round_half_even_le)
    moreover have "nat (16 - int k) = 16 - k" by simp
    ultimately show ?thesis using True by (simp add: significand_def x)
  next
    case False
    have "num < 10 ^ 17 * (den * 10 ^ (k - 16))"
      using num False power_split [of 17 "Suc k"] by (simp add: ac_simps Suc_diff_le)
    then have "round_half_even num (den * 10 ^ (k - 16)) \<le> 10 ^ 17" by (rule round_half_even_le)
    moreover have "nat (int k - 16) = k - 16" by simp
    ultimately show ?thesis using False by (simp add: significand_def x)
  qed
next
  case False
  define j where "j = scale_up 400 num den"
  have "num * 10 ^ j < 10 * den" using scale_up_below [of num den 400] False by (simp add: j_def)
  then have "num * 10 ^ j * 10 ^ 16 < 10 * den * 10 ^ 16" by (simp only: mult_less_mono1 zero_less_power zero_less_numeral)
  then have "num * 10 ^ (16 + j) < 10 ^ 17 * den" by (simp add: power_add ac_simps)
  then have "round_half_even (num * 10 ^ (16 + j)) den \<le> 10 ^ 17" by (rule round_half_even_le)
  moreover have "nat (16 - - int j) = 16 + j" by simp
  ultimately show ?thesis using False by (simp add: significand_def decimal_exponent_def j_def [symmetric])
qed

lemma double_ratio_bounds:
  assumes "double_ratio d = (num, den)"
  shows "0 < den" and "num < 10 ^ 309"
proof -
  define f where "f = unat (d AND 0xFFFFFFFFFFFFF)"
  define e where "e = unat (drop_bit 52 d AND 0x7FF)"
  define m where "m = (if e = 0 then f else 2 ^ 52 + f)"
  have ratio: "double_ratio d =
      (if 1075 \<le> max e 1 then (m * 2 ^ (max e 1 - 1075), 1) else (m, 2 ^ (1075 - max e 1)))"
    by (simp only: double_ratio_def Let_def e_def f_def m_def)
  then show "0 < den" using assms by (simp split: if_splits)
  have e: "max e 1 - 1075 \<le> 972"
    using word_and_le1 [of "drop_bit 52 d" "0x7FF :: u64"] by (simp add: word_le_nat_alt e_def)
  have "f \<le> 0xFFFFFFFFFFFFF"
    using word_and_le1 [of d "0xFFFFFFFFFFFFF :: u64"] by (simp add: word_le_nat_alt f_def)
  then have m: "m \<le> 2 ^ 53" by (simp add: m_def)
  have "num \<le> m * 2 ^ (max e 1 - 1075)"
    using ratio assms by (simp split: if_splits)
  also have "\<dots> \<le> m * 2 ^ 972" using e by (intro mult_le_mono2 power_increasing) simp_all
  also have "\<dots> \<le> 2 ^ 53 * 2 ^ 972" using m by (rule mult_le_mono1)
  also have "\<dots> < (10 :: nat) ^ 309" by simp
  finally show "num < 10 ^ 309" .
qed

lemma decimal_exponent_bounds:
  assumes "num < 10 ^ 309"
  shows "decimal_exponent num den \<le> 308" and "- 400 \<le> decimal_exponent num den"
proof -
  have "num div den < 10 ^ 309" using assms div_le_dividend [of num den] by linarith
  then have "length (decimal (num div den)) \<le> 309" by (rule length_decimal_le) simp
  then show "decimal_exponent num den \<le> 308" by (simp add: decimal_exponent_def)
  show "- 400 \<le> decimal_exponent num den"
    using scale_up_le [of 400 num den] by (simp add: decimal_exponent_def)
qed

lemma strip_zeros_facts: "length (strip_zeros ds) \<le> length ds" "list_all digit ds \<Longrightarrow> list_all digit (strip_zeros ds)"
  using length_dropWhile_le [of "\<lambda>b. b = 48" "rev ds"]
  by (auto simp: strip_zeros_def list_all_iff dest: set_dropWhileD)

lemma fraction_length: "length (fraction ds) \<le> Suc (length ds)"
  using strip_zeros_facts(1) [of ds] by (simp add: fraction_def)

lemma exponent_length: "\<bar>x\<bar> < 1000 \<Longrightarrow> length (exponent_text x) \<le> 5"
proof -
  assume x: "\<bar>x\<bar> < 1000"
  show ?thesis
  proof (cases "nat \<bar>x\<bar> < 10")
    case True
    then have "length (decimal (nat \<bar>x\<bar>)) \<le> 1" by (intro length_decimal_le) simp_all
    then show ?thesis by (simp add: exponent_text_def)
  next
    case False
    have "length (decimal (nat \<bar>x\<bar>)) \<le> 3" using x by (intro length_decimal_le) simp_all
    then show ?thesis using False by (simp add: exponent_text_def)
  qed
qed

text \<open>The rounded digits and the exponent that goes with them.\<close>

definition rounded :: "nat \<Rightarrow> nat \<Rightarrow> nat \<times> int" where
  "rounded num den =
     (let x0 = decimal_exponent num den; n0 = significand num den x0
      in if n0 = 10 ^ 17 then (10 ^ 16, x0 + 1) else (n0, x0))"

lemma general17_rounded:
  "general17 num den =
     (case rounded num den of (n, x) \<Rightarrow>
        let ds = decimal n
        in if 0 \<le> x \<and> x < 17 then take (nat x + 1) ds @ fraction (drop (nat x + 1) ds)
           else if - 4 \<le> x \<and> x < 0 then 48 # fraction (replicate (nat (- x) - 1) 48 @ ds)
           else take 1 ds @ fraction (drop 1 ds) @ exponent_text x)"
  by (simp only: general17_def rounded_def Let_def)

lemma rounded_bounds:
  assumes "rounded num den = (n, x)" and "0 < den" and "num < 10 ^ 309"
  shows "n < 10 ^ 17" and "\<bar>x\<bar> < 1000"
proof -
  have "significand num den (decimal_exponent num den) \<le> 10 ^ 17" by (rule significand_le [OF assms(2)])
  then show "n < 10 ^ 17" using assms(1) by (auto simp: rounded_def Let_def split: if_splits)
  show "\<bar>x\<bar> < 1000" using assms(1) decimal_exponent_bounds [OF assms(3), of den]
    by (auto simp: rounded_def Let_def split: if_splits)
qed

lemma length_general17:
  assumes "0 < den" and "num < 10 ^ 309"
  shows "length (general17 num den) \<le> 23"
proof -
  obtain n x where r: "rounded num den = (n, x)" by fastforce
  note b = rounded_bounds [OF r assms]
  have ds: "length (decimal n) \<le> 17" using b(1) by (intro length_decimal_le) simp_all
  have split: "length (take k (decimal n) @ fraction (drop k (decimal n))) \<le> 18" for k
    using ds fraction_length [of "drop k (decimal n)"] by simp
  consider "0 \<le> x" "x < 17" | "- 4 \<le> x" "x < 0" | "\<not> (0 \<le> x \<and> x < 17)" "\<not> (- 4 \<le> x \<and> x < 0)"
    by linarith
  then show ?thesis
  proof cases
    case 1
    then show ?thesis using split [of "nat x + 1"] by (simp add: general17_rounded r Let_def)
  next
    case 2
    then show ?thesis using ds fraction_length [of "replicate (nat (- x) - 1) 48 @ decimal n"]
      by (simp add: general17_rounded r Let_def)
  next
    case 3
    then show ?thesis using split [of 1] exponent_length [OF b(2)]
      by (auto simp: general17_rounded r Let_def)
  qed
qed

text \<open>So the buffer of 32 characters always suffices, as does the one of 20 for an integer.\<close>

lemma length_number_text: "length (number_text d) \<le> 24"
proof -
  obtain num den where r: "double_ratio d = (num, den)" by fastforce
  show ?thesis using length_general17 [OF double_ratio_bounds [OF r]]
    by (simp add: number_text_def r)
qed

lemma length_decimal_u64: "length (decimal (unat (v :: u64))) \<le> 20"
proof -
  have "unat v < 2 ^ 64" using unsigned_less [of v] by simp
  also have "\<dots> < 10 ^ 20" by simp
  finally show ?thesis by (rule length_decimal_le) simp
qed

end
