(* ===== verification/Web_Response.thy ===== *)
theory Web_Response
  imports Read_Model Decimal_Text Bounded_Writer
begin

text \<open>
  The JSON response of the web interface (\<open>application/web_vehicle_data_response.h\<close>): the operations
  of \<open>JsonWriter\<close>, the names of the enumerations, the validation of the input, the response in the
  order of the source, and the serialiser with its sizing pass. A \<open>const char *\<close> is the memory it
  points to, up to a NUL at least; the null pointer is \<open>None\<close>. Characters are bytes.
\<close>

datatype WebResponseSerializationStatus =
    WebResponse_Serialized
  | WebResponse_InsufficientCapacity
  | WebResponse_InvalidInput

record WebResponseSerializationResult =
  wr_status :: WebResponseSerializationStatus
  wr_requiredCapacity :: nat

section \<open>The writer\<close>

text \<open>Subtraction of \<open>size_t\<close> values, which wraps below zero.\<close>

definition size_sub :: "nat \<Rightarrow> nat \<Rightarrow> nat" where
  "size_sub a b = (if b \<le> a then a - b else size_max + 1 - (b - a))"

definition json_append :: "bytes \<Rightarrow> writing" where
  "json_append bs w =
     (if size_max - bw_size w < length bs then (False, w)
      else if bw_output w \<noteq> None \<and> size_sub (bw_capacity w) (bw_size w) < length bs then (False, w)
      else (True, w\<lparr>bw_output := map_option (\<lambda>out. blit out (bw_size w) bs) (bw_output w),
                    bw_size := bw_size w + length bs\<rparr>))"

definition appendLiteral :: "bytes \<Rightarrow> writing" where
  "appendLiteral mem = json_append (c_string mem)"

text \<open>The characters of a literal; a tilde stands for the escaped quotation mark of the source.\<close>

definition lit_chars :: "string \<Rightarrow> bytes" where
  "lit_chars s = map (\<lambda>b. if b = 126 then 34 else b) (ascii s)"

definition lit :: "string \<Rightarrow> writing" where
  "lit s = appendLiteral (lit_chars s @ [0])"

definition kHex :: bytes where
  "kHex = ascii ''0123456789abcdef''"

text \<open>One turn of the loop: the escapes for the quotation mark, the backslash and \<open>\b \f \n \r \t\<close>.\<close>

definition appendEscaped :: "u8 \<Rightarrow> writing" where
  "appendEscaped c =
     (if c = 34 then appendLiteral [92, 34, 0]
      else if c = 92 then appendLiteral [92, 92, 0]
      else if c = 8 then appendLiteral [92, 98, 0]
      else if c = 12 then appendLiteral [92, 102, 0]
      else if c = 10 then appendLiteral [92, 110, 0]
      else if c = 13 then appendLiteral [92, 114, 0]
      else if c = 9 then appendLiteral [92, 116, 0]
      else if c < 0x20
      then json_append [92, 117, 48, 48, kHex ! unat (drop_bit 4 c), kHex ! unat (c AND 0x0F)]
      else json_append [c])"

definition appendQuoted :: "bytes \<Rightarrow> writing" where
  "appendQuoted mem =
     run_all ([appendLiteral [34, 0]] @ map appendEscaped (c_string mem) @ [appendLiteral [34, 0]])"

definition appendUnsigned :: "u64 \<Rightarrow> writing" where
  "appendUnsigned v w =
     (if length (decimal (unat v)) \<le> 20 then json_append (decimal (unat v)) w else (False, w))"

definition appendNumber :: "double \<Rightarrow> writing" where
  "appendNumber v w =
     (if \<not> isfinite v then (False, w)
      else if length (number_text v) \<le> 32 then json_append (number_text v) w else (False, w))"

section \<open>Names\<close>

primrec selectionStateName :: "ProfileSelectionState \<Rightarrow> bytes option" where
  "selectionStateName Selection_Unknown = c_literal ''unknown''"
| "selectionStateName Selection_Ambiguous = c_literal ''ambiguous''"
| "selectionStateName Selection_ManualSelectionRequired = c_literal ''manual_selection_required''"
| "selectionStateName Selection_Selected = c_literal ''selected''"
| "selectionStateName (Selection_Other b) = None"

primrec valueTypeName :: "VehicleValueType \<Rightarrow> bytes option" where
  "valueTypeName ValueType_None = c_literal ''none''"
| "valueTypeName ValueType_Numeric = c_literal ''numeric''"
| "valueTypeName ValueType_Boolean = c_literal ''boolean''"
| "valueTypeName ValueType_Text = c_literal ''text''"
| "valueTypeName (ValueType_Other b) = None"

primrec supportName :: "CapabilitySupport \<Rightarrow> bytes option" where
  "supportName Support_Supported = c_literal ''supported''"
| "supportName Support_Unsupported = c_literal ''unsupported''"
| "supportName Support_Pending = c_literal ''pending''"
| "supportName Support_Unknown = c_literal ''unknown''"
| "supportName (Support_Other b) = None"

primrec availabilityName :: "VehicleAvailability \<Rightarrow> bytes option" where
  "availabilityName Availability_Available = c_literal ''available''"
| "availabilityName Availability_Unsupported = c_literal ''unsupported''"
| "availabilityName Availability_Unavailable = c_literal ''unavailable''"
| "availabilityName Availability_Pending = c_literal ''pending''"
| "availabilityName Availability_Unknown = c_literal ''unknown''"
| "availabilityName (Availability_Other b) = None"

primrec qualityName :: "VehicleQuality \<Rightarrow> bytes option" where
  "qualityName Quality_ValidCurrent = c_literal ''valid_current''"
| "qualityName Quality_Stale = c_literal ''stale''"
| "qualityName Quality_InvalidOrUnknown = c_literal ''invalid_or_unknown''"
| "qualityName (Quality_Other b) = None"

primrec sourceName :: "VehicleSource \<Rightarrow> bytes option" where
  "sourceName Source_Obd = c_literal ''obd''"
| "sourceName Source_Uds = c_literal ''uds''"
| "sourceName Source_PassiveCan = c_literal ''passive_can''"
| "sourceName Source_Derived = c_literal ''derived''"
| "sourceName Source_Unknown = c_literal ''unknown''"
| "sourceName (Source_Other b) = None"

text \<open>
  \<open>appendQuoted\<close> of a name. It is undefined for the null pointer, which the validation excludes
  before anything is written; here that case fails.
\<close>

definition appendName :: "bytes option \<Rightarrow> writing" where
  "appendName name = (case name of None \<Rightarrow> \<lambda>w. (False, w) | Some mem \<Rightarrow> appendQuoted mem)"

section \<open>Validation\<close>

definition validateCapability :: "NormalizedSignalDescriptor \<Rightarrow> bool" where
  "validateCapability c \<longleftrightarrow>
     \<not> (valueTypeName (nsd_expectedValueType c) = None \<or> supportName (nsd_support c) = None)"

definition validateSample :: "NormalizedVehicleSample \<Rightarrow> bool" where
  "validateSample s \<longleftrightarrow>
     \<not> (availabilityName (smp_availability s) = None \<or> qualityName (smp_quality s) = None \<or>
        sourceName (smp_source s) = None \<or> valueTypeName (smp_valueType s) = None) \<and>
     \<not> (hasValue s \<and> smp_valueType s = ValueType_Numeric \<and> \<not> isfinite (nv_numeric (smp_value s)))"

definition validateInput ::
  "VehicleDataReadSnapshot \<Rightarrow> NormalizedSignalDescriptor list option \<Rightarrow>
   NormalizedVehicleSample list option \<Rightarrow> bool" where
  "validateInput metadata capabilities samples \<longleftrightarrow>
     (if selectionStateName (rs_selectionState metadata) = None \<or>
         (rs_selectionState metadata = Selection_Selected) \<noteq> (rs_activeIdentity metadata \<noteq> None) \<or>
         \<not> rs_hasCapabilityRegistry metadata \<and> rs_capabilityCount metadata \<noteq> 0 \<or>
         rs_capabilityCount metadata \<noteq> 0 \<and> capabilities = None \<or>
         rs_sampleCount metadata \<noteq> 0 \<and> samples = None
      then False
      else list_all (\<lambda>index. validateCapability (the capabilities ! index)) [0 ..< rs_capabilityCount metadata] \<and>
           list_all (\<lambda>index. validateSample (the samples ! index)) [0 ..< rs_sampleCount metadata])"

section \<open>The response\<close>

definition web_capability :: "NormalizedSignalDescriptor \<Rightarrow> writing" where
  "web_capability c = run_all
     [lit ''{~signalId~:'', appendQuoted (bt_data (nsd_identity c)),
      lit '',~valueType~:'', appendName (valueTypeName (nsd_expectedValueType c)),
      lit '',~unit~:'', appendQuoted (bt_data (nsd_unit c)),
      lit '',~support~:'', appendName (supportName (nsd_support c)),
      lit ''}'']"

definition web_value :: "NormalizedVehicleSample \<Rightarrow> writing list" where
  "web_value s =
     (if hasValue s
      then [lit '',~valueType~:'', appendName (valueTypeName (smp_valueType s)), lit '',~value~:''] @
        (case smp_valueType s of
           ValueType_Numeric \<Rightarrow> [appendNumber (nv_numeric (smp_value s))]
         | ValueType_Boolean \<Rightarrow> [lit (if nv_boolean (smp_value s) then ''true'' else ''false'')]
         | ValueType_Text \<Rightarrow> [appendQuoted (bt_data (nv_text (smp_value s)))]
         | ValueType_None \<Rightarrow> [\<lambda>w. (False, w)]
         | ValueType_Other _ \<Rightarrow> [])
      else [])"

definition web_sample :: "NormalizedVehicleSample \<Rightarrow> writing" where
  "web_sample s = run_all
     ([lit ''{~signalId~:'', appendQuoted (bt_data (smp_signalId s)),
       lit '',~unit~:'', appendQuoted (bt_data (smp_unit s))] @
      web_value s @
      [lit '',~source~:'', appendName (sourceName (smp_source s)),
       lit '',~quality~:'', appendName (qualityName (smp_quality s)),
       lit '',~availability~:'', appendName (availabilityName (smp_availability s)),
       lit '',~timestampMs~:~'', appendUnsigned (smp_timestampMs s),
       lit ''~}''])"

text \<open>The loops over the first \<open>count\<close> elements of an array, with a comma before all but the first.\<close>

definition web_loop :: "('a \<Rightarrow> writing) \<Rightarrow> 'a list \<Rightarrow> nat \<Rightarrow> writing list" where
  "web_loop write elements count =
     concat (map (\<lambda>index. (if index \<noteq> 0 then [lit '',''] else []) @ [write (elements ! index)]) [0 ..< count])"

definition writeResponse ::
  "VehicleDataReadSnapshot \<Rightarrow> NormalizedSignalDescriptor list option \<Rightarrow>
   NormalizedVehicleSample list option \<Rightarrow> writing" where
  "writeResponse metadata capabilities samples = run_all
     ([lit ''{~profileSelection~:'', appendName (selectionStateName (rs_selectionState metadata))] @
      (case rs_activeIdentity metadata of
         None \<Rightarrow> []
       | Some identity \<Rightarrow> [lit '',~activeProfileId~:'', appendUnsigned (ucast (pi_value identity))]) @
      [lit '',~capabilities~:''] @
      (if \<not> rs_hasCapabilityRegistry metadata then [lit ''null'']
       else [lit ''[''] @ web_loop web_capability (the capabilities) (rs_capabilityCount metadata) @ [lit '']'']) @
      [lit '',~samples~:[''] @
      web_loop web_sample (the samples) (rs_sampleCount metadata) @
      [lit '']}''])"

text \<open>The result and the caller's buffer after the call.\<close>

definition serializeWebVehicleDataResponse ::
  "VehicleDataReadSnapshot \<Rightarrow> NormalizedSignalDescriptor list option \<Rightarrow>
   NormalizedVehicleSample list option \<Rightarrow> bytes option \<Rightarrow> nat \<Rightarrow>
   WebResponseSerializationResult \<times> bytes option" where
  "serializeWebVehicleDataResponse metadata capabilities samples output outputCapacity =
     (if \<not> validateInput metadata capabilities samples
      then (\<lparr>wr_status = WebResponse_InvalidInput, wr_requiredCapacity = 0\<rparr>, output)
      else
        (case writeResponse metadata capabilities samples (BoundedWriter_make None 0) of
           (sized, sizing) \<Rightarrow>
             if \<not> sized \<or> bw_size sizing = size_max
             then (\<lparr>wr_status = WebResponse_InvalidInput, wr_requiredCapacity = 0\<rparr>, output)
             else
               (let required = bw_size sizing + 1
                in if outputCapacity < required
                   then (\<lparr>wr_status = WebResponse_InsufficientCapacity, wr_requiredCapacity = required\<rparr>, output)
                   else if output = None
                   then (\<lparr>wr_status = WebResponse_InvalidInput, wr_requiredCapacity = required\<rparr>, output)
                   else
                     (case writeResponse metadata capabilities samples
                         (BoundedWriter_make output outputCapacity) of
                        (written, writer) \<Rightarrow>
                          if \<not> written \<or> bw_size writer \<noteq> bw_size sizing
                          then (\<lparr>wr_status = WebResponse_InvalidInput, wr_requiredCapacity = required\<rparr>,
                                bw_output writer)
                          else (\<lparr>wr_status = WebResponse_Serialized, wr_requiredCapacity = required\<rparr>,
                                map_option (\<lambda>out. out[bw_size writer := 0]) (bw_output writer))))))"

end
