(* ===== verification/Json.thy ===== *)
theory Json
  imports Decimal_Text
begin

text \<open>
  JSON as an abstract specification for \<open>application/web_vehicle_data_response.h\<close>: documents, their
  text without white space, and a reader that accepts such text (the grammar of RFC 8259, with
  \<open>\u00xx\<close> escapes of ASCII only). Reading the text of a document gives the document back, so
  whatever is shown to be such a text is well-formed and loses nothing. Strings are byte strings;
  the token of a number is kept.
\<close>

datatype json =
    JNull
  | JBool bool
  | JNumber bytes
  | JString bytes
  | JArray "json list"
  | JObject "(bytes \<times> json) list"

section \<open>Strings\<close>

definition hex_digits :: bytes where
  "hex_digits = [48, 49, 50, 51, 52, 53, 54, 55, 56, 57, 97, 98, 99, 100, 101, 102]"

definition escape :: "u8 \<Rightarrow> bytes" where
  "escape b =
     (if b = 34 then [92, 34] else if b = 92 then [92, 92] else if b = 8 then [92, 98]
      else if b = 12 then [92, 102] else if b = 10 then [92, 110] else if b = 13 then [92, 114]
      else if b = 9 then [92, 116]
      else if b < 0x20
      then [92, 117, 48, 48, hex_digits ! unat (drop_bit 4 b), hex_digits ! unat (b AND 15)]
      else [b])"

definition quoted :: "bytes \<Rightarrow> bytes" where
  "quoted s = 34 # concat (map escape s) @ [34]"

definition unhex :: "u8 \<Rightarrow> u8 option" where
  "unhex b = (if digit b then Some (b - 48) else if 97 \<le> b \<and> b \<le> 102 then Some (b - 87) else None)"

definition unescape :: "u8 \<Rightarrow> u8 option" where
  "unescape e =
     (if e = 34 \<or> e = 92 \<or> e = 47 then Some e else if e = 98 then Some 8 else if e = 102 then Some 12
      else if e = 110 then Some 10 else if e = 114 then Some 13 else if e = 116 then Some 9 else None)"

definition cons_char :: "u8 \<Rightarrow> (bytes \<times> bytes) option \<Rightarrow> (bytes \<times> bytes) option" where
  "cons_char b = map_option (\<lambda>(s, r). (b # s, r))"

text \<open>The characters after the opening quotation mark, and what follows the closing one.\<close>

fun read_chars :: "bytes \<Rightarrow> (bytes \<times> bytes) option" where
  "read_chars [] = None"
| "read_chars (b # r) =
     (if b = 34 then Some ([], r)
      else if b = 92 then
        (case r of
           e # h1 # h2 # h3 # h4 # r2 \<Rightarrow>
             (if e = 117
              then (case (unhex h3, unhex h4) of
                      (Some x, Some y) \<Rightarrow>
                        if h1 = 48 \<and> h2 = 48 \<and> x < 8 then cons_char (x * 16 + y) (read_chars r2) else None
                    | _ \<Rightarrow> None)
              else (case unescape e of None \<Rightarrow> None | Some c \<Rightarrow> cons_char c (read_chars (h1 # h2 # h3 # h4 # r2))))
         | e # r1 \<Rightarrow> (case unescape e of None \<Rightarrow> None | Some c \<Rightarrow> cons_char c (read_chars r1))
         | [] \<Rightarrow> None)
      else if b < 0x20 then None
      else cons_char b (read_chars r))"

lemma cons_char_Some [simp]: "cons_char b (Some (s, r)) = Some (b # s, r)"
  by (simp add: cons_char_def)

lemma read_unescape: "e \<noteq> 117 \<Longrightarrow> unescape e = Some c \<Longrightarrow> read_chars (92 # e # r) = cons_char c (read_chars r)"
  by (cases r; cases "List.tl r"; cases "List.tl (List.tl r)"; cases "List.tl (List.tl (List.tl r))") auto

lemma below_32: "b < 32 \<Longrightarrow> b \<in> set (map of_nat [0 ..< 32])" for b :: u8
proof -
  assume "b < 32"
  then have "unat b < 32" by (simp add: word_less_nat_alt)
  moreover have "b = of_nat (unat b)" by simp
  ultimately show ?thesis unfolding set_map set_upt by (metis atLeastLessThan_iff image_eqI le0)
qed

lemma read_hex:
  assumes "b < 32"
  shows "read_chars ([92, 117, 48, 48, hex_digits ! unat (drop_bit 4 b), hex_digits ! unat (b AND 15)] @ r) =
    cons_char b (read_chars r)"
proof -
  have "list_all (\<lambda>b. case (unhex (hex_digits ! unat (drop_bit 4 b)), unhex (hex_digits ! unat (b AND 15))) of
      (Some x, Some y) \<Rightarrow> x < 8 \<and> x * 16 + y = b | _ \<Rightarrow> False) (map of_nat [0 ..< 32])"
    by code_simp
  then have "case (unhex (hex_digits ! unat (drop_bit 4 b)), unhex (hex_digits ! unat (b AND 15))) of
      (Some x, Some y) \<Rightarrow> x < 8 \<and> x * 16 + y = b | _ \<Rightarrow> False"
    using below_32 [OF assms] by (simp only: list_all_iff)
  then show ?thesis by (auto split: option.splits)
qed

lemma read_escape: "read_chars (escape b @ r) = cons_char b (read_chars r)"
proof (cases "b < 32 \<and> b \<notin> {8, 9, 10, 12, 13}")
  case True
  then have "escape b = [92, 117, 48, 48, hex_digits ! unat (drop_bit 4 b), hex_digits ! unat (b AND 15)]"
    by (auto simp: escape_def)
  then show ?thesis using True read_hex by (simp only:)
next
  case False
  then consider "b \<in> {34, 92, 8, 12, 10, 13, 9}" | "b \<notin> {34, 92, 8, 12, 10, 13, 9}" "\<not> b < 32" by auto
  then show ?thesis
  proof cases
    case 1
    then obtain e where "escape b = [92, e]" "e \<noteq> 117" "unescape e = Some b"
      by (auto simp: escape_def unescape_def)
    then show ?thesis using read_unescape by simp
  next
    case 2
    then show ?thesis by (simp add: escape_def)
  qed
qed

lemma read_quoted: "read_chars (concat (map escape s) @ 34 # r) = Some (s, r)"
  by (induction s) (simp_all only: list.map concat.simps append_assoc read_escape append_Nil cons_char_Some,
    simp)

section \<open>Numbers\<close>

definition number_char :: "u8 \<Rightarrow> bool" where
  "number_char b \<longleftrightarrow> digit b \<or> b = 43 \<or> b = 45 \<or> b = 46 \<or> b = 101"

text \<open>Optional minus, an integer without leading zeros, an optional fraction, an optional exponent.\<close>

definition json_exponent :: "bytes \<Rightarrow> bool" where
  "json_exponent r \<longleftrightarrow> r = [] \<or>
     (List.hd r = 101 \<and>
      (let r1 = List.tl r; r2 = (if r1 \<noteq> [] \<and> (List.hd r1 = 43 \<or> List.hd r1 = 45) then List.tl r1 else r1)
       in r2 \<noteq> [] \<and> list_all digit r2))"

definition json_number :: "bytes \<Rightarrow> bool" where
  "json_number t \<longleftrightarrow>
     (let t1 = (if t \<noteq> [] \<and> List.hd t = 45 then List.tl t else t);
          ip = takeWhile digit t1; r = dropWhile digit t1
      in ip \<noteq> [] \<and> (ip = [48] \<or> List.hd ip \<noteq> 48) \<and>
         (if r \<noteq> [] \<and> List.hd r = 46
          then takeWhile digit (List.tl r) \<noteq> [] \<and> json_exponent (dropWhile digit (List.tl r))
          else json_exponent r))"

lemma digit_codes: "digit 48" "\<not> digit 45" "\<not> digit 46" "\<not> digit 101" "\<not> digit 43"
  by (simp_all add: digit_def)

lemma span_digits:
  assumes "list_all digit a" and "b = [] \<or> \<not> digit (List.hd b)"
  shows "takeWhile digit (a @ b) = a" "dropWhile digit (a @ b) = b"
  using assms by (cases b; simp add: list_all_iff takeWhile_append dropWhile_append3)+

lemma json_number_parts:
  assumes ip: "list_all digit ip" "ip \<noteq> []" "ip = [48] \<or> List.hd ip \<noteq> 48"
    and fd: "list_all digit fd"
    and ex: "ex = [] \<or> (\<exists>sg ed. ex = 101 # sg # ed \<and> (sg = 43 \<or> sg = 45) \<and> ed \<noteq> [] \<and> list_all digit ed)"
    and t: "t = ip @ (if fd = [] then [] else 46 # fd) @ ex"
  shows "json_number t" and "json_number (45 # t)"
proof -
  have e: "json_exponent ex" using ex by (auto simp: json_exponent_def)
  have ex0: "ex = [] \<or> \<not> digit (List.hd ex)" using ex digit_codes by auto
  define r where "r = (if fd = [] then [] else 46 # fd) @ ex"
  have "r = [] \<or> \<not> digit (List.hd r)" using ex0 digit_codes by (auto simp: r_def)
  note ip1 = span_digits [OF ip(1) this]
  have t': "t = ip @ r" by (simp add: t r_def)
  have nd: "List.hd t \<noteq> 45" using ip t digit_codes(2) by (cases ip) auto
  have "if r \<noteq> [] \<and> List.hd r = 46
      then takeWhile digit (List.tl r) \<noteq> [] \<and> json_exponent (dropWhile digit (List.tl r))
      else json_exponent r"
  proof (cases "fd = []")
    case True
    then show ?thesis using e ex by (auto simp: r_def)
  next
    case False
    then show ?thesis using e span_digits [OF fd ex0] by (simp add: r_def)
  qed
  moreover have "(if t \<noteq> [] \<and> List.hd t = 45 then List.tl t else t) = ip @ r" using nd by (simp add: t')
  moreover have "(if 45 # t \<noteq> [] \<and> List.hd (45 # t) = 45 then List.tl (45 # t) else 45 # t) = ip @ r"
    by (simp add: t')
  ultimately show "json_number t" "json_number (45 # t)"
    using ip ip1 by (simp_all only: json_number_def Let_def simp_thms)
qed

text \<open>The numbers of the program.\<close>

lemma decimal_leading: "decimal n = [48] \<or> List.hd (decimal n) \<noteq> 48"
  using decimal_first [of n] decimal_zero by (cases "n = 0") auto

lemma take_leading:
  "0 < k \<Longrightarrow> take k (decimal n) = [48] \<or> List.hd (take k (decimal n)) \<noteq> 48"
  using decimal_leading [of n] by (cases "decimal n"; cases k) auto

lemma list_all_take: "list_all P xs \<Longrightarrow> list_all P (take k xs) \<and> list_all P (drop k xs)"
  by (auto simp: list_all_iff dest: in_set_takeD in_set_dropD)

lemma fraction_cases: "fraction ds = (if strip_zeros ds = [] then [] else 46 # strip_zeros ds)"
  by (rule fraction_def)

lemma exponent_shape:
  "\<exists>sg ed. exponent_text x = 101 # sg # ed \<and> (sg = 43 \<or> sg = 45) \<and> ed \<noteq> [] \<and> list_all digit ed"
  by (simp add: exponent_text_def decimal_digits digit_codes)

lemma general17_json: "json_number (general17 num den) \<and> json_number (45 # general17 num den)"
proof -
  obtain n x where r: "rounded num den = (n, x)" by fastforce
  note ds = decimal_digits [of n]
  have zeros: "list_all digit (replicate k 48 @ decimal n)" for k
    using ds digit_codes(1) by (auto simp: list_all_iff)
  note parts = json_number_parts [OF _ _ _ strip_zeros_facts(2), unfolded fraction_cases [symmetric]]
  consider "0 \<le> x \<and> x < 17" | "\<not> (0 \<le> x \<and> x < 17)" "- 4 \<le> x \<and> x < 0"
    | "\<not> (0 \<le> x \<and> x < 17)" "\<not> (- 4 \<le> x \<and> x < 0)" by linarith
  then show ?thesis
  proof cases
    case 1
    then have g: "general17 num den =
        take (nat x + 1) (decimal n) @ fraction (drop (nat x + 1) (decimal n)) @ []"
      by (simp add: general17_rounded r Let_def)
    show ?thesis
      using parts [OF _ _ _ _ _ g] list_all_take [OF ds] take_leading [of "nat x + 1" n] by simp
  next
    case 2
    then have g: "general17 num den = [48] @ fraction (replicate (nat (- x) - 1) 48 @ decimal n) @ []"
      by (simp add: general17_rounded r Let_def)
    show ?thesis using parts [OF _ _ _ _ _ g] zeros digit_codes(1) by simp
  next
    case 3
    then have g: "general17 num den = take 1 (decimal n) @ fraction (drop 1 (decimal n)) @ exponent_text x"
      by (auto simp: general17_rounded r Let_def)
    show ?thesis using parts [OF _ _ _ _ _ g] list_all_take [OF ds] take_leading [of 1 n] exponent_shape
      by simp
  qed
qed

lemma number_text_json: "json_number (number_text d)"
  using general17_json json_number_parts [of "[48]" "[]" "[]"]
  by (simp add: number_text_def digit_codes split: prod.split)

lemma decimal_json: "json_number (decimal n)"
  using json_number_parts(1) [of "decimal n" "[]" "[]" "decimal n"] decimal_digits decimal_leading by simp

lemma json_exponent_chars: "json_exponent r \<Longrightarrow> list_all number_char r"
proof (cases r)
  case (Cons b r1)
  assume e: "json_exponent r"
  define r2 where "r2 = (if r1 \<noteq> [] \<and> (List.hd r1 = 43 \<or> List.hd r1 = 45) then List.tl r1 else r1)"
  have b: "b = 101" "list_all digit r2" using e by (simp_all add: json_exponent_def Cons Let_def r2_def)
  have "set r1 \<subseteq> {43, 45} \<union> set r2" by (cases r1) (auto simp: r2_def)
  then show ?thesis using b by (auto simp: Cons list_all_iff number_char_def)
qed simp

lemma digits_chars: "list_all number_char (takeWhile digit xs)"
  by (auto simp: list_all_iff number_char_def dest: set_takeWhileD)

lemma json_number_chars:
  assumes "json_number t"
  shows "t \<noteq> []" and "digit (List.hd t) \<or> List.hd t = 45" and "list_all number_char t"
proof -
  define t1 where "t1 = (if t \<noteq> [] \<and> List.hd t = 45 then List.tl t else t)"
  define r where "r = dropWhile digit t1"
  have n: "takeWhile digit t1 \<noteq> []"
    "if r \<noteq> [] \<and> List.hd r = 46
     then takeWhile digit (List.tl r) \<noteq> [] \<and> json_exponent (dropWhile digit (List.tl r)) else json_exponent r"
    using assms unfolding json_number_def Let_def t1_def [symmetric] r_def [symmetric] by blast+
  show "t \<noteq> []" using n(1) by (auto simp: t1_def)
  have "digit (List.hd t1)" using n(1) by (cases t1) (auto split: if_splits)
  then show "digit (List.hd t) \<or> List.hd t = 45" by (auto simp: t1_def split: if_splits)
  have "list_all number_char r"
  proof (cases "r \<noteq> [] \<and> List.hd r = 46")
    case True
    then have "list_all number_char (dropWhile digit (List.tl r))" using n(2) json_exponent_chars by simp
    then have "list_all number_char (takeWhile digit (List.tl r) @ dropWhile digit (List.tl r))"
      using digits_chars by (simp only: list_all_append)
    then show ?thesis using True by (cases r) (simp_all add: number_char_def)
  next
    case False
    then show ?thesis using n(2) json_exponent_chars by simp
  qed
  then have "list_all number_char (takeWhile digit t1 @ r)" using digits_chars by (simp only: list_all_append)
  then have "list_all number_char t1" by (simp add: r_def)
  then show "list_all number_char t" by (cases t) (auto simp: t1_def number_char_def split: if_splits)
qed

section \<open>Documents\<close>

fun commas :: "bytes list \<Rightarrow> bytes" where
  "commas [] = []"
| "commas [x] = x"
| "commas (x # y # ys) = x @ 44 # commas (y # ys)"

primrec render :: "json \<Rightarrow> bytes" where
  "render JNull = [110, 117, 108, 108]"
| "render (JBool b) = (if b then [116, 114, 117, 101] else [102, 97, 108, 115, 101])"
| "render (JNumber t) = t"
| "render (JString s) = quoted s"
| "render (JArray js) = 91 # commas (map render js) @ [93]"
| "render (JObject ms) =
     123 # commas (map (\<lambda>m. quoted (fst m) @ 58 # snd m) (map (map_prod id render) ms)) @ [125]"

definition member_text :: "bytes \<times> json \<Rightarrow> bytes" where
  "member_text m = quoted (fst m) @ 58 # render (snd m)"

lemma render_object: "render (JObject ms) = 123 # commas (map member_text ms) @ [125]"
  by (simp add: comp_def case_prod_beta member_text_def [abs_def])

primrec json_ok :: "json \<Rightarrow> bool" where
  "json_ok JNull = True"
| "json_ok (JBool b) = True"
| "json_ok (JNumber t) = json_number t"
| "json_ok (JString s) = True"
| "json_ok (JArray js) = list_all (\<lambda>x. x) (map json_ok js)"
| "json_ok (JObject ms) = list_all (\<lambda>m. snd m) (map (map_prod id json_ok) ms)"

definition starts :: "u8 \<Rightarrow> bytes \<Rightarrow> bool" where
  "starts b r \<longleftrightarrow> r \<noteq> [] \<and> List.hd r = b"

text \<open>The reader; the number bounds the depth and the length, and the length of the text suffices.\<close>

fun read_value :: "nat \<Rightarrow> bytes \<Rightarrow> (json \<times> bytes) option"
  and read_elements :: "nat \<Rightarrow> bytes \<Rightarrow> (json list \<times> bytes) option"
  and read_members :: "nat \<Rightarrow> bytes \<Rightarrow> ((bytes \<times> json) list \<times> bytes) option" where
  "read_value 0 bs = None"
| "read_value (Suc n) bs =
     (if starts 34 bs then map_option (map_prod JString id) (read_chars (List.tl bs))
      else if starts 91 bs
      then (if starts 93 (List.tl bs) then Some (JArray [], List.tl (List.tl bs))
            else map_option (map_prod JArray id) (read_elements n (List.tl bs)))
      else if starts 123 bs
      then (if starts 125 (List.tl bs) then Some (JObject [], List.tl (List.tl bs))
            else map_option (map_prod JObject id) (read_members n (List.tl bs)))
      else if take 4 bs = render JNull then Some (JNull, drop 4 bs)
      else if take 4 bs = render (JBool True) then Some (JBool True, drop 4 bs)
      else if take 5 bs = render (JBool False) then Some (JBool False, drop 5 bs)
      else if json_number (takeWhile number_char bs)
      then Some (JNumber (takeWhile number_char bs), dropWhile number_char bs)
      else None)"
| "read_elements 0 bs = None"
| "read_elements (Suc n) bs =
     (case read_value n bs of
        None \<Rightarrow> None
      | Some (j, r) \<Rightarrow>
          if starts 44 r then map_option (map_prod (Cons j) id) (read_elements n (List.tl r))
          else if starts 93 r then Some ([j], List.tl r) else None)"
| "read_members 0 bs = None"
| "read_members (Suc n) bs =
     (if \<not> starts 34 bs then None
      else
        (case read_chars (List.tl bs) of
           None \<Rightarrow> None
         | Some (k, r) \<Rightarrow>
             if \<not> starts 58 r then None
             else
               (case read_value n (List.tl r) of
                  None \<Rightarrow> None
                | Some (j, r) \<Rightarrow>
                    if starts 44 r then map_option (map_prod (Cons (k, j)) id) (read_members n (List.tl r))
                    else if starts 125 r then Some ([(k, j)], List.tl r) else None)))"

definition parse_json :: "bytes \<Rightarrow> json option" where
  "parse_json bs = (case read_value (length bs) bs of Some (j, []) \<Rightarrow> Some j | _ \<Rightarrow> None)"

lemma render_first:
  assumes "json_ok j"
  obtains b s where "render j = b # s" "b \<notin> {44, 93, 125, 58}"
proof (cases j)
  case (JNumber t)
  then obtain b u where b: "t = b # u" "digit b \<or> b = 45"
    using assms json_number_chars(1,2) [of t] by (cases t) auto
  then have "b \<notin> {44, 93, 125, 58}" by (auto simp: digit_def)
  then show thesis using that [of b u] JNumber b(1) by simp
next
  case (JBool b)
  then show thesis using that by (cases b) auto
qed (use that in \<open>auto simp: quoted_def\<close>)

lemma length_render: "json_ok j \<Longrightarrow> 0 < length (render j)"
  by (elim render_first) simp

lemma read_number:
  assumes "json_number t" and "r = [] \<or> \<not> number_char (List.hd r)"
  shows "read_value (Suc n) (t @ r) = Some (JNumber t, r)"
proof -
  have span: "takeWhile number_char (t @ r) = t" "dropWhile number_char (t @ r) = r"
    using json_number_chars(3) [OF assms(1)] assms(2)
    by (cases r; simp add: list_all_iff takeWhile_append dropWhile_append3)+
  obtain b s where t: "t = b # s" "digit b \<or> b = 45"
    using json_number_chars(1,2) [OF assms(1)] by (cases t) auto
  then have "b \<notin> {34, 91, 123, 110, 116, 102}" by (auto simp: digit_def)
  then show ?thesis using span assms(1) by (auto simp: t(1) starts_def)
qed

lemma read_elements_render:
  assumes "\<And>j n r. j \<in> set js \<Longrightarrow> length (render j) \<le> n \<Longrightarrow>
      r = [] \<or> \<not> number_char (List.hd r) \<Longrightarrow> read_value n (render j @ r) = Some (j, r)"
    and "list_all json_ok js" and "js \<noteq> []" and "length (commas (map render js)) < n"
  shows "read_elements n (commas (map render js) @ 93 # r) = Some (js, r)"
  using assms
proof (induction js arbitrary: n)
  case (Cons j js)
  then obtain m where n: "n = Suc m" by (cases n) auto
  show ?case
  proof (cases js)
    case Nil
    then show ?thesis using Cons.prems(1) [of j m "93 # r"] Cons.prems(4)
      by (simp add: n starts_def number_char_def digit_def)
  next
    case (Cons j2 js2)
    have len: "length (render j) + length (commas (map render js)) < m"
      using Cons.prems(4) by (simp add: n Cons)
    have "read_elements m (commas (map render js) @ 93 # r) = Some (js, r)"
      using Cons.prems len by (intro Cons.IH) (auto simp: Cons)
    moreover have "read_value m (render j @ 44 # commas (map render js) @ 93 # r) =
        Some (j, 44 # commas (map render js) @ 93 # r)"
      using len by (intro Cons.prems(1)) (simp_all add: number_char_def digit_def)
    ultimately show ?thesis by (simp add: n Cons starts_def)
  qed
qed simp

lemma read_members_render:
  assumes "\<And>m n r. m \<in> set ms \<Longrightarrow> length (render (snd m)) \<le> n \<Longrightarrow>
      r = [] \<or> \<not> number_char (List.hd r) \<Longrightarrow> read_value n (render (snd m) @ r) = Some (snd m, r)"
    and "ms \<noteq> []" and "length (commas (map member_text ms)) < n"
  shows "read_members n (commas (map member_text ms) @ 125 # r) = Some (ms, r)"
  using assms
proof (induction ms arbitrary: n)
  case (Cons m ms)
  then obtain k where n: "n = Suc k" by (cases n) auto
  have read: "read_value k (render (snd m) @ t) = Some (snd m, t)"
    if "t = [] \<or> \<not> number_char (List.hd t)" for t
    using Cons.prems(1) [of m k t] Cons.prems(3) that
    by (cases ms) (simp_all add: n member_text_def quoted_def)
  show ?case
  proof (cases ms)
    case Nil
    then show ?thesis using read [of "125 # r"]
      by (simp add: n starts_def number_char_def digit_def member_text_def quoted_def read_quoted)
  next
    case (Cons m2 ms2)
    have len: "length (commas (map member_text ms)) < k"
      using Cons.prems(3) by (simp add: n Cons)
    have "read_members k (commas (map member_text ms) @ 125 # r) = Some (ms, r)"
      using Cons.prems len by (intro Cons.IH) (auto simp: Cons)
    then show ?thesis using read [of "44 # commas (map member_text ms) @ 125 # r"]
      by (simp add: n Cons starts_def number_char_def digit_def member_text_def [of m] quoted_def read_quoted)
  qed
qed simp

lemma commas_first: "x = b # s \<Longrightarrow> \<exists>t. commas (x # xs) = b # t"
  by (cases xs) auto

lemma read_render:
  "json_ok j \<Longrightarrow> length (render j) \<le> n \<Longrightarrow> r = [] \<or> \<not> number_char (List.hd r) \<Longrightarrow>
   read_value n (render j @ r) = Some (j, r)"
proof (induction j arbitrary: n r)
  case (JNumber t)
  then have "t \<noteq> []" using json_number_chars(1) by simp
  with JNumber show ?case using read_number by (cases n) simp_all
next
  case (JArray js)
  obtain m where n: "n = Suc m" using JArray.prems(2) by (cases n) auto
  show ?case
  proof (cases js)
    case Nil
    then show ?thesis by (simp add: n starts_def)
  next
    case (Cons j js2)
    have ok: "list_all json_ok js" using JArray.prems(1) by (simp add: list_all_iff)
    then obtain b s where "render j = b # s" "b \<noteq> 93" by (rule_tac j = j in render_first) (auto simp: Cons)
    then obtain t where b: "commas (map render js) = b # t" "b \<noteq> 93"
      using commas_first [of "render j"] Cons by fastforce
    have "read_elements m (commas (map render js) @ 93 # r) = Some (js, r)"
      using JArray ok Cons by (intro read_elements_render) (auto simp: list_all_iff n)
    then show ?thesis using b by (simp add: n starts_def)
  qed
next
  case (JObject ms)
  obtain m where n: "n = Suc m" using JObject.prems(2) by (cases n) auto
  show ?case
  proof (cases ms)
    case Nil
    then show ?thesis by (simp add: n starts_def)
  next
    case (Cons p ms2)
    obtain t where b: "commas (map member_text ms) = 34 # t"
      using commas_first [of "member_text p" 34] Cons by (auto simp: member_text_def quoted_def)
    have "read_members m (commas (map member_text ms) @ 125 # r) = Some (ms, r)"
    proof (rule read_members_render)
      fix q k r'
      assume "q \<in> set ms" "length (render (snd q)) \<le> k" "r' = [] \<or> \<not> number_char (List.hd r')"
      then show "read_value k (render (snd q) @ r') = Some (snd q, r')"
        using JObject.prems(1) by (intro JObject.IH [of q]) (auto simp: list_all_iff snds.simps)
        next
      show "length (commas (map member_text ms)) < m"
        using JObject.prems(2) unfolding render_object by (simp add: n)
    qed (simp add: Cons)
    then show ?thesis unfolding render_object using b by (simp add: n starts_def)
  qed
next
  case (JString s)
  then show ?case by (cases n) (simp_all add: starts_def quoted_def read_quoted)
next
  case (JBool b)
  then show ?case by (cases n; cases b) (simp_all add: starts_def)
next
  case JNull
  then show ?case by (cases n) (simp_all add: starts_def)
qed

lemma parse_render: "json_ok j \<Longrightarrow> parse_json (render j) = Some j"
  using read_render [of j "length (render j)" "[]"] by (simp add: parse_json_def)

end
