(* ===== verification/Web_Properties.thy ===== *)
theory Web_Properties
  imports Web_Response Json
begin

text \<open>
  What the web serialiser emits: the text of the JSON document that the snapshot, the capabilities
  and the samples describe. Both passes therefore agree, and a JSON reader gets the document back.
\<close>

section \<open>The document of a response\<close>

definition name_text :: "bytes option \<Rightarrow> bytes" where
  "name_text name = (case name of None \<Rightarrow> [] | Some mem \<Rightarrow> c_string mem)"

abbreviation jname :: "bytes option \<Rightarrow> json" where
  "jname name \<equiv> JString (name_text name)"

definition web_value_document :: "NormalizedVehicleSample \<Rightarrow> json" where
  "web_value_document s =
     (case smp_valueType s of
        ValueType_Numeric \<Rightarrow> JNumber (number_text (nv_numeric (smp_value s)))
      | ValueType_Boolean \<Rightarrow> JBool (nv_boolean (smp_value s))
      | _ \<Rightarrow> JString (bt_text (nv_text (smp_value s))))"

definition web_capability_document :: "NormalizedSignalDescriptor \<Rightarrow> json" where
  "web_capability_document c = JObject
     [(ascii ''signalId'', JString (bt_text (nsd_identity c))),
      (ascii ''valueType'', jname (valueTypeName (nsd_expectedValueType c))),
      (ascii ''unit'', JString (bt_text (nsd_unit c))),
      (ascii ''support'', jname (supportName (nsd_support c)))]"

definition web_sample_document :: "NormalizedVehicleSample \<Rightarrow> json" where
  "web_sample_document s = JObject
     ([(ascii ''signalId'', JString (bt_text (smp_signalId s))),
       (ascii ''unit'', JString (bt_text (smp_unit s)))] @
      (if hasValue s
       then [(ascii ''valueType'', jname (valueTypeName (smp_valueType s))),
             (ascii ''value'', web_value_document s)]
       else []) @
      [(ascii ''source'', jname (sourceName (smp_source s))),
       (ascii ''quality'', jname (qualityName (smp_quality s))),
       (ascii ''availability'', jname (availabilityName (smp_availability s))),
       (ascii ''timestampMs'', JString (decimal (unat (smp_timestampMs s))))])"

definition web_document ::
  "VehicleDataReadSnapshot \<Rightarrow> NormalizedSignalDescriptor list \<Rightarrow> NormalizedVehicleSample list \<Rightarrow> json" where
  "web_document metadata capabilities samples = JObject
     ([(ascii ''profileSelection'', jname (selectionStateName (rs_selectionState metadata)))] @
      (case rs_activeIdentity metadata of
         None \<Rightarrow> []
       | Some identity \<Rightarrow> [(ascii ''activeProfileId'', JNumber (decimal (unat (pi_value identity))))]) @
      [(ascii ''capabilities'',
        if rs_hasCapabilityRegistry metadata then JArray (map web_capability_document capabilities) else JNull),
       (ascii ''samples'', JArray (map web_sample_document samples))])"

section \<open>What the operations of the writer emit\<close>

interpretation web: byte_writer json_append
  by unfold_locales
    (auto simp: emits_def json_append_def size_sub_def bw_advance_def bw_room_def bw_ok_def split: option.splits)

lemma emits_literal: "nul_free s \<Longrightarrow> emits (appendLiteral (s @ [0])) s"
  by (simp add: appendLiteral_def web.emits_append)

lemma emits_lit: "nul_free (lit_chars s) \<Longrightarrow> emits (lit s) (lit_chars s)"
  unfolding lit_def by (rule emits_literal)

lemma kHex_digits: "kHex = hex_digits"
  by code_simp

lemma emits_escaped: "emits (appendEscaped c) (escape c)"
proof -
  have two: "emits (appendLiteral [a, b, 0]) [a, b]" if "a \<noteq> 0" "b \<noteq> 0" for a b
    using emits_literal [of "[a, b]"] that by (simp add: nul_free_def)
  show ?thesis by (simp add: appendEscaped_def escape_def two web.emits_append kHex_digits)
qed

lemma emits_quoted: "emits (appendQuoted mem) (quoted (c_string mem))"
proof -
  have q: "emits (appendLiteral [34, 0]) [34]" using emits_literal [of "[34]"] by (simp add: nul_free_def)
  have body: "emits (run_all (map appendEscaped s)) (concat (map escape s))" for s
    by (rule emits_run) (simp add: list_all2_map1 list_all2_map2 list.rel_refl emits_escaped)
  from emits_Cons [OF q emits_run_append [OF body emits_Cons [OF q emits_Nil]]] show ?thesis
    by (simp add: appendQuoted_def quoted_def del: run_all.simps)
qed

lemma emits_text: "bt_inv n t \<Longrightarrow> emits (appendQuoted (bt_data t)) (quoted (bt_text t))"
  using emits_quoted [of "bt_data t"] by (simp add: c_string_inv)

lemma emits_name: "name \<noteq> None \<Longrightarrow> emits (appendName name) (quoted (name_text name))"
  using emits_quoted by (auto simp: appendName_def name_text_def)

lemma emits_unsigned: "emits (appendUnsigned v) (decimal (unat v))"
  using web.emits_if_short [OF length_decimal_u64 [of v]] unfolding appendUnsigned_def [abs_def] .

lemma emits_number: "isfinite v \<Longrightarrow> emits (appendNumber v) (number_text v)"
  using web.emits_append length_number_text [of v] by (simp add: emits_def appendNumber_def)

text \<open>The literals of the response, as parts of JSON texts.\<close>

lemma web_literals:
  "lit_chars ''{~signalId~:'' = 123 # quoted (ascii ''signalId'') @ [58]"
  "lit_chars '',~valueType~:'' = 44 # quoted (ascii ''valueType'') @ [58]"
  "lit_chars '',~unit~:'' = 44 # quoted (ascii ''unit'') @ [58]"
  "lit_chars '',~support~:'' = 44 # quoted (ascii ''support'') @ [58]"
  "lit_chars ''}'' = [125]"
  "lit_chars '',~value~:'' = 44 # quoted (ascii ''value'') @ [58]"
  "lit_chars '',~source~:'' = 44 # quoted (ascii ''source'') @ [58]"
  "lit_chars '',~quality~:'' = 44 # quoted (ascii ''quality'') @ [58]"
  "lit_chars '',~availability~:'' = 44 # quoted (ascii ''availability'') @ [58]"
  "lit_chars '',~timestampMs~:~'' = 44 # quoted (ascii ''timestampMs'') @ [58, 34]"
  "lit_chars ''~}'' = [34, 125]"
  "lit_chars ''true'' = render (JBool True)"
  "lit_chars ''false'' = render (JBool False)"
  "lit_chars ''{~profileSelection~:'' = 123 # quoted (ascii ''profileSelection'') @ [58]"
  "lit_chars '',~activeProfileId~:'' = 44 # quoted (ascii ''activeProfileId'') @ [58]"
  "lit_chars '',~capabilities~:'' = 44 # quoted (ascii ''capabilities'') @ [58]"
  "lit_chars ''null'' = render JNull"
  "lit_chars ''['' = [91]"
  "lit_chars '']'' = [93]"
  "lit_chars '',~samples~:['' = 44 # quoted (ascii ''samples'') @ [58, 91]"
  "lit_chars '']}'' = [93, 125]"
  "lit_chars '','' = [44]"
  by code_simp+

lemma web_literals_nul_free:
  "list_all (\<lambda>s. nul_free (lit_chars s))
    [''{~signalId~:'', '',~valueType~:'', '',~unit~:'', '',~support~:'', ''}'', '',~value~:'', '',~source~:'',
     '',~quality~:'', '',~availability~:'', '',~timestampMs~:~'', ''~}'', ''true'', ''false'',
     ''{~profileSelection~:'', '',~activeProfileId~:'', '',~capabilities~:'', ''null'', ''['', '']'',
     '',~samples~:['', '']}'', '','']"
  by code_simp

lemmas nul_free_lits = web_literals_nul_free [simplified]

lemma emits_eq: "emits f as \<Longrightarrow> as = bs \<Longrightarrow> emits f bs"
  by simp

lemma quoted_digits: "list_all digit s \<Longrightarrow> quoted s = 34 # s @ [34]"
proof -
  assume "list_all digit s"
  then have "concat (map escape s) = s"
  proof (induction s)
    case (Cons b s)
    then have "48 \<le> b" "b \<le> 57" by (simp_all add: digit_def)
    then have "\<not> b < 32" "b \<notin> {34, 92, 8, 12, 10, 13, 9}" by (auto simp: word_less_nat_alt word_le_nat_alt)
    then have "escape b = [b]" by (simp add: escape_def)
    then show ?case using Cons by simp
  qed simp
  then show ?thesis by (simp add: quoted_def)
qed

lemma emits_web_capability:
  assumes "descriptor_inv c" and "validateCapability c"
  shows "emits (web_capability c) (render (web_capability_document c))"
proof -
  note texts = emits_text [of kMaxSignalIdLength "nsd_identity c"] emits_text [of kMaxUnitLength "nsd_unit c"]
  show ?thesis
    unfolding web_capability_def
    by (rule emits_eq, (rule emits_Cons emits_Nil emits_lit emits_name texts |
          use assms in \<open>simp add: nul_free_lits descriptor_inv_def validateCapability_def; fail\<close>)+)
      (simp add: web_literals web_capability_document_def render_object member_text_def del: render.simps(6))
qed

lemma sample_texts:
  assumes "sample_inv s"
  shows "bt_inv kMaxSignalIdLength (smp_signalId s)" and "bt_inv kMaxUnitLength (smp_unit s)"
    and "smp_valueType s = ValueType_Text \<Longrightarrow> bt_inv kMaxTextLength (nv_text (smp_value s))"
    and "\<exists>rd. smp_value s = value_of rd"
  using assms
  by (auto elim!: sample_invE simp: text_ok_def canonical_inv split: reading.splits)

lemma emits_web_value:
  assumes "sample_inv s" and "validateSample s"
  shows "emits (run_all (web_value s))
    (if hasValue s
     then 44 # member_text (ascii ''valueType'', jname (valueTypeName (smp_valueType s))) @
       44 # member_text (ascii ''value'', web_value_document s)
     else [])"
proof (cases "hasValue s")
  case True
  let ?v = "case smp_valueType s of
      ValueType_Numeric \<Rightarrow> [appendNumber (nv_numeric (smp_value s))]
    | ValueType_Boolean \<Rightarrow> [lit (if nv_boolean (smp_value s) then ''true'' else ''false'')]
    | ValueType_Text \<Rightarrow> [appendQuoted (bt_data (nv_text (smp_value s)))]
    | ValueType_None \<Rightarrow> [\<lambda>w. (False, w)]
    | ValueType_Other _ \<Rightarrow> []"
  obtain rd where rd: "smp_value s = value_of rd" using sample_texts(4) [OF assms(1)] by blast
  have one: "emits (run_all [f]) bs" if "emits f bs" for f bs
    using emits_Cons [OF that emits_Nil] by simp
  have "emits (run_all ?v) (render (web_value_document s))"
  proof (cases "smp_valueType s")
    case ValueType_None
    then show ?thesis using True by (simp add: hasValue_def)
  next
    case (ValueType_Other b)
    then show ?thesis using rd by (simp split: reading.splits)
  next
    case ValueType_Boolean
    then show ?thesis
      using emits_lit [of "if nv_boolean (smp_value s) then ''true'' else ''false''"]
      by (auto simp: web_value_document_def web_literals nul_free_def simp del: run_all.simps intro!: one)
  next
    case ValueType_Numeric
    then show ?thesis using True assms(2) one [OF emits_number]
      by (simp add: web_value_document_def validateSample_def del: run_all.simps)
  next
    case ValueType_Text
    then show ?thesis using one [OF emits_text [OF sample_texts(3) [OF assms(1)]]]
      by (simp add: web_value_document_def del: run_all.simps)
  qed
  note v = this
  define vs where "vs = ?v"
  have "web_value s = [lit '',~valueType~:'', appendName (valueTypeName (smp_valueType s)), lit '',~value~:''] @ vs"
    using True by (simp add: web_value_def vs_def)
  moreover have "emits (run_all
      ([lit '',~valueType~:'', appendName (valueTypeName (smp_valueType s)), lit '',~value~:''] @ vs))
      (44 # member_text (ascii ''valueType'', jname (valueTypeName (smp_valueType s))) @
       44 # member_text (ascii ''value'', web_value_document s))"
    by (rule emits_eq, (rule v [folded vs_def] emits_run_append emits_Cons emits_Nil emits_lit emits_name |
          use assms(2) in \<open>simp add: nul_free_lits validateSample_def; fail\<close>)+)
      (simp add: web_literals member_text_def)
  ultimately show ?thesis using True by simp
next
  case False
  then show ?thesis using emits_Nil by (simp add: web_value_def del: run_all.simps)
qed

lemma emits_web_sample:
  assumes "sample_inv s" and "validateSample s"
  shows "emits (web_sample s) (render (web_sample_document s))"
proof -
  note middle = emits_web_value [OF assms]
  have ts: "quoted (decimal n) = 34 # decimal n @ [34]" for n by (simp add: quoted_digits decimal_digits)
  show ?thesis
    unfolding web_sample_def
    by (rule emits_eq, (rule middle emits_run_append emits_Cons emits_Nil emits_lit emits_name emits_unsigned
            emits_text [OF sample_texts(1) [OF assms(1)]] emits_text [OF sample_texts(2) [OF assms(1)]] |
          use assms(2) in \<open>simp add: nul_free_lits validateSample_def; fail\<close>)+)
      (simp add: web_literals web_sample_document_def render_object member_text_def ts del: render.simps(6))
qed

text \<open>The loops: the elements with commas between them.\<close>

lemma commas_snoc: "commas (xs @ [x]) = (if xs = [] then x else commas xs @ 44 # x)"
  by (induction xs rule: commas.induct) auto

lemma emits_web_loop:
  assumes "\<And>x. x \<in> set (take n xs) \<Longrightarrow> emits (f x) (render (g x))" and "n \<le> length xs"
  shows "emits (run_all (web_loop f xs n)) (commas (map render (map g (take n xs))))"
  using assms
proof (induction n)
  case 0
  then show ?case using emits_Nil by (simp add: web_loop_def del: run_all.simps)
next
  case (Suc n)
  then have x: "emits (f (xs ! n)) (render (g (xs ! n)))"
    and IH: "emits (run_all (web_loop f xs n)) (commas (map render (map g (take n xs))))"
    by (simp_all add: take_Suc_conv_app_nth)
  have loop: "web_loop f xs (Suc n) = web_loop f xs n @ ((if n \<noteq> 0 then [lit '','']  else []) @ [f (xs ! n)])"
    by (simp add: web_loop_def)
  have comma: "emits (run_all (if n \<noteq> 0 then [lit '','']  else [])) (if n \<noteq> 0 then [44] else [])"
    using emits_Cons [OF emits_lit [of "'',''"] emits_Nil] emits_Nil
    by (simp add: nul_free_def web_literals del: run_all.simps)
  from emits_run_append [OF IH emits_run_append [OF comma emits_Cons [OF x emits_Nil]]]
  show ?case using Suc.prems(2)
    by (auto simp: loop commas_snoc take_Suc_conv_app_nth simp del: run_all.simps)
qed

section \<open>The response\<close>

text \<open>The first elements of an array that may be absent, and the caller's side of the contract.\<close>

definition front :: "'a list option \<Rightarrow> nat \<Rightarrow> 'a list" where
  "front xs n = (case xs of None \<Rightarrow> [] | Some ys \<Rightarrow> take n ys)"

definition web_input ::
  "VehicleDataReadSnapshot \<Rightarrow> NormalizedSignalDescriptor list option \<Rightarrow>
   NormalizedVehicleSample list option \<Rightarrow> bool" where
  "web_input metadata capabilities samples \<longleftrightarrow>
     buffer_holds capabilities (rs_capabilityCount metadata) \<and>
     buffer_holds samples (rs_sampleCount metadata) \<and>
     list_all descriptor_inv (front capabilities (rs_capabilityCount metadata)) \<and>
     list_all sample_inv (front samples (rs_sampleCount metadata))"

definition response_document ::
  "VehicleDataReadSnapshot \<Rightarrow> NormalizedSignalDescriptor list option \<Rightarrow>
   NormalizedVehicleSample list option \<Rightarrow> json" where
  "response_document metadata capabilities samples =
     web_document metadata (front capabilities (rs_capabilityCount metadata))
       (front samples (rs_sampleCount metadata))"

lemma all_front:
  "buffer_holds xs n \<Longrightarrow> xs \<noteq> None \<or> n = 0 \<Longrightarrow>
   list_all (\<lambda>i. P (the xs ! i)) [0 ..< n] \<longleftrightarrow> list_all P (front xs n)"
  by (auto simp: front_def buffer_holds_def list_all_length split: option.splits)

lemma validateInput_front:
  assumes "web_input metadata capabilities samples"
  shows "validateInput metadata capabilities samples \<longleftrightarrow>
    selectionStateName (rs_selectionState metadata) \<noteq> None \<and>
    (rs_selectionState metadata = Selection_Selected \<longleftrightarrow> rs_activeIdentity metadata \<noteq> None) \<and>
    (rs_hasCapabilityRegistry metadata \<or> rs_capabilityCount metadata = 0) \<and>
    (capabilities \<noteq> None \<or> rs_capabilityCount metadata = 0) \<and>
    (samples \<noteq> None \<or> rs_sampleCount metadata = 0) \<and>
    list_all validateCapability (front capabilities (rs_capabilityCount metadata)) \<and>
    list_all validateSample (front samples (rs_sampleCount metadata))"
  using assms all_front [of capabilities "rs_capabilityCount metadata" validateCapability]
    all_front [of samples "rs_sampleCount metadata" validateSample]
  unfolding validateInput_def web_input_def by (auto simp del: upt.simps)

lemma emits_loop_front:
  assumes "buffer_holds xs n" and "xs \<noteq> None \<or> n = 0"
    and "\<And>x. x \<in> set (front xs n) \<Longrightarrow> emits (f x) (render (g x))"
  shows "emits (run_all (web_loop f (the xs) n)) (commas (map render (map g (front xs n))))"
proof (cases xs)
  case None
  then show ?thesis using assms(2) emits_Nil by (simp add: web_loop_def front_def del: run_all.simps)
next
  case (Some ys)
  then show ?thesis using assms emits_web_loop [of n ys f g] by (simp add: front_def buffer_holds_def)
qed

lemma emits_response:
  assumes input: "web_input metadata capabilities samples"
    and ok: "validateInput metadata capabilities samples"
  shows "emits (writeResponse metadata capabilities samples)
    (render (response_document metadata capabilities samples))"
proof -
  note valid = ok [unfolded validateInput_front [OF input]]
  define cs where "cs = front capabilities (rs_capabilityCount metadata)"
  define ss where "ss = front samples (rs_sampleCount metadata)"
  have loops: "emits (run_all (web_loop web_capability (the capabilities) (rs_capabilityCount metadata)))
      (commas (map render (map web_capability_document cs)))"
    "emits (run_all (web_loop web_sample (the samples) (rs_sampleCount metadata)))
      (commas (map render (map web_sample_document ss)))"
    using input valid unfolding cs_def ss_def web_input_def
    by (intro emits_loop_front emits_web_capability emits_web_sample; auto simp: list_all_iff)+
  define ids where "ids = (case rs_activeIdentity metadata of
         None \<Rightarrow> []
       | Some identity \<Rightarrow> [lit '',~activeProfileId~:'', appendUnsigned (ucast (pi_value identity))])"
  define idt where "idt = (case rs_activeIdentity metadata of
         None \<Rightarrow> []
       | Some identity \<Rightarrow> 44 # member_text (ascii ''activeProfileId'', JNumber (decimal (unat (pi_value identity)))))"
  have wide: "unat (ucast v :: u64) = unat v" for v :: u32
  proof -
    have "unat v < 2 ^ 64" using unsigned_less [of v] by (rule less_le_trans) simp
    then show ?thesis by (simp add: unsigned_ucast_eq take_bit_nat_eq_self_iff)
  qed
  have ids: "emits (run_all ids) idt"
  proof (cases "rs_activeIdentity metadata")
    case None
    then show ?thesis using emits_Nil by (simp add: ids_def idt_def del: run_all.simps)
  next
    case (Some i)
    have "emits (appendUnsigned (ucast (pi_value i))) (decimal (unat (pi_value i)))"
      using emits_unsigned [of "ucast (pi_value i)"] by (simp add: wide)
    from emits_Cons [OF emits_lit emits_Cons [OF this emits_Nil], of "'',~activeProfileId~:''"]
    show ?thesis using Some
      by (simp add: ids_def idt_def web_literals nul_free_lits [unfolded web_literals] member_text_def
          del: run_all.simps)
  qed
  define caps where "caps = (if \<not> rs_hasCapabilityRegistry metadata then [lit ''null'']
    else [lit ''[''] @ web_loop web_capability (the capabilities) (rs_capabilityCount metadata) @ [lit '']''])"
  have caps: "emits (run_all caps) (render
      (if rs_hasCapabilityRegistry metadata then JArray (map web_capability_document cs) else JNull))"
  proof (cases "rs_hasCapabilityRegistry metadata")
    case True
    have "emits (run_all ([lit ''[''] @
        web_loop web_capability (the capabilities) (rs_capabilityCount metadata) @ [lit '']'']))
        (render (JArray (map web_capability_document cs)))"
      by (rule emits_eq, (rule loops(1) emits_run_append emits_Cons emits_Nil emits_lit | simp add: nul_free_lits; fail)+)
        (simp add: web_literals)
    then show ?thesis using True by (simp add: caps_def del: run_all.simps)
  next
    case False
    then show ?thesis using emits_Cons [OF emits_lit [of "''null''"] emits_Nil]
      by (simp add: caps_def web_literals nul_free_def del: run_all.simps)
  qed
  have "emits (writeResponse metadata capabilities samples)
      (123 # member_text (ascii ''profileSelection'', jname (selectionStateName (rs_selectionState metadata))) @ idt @
       44 # member_text (ascii ''capabilities'',
         if rs_hasCapabilityRegistry metadata then JArray (map web_capability_document cs) else JNull) @
       44 # member_text (ascii ''samples'', JArray (map web_sample_document ss)) @ [125])"
    unfolding writeResponse_def ids_def [symmetric] caps_def [symmetric]
    by (rule emits_eq, (rule ids caps loops(2) emits_run_append emits_Cons emits_Nil emits_lit emits_name |
          use valid in \<open>simp add: nul_free_lits; fail\<close>)+)
      (simp add: web_literals member_text_def)
  then show ?thesis
    by (rule emits_eq)
      (simp add: response_document_def web_document_def cs_def ss_def idt_def render_object
        del: render.simps(6) split: option.split)
qed

section \<open>Properties\<close>

text \<open>The names are ASCII words and the numbers are JSON numbers, so the document is well-formed.\<close>

lemma web_document_ok: "json_ok (web_document metadata capabilities samples)"
  by (auto simp: web_document_def web_capability_document_def web_sample_document_def
      web_value_document_def list_all_iff decimal_json number_text_json split: option.split VehicleValueType.split)

text \<open>A JSON text holds no NUL character.\<close>

lemma nul_free_concat: "nul_free (concat xss) \<longleftrightarrow> list_all nul_free xss"
  by (induction xss) (simp_all, simp add: nul_free_def)

lemma nul_free_commas: "list_all nul_free xss \<Longrightarrow> nul_free (commas xss)"
  by (induction xss rule: commas.induct) (simp_all add: nul_free_def)

lemma nul_free_escape: "nul_free (escape b)"
proof (cases "b < 32 \<and> b \<notin> {8, 9, 10, 12, 13}")
  case True
  have "list_all (\<lambda>b. hex_digits ! unat (drop_bit 4 b) \<noteq> 0 \<and> hex_digits ! unat (b AND 15) \<noteq> 0)
      (map of_nat [0 ..< 32] :: u8 list)"
    by code_simp
  then have "hex_digits ! unat (drop_bit 4 b) \<noteq> 0 \<and> hex_digits ! unat (b AND 15) \<noteq> 0"
    using below_32 [of b] True unfolding list_all_iff by blast
  then show ?thesis using True by (auto simp: escape_def nul_free_def)
qed (auto simp: escape_def nul_free_def)

lemma nul_free_quoted: "nul_free (quoted s)"
  using nul_free_concat [of "map escape s"]
  by (auto simp: quoted_def nul_free_escape list_all_iff) (simp add: nul_free_def)

lemma nul_free_render: "json_ok j \<Longrightarrow> nul_free (render j)"
proof (induction j)
  case (JNumber t)
  then have "list_all number_char t" by (simp add: json_number_chars)
  then show ?case by (auto simp: nul_free_def list_all_iff number_char_def digit_def)
next
  case (JArray js)
  then have "nul_free (commas (map render js))" by (intro nul_free_commas) (simp add: list_all_iff)
  then show ?case by (simp add: nul_free_def)
next
  case (JObject ms)
  have "nul_free (member_text m)" if "m \<in> set ms" for m
    using JObject.IH [of m "snd m"] JObject.prems that nul_free_quoted
    by (auto simp: member_text_def list_all_iff snds.simps) (simp add: nul_free_def)
  then have "nul_free (commas (map member_text ms))" by (intro nul_free_commas) (simp add: list_all_iff)
  then show ?case unfolding render_object by (simp add: nul_free_def)
qed (use nul_free_quoted in \<open>auto simp: nul_free_def\<close>)

definition exact_response :: "bool \<Rightarrow> bytes \<Rightarrow> bytes \<Rightarrow> nat \<Rightarrow> WebResponseSerializationResult \<times> bytes option" where
  "exact_response sound body out capacity =
     (if \<not> sound \<or> size_max \<le> length body
      then (\<lparr>wr_status = WebResponse_InvalidInput, wr_requiredCapacity = 0\<rparr>, Some out)
      else if capacity \<le> length body
      then (\<lparr>wr_status = WebResponse_InsufficientCapacity, wr_requiredCapacity = length body + 1\<rparr>, Some out)
      else (\<lparr>wr_status = WebResponse_Serialized, wr_requiredCapacity = length body + 1\<rparr>,
            Some (body @ 0 # drop (length body + 1) out)))"

lemma serialize_exact:
  assumes "web_input metadata capabilities samples" and "capacity \<le> length out"
  shows "serializeWebVehicleDataResponse metadata capabilities samples (Some out) capacity =
    exact_response (validateInput metadata capabilities samples)
      (render (response_document metadata capabilities samples)) out capacity"
proof (cases "validateInput metadata capabilities samples")
  case True
  note emits = emits_response [OF assms(1) True]
  define body where "body = render (response_document metadata capabilities samples)"
  show ?thesis
  proof (cases "length body < size_max")
    case fits: True
    from emits_sizing(1) [OF emits, folded body_def] fits obtain w
      where w: "writeResponse metadata capabilities samples (BoundedWriter_make None 0) = (True, w)"
        "bw_size w = length body" by fastforce
    show ?thesis
    proof (cases "capacity \<le> length body")
      case small: True
      show ?thesis
        unfolding body_def [symmetric]
        using True fits w small by (simp add: serializeWebVehicleDataResponse_def exact_response_def)
    next
      case False
      from emits_writing [OF emits, folded body_def, of capacity out] fits False assms(2) obtain w'
        where w': "writeResponse metadata capabilities samples (BoundedWriter_make (Some out) capacity) = (True, w')"
          "bw_size w' = length body" "bw_output w' = Some (body @ drop (length body) out)" by fastforce
      have "(body @ drop (length body) out)[length body := 0] = body @ 0 # drop (length body + 1) out"
        using False assms(2) by (simp add: list_update_append Cons_nth_drop_Suc [symmetric])
      then show ?thesis
        unfolding body_def [symmetric]
        using True fits w w' False by (simp add: serializeWebVehicleDataResponse_def exact_response_def)
    qed
  next
    case False
    have "\<not> fst (writeResponse metadata capabilities samples (BoundedWriter_make None 0)) \<or>
        bw_size (snd (writeResponse metadata capabilities samples (BoundedWriter_make None 0))) = size_max"
    proof (cases "length body = size_max")
      case True
      from emits_sizing(1) [OF emits, folded body_def, of 0] True show ?thesis by auto
    next
      case bigger: False
      with False emits_sizing(2) [OF emits, folded body_def, of 0] show ?thesis by simp
    qed
    then show ?thesis
      unfolding body_def [symmetric]
      using True False
      by (auto simp: serializeWebVehicleDataResponse_def exact_response_def split: prod.splits)
  qed
qed (simp add: serializeWebVehicleDataResponse_def exact_response_def)

text \<open>
  C38: the serialiser is exact. It rejects exactly the input the validation rejects, and a response
  that would not fit \<open>size_t\<close> with its NUL; otherwise it reports the exact capacity the response
  needs, and writes the text of the response's JSON document and a NUL to the front of the buffer if
  and only if they fit. The rest of the buffer, and all of it unless the response is serialised, is
  untouched.
\<close>

lemma web_response_exact:
  assumes "web_input metadata capabilities samples" and "capacity \<le> length out"
  shows "serializeWebVehicleDataResponse metadata capabilities samples (Some out) capacity =
    exact_response (validateInput metadata capabilities samples)
      (render (response_document metadata capabilities samples)) out capacity"
  by (rule serialize_exact [OF assms])

lemma web_response_exact_witness:
  "serializeWebVehicleDataResponse VehicleDataReadSnapshot_default None None (Some (replicate 9 0)) 9 =
     (\<lparr>wr_status = WebResponse_InsufficientCapacity, wr_requiredCapacity = 64\<rparr>, Some (replicate 9 0))"
proof -
  have input: "web_input VehicleDataReadSnapshot_default None None"
    by (simp add: web_input_def VehicleDataReadSnapshot_default_def buffer_holds_def front_def)
  have "length (render (response_document VehicleDataReadSnapshot_default None None)) = 63"
    "validateInput VehicleDataReadSnapshot_default None None"
    by code_simp+
  then show ?thesis
    using web_response_exact [OF input, of 9 "replicate 9 0"] by (simp add: exact_response_def size_max_def)
qed

text \<open>
  C11: what a client reads is what the snapshot holds. Whenever the serialiser reports success, the
  C string in the caller's buffer is a well-formed JSON text, and parsing it gives back exactly the
  document of the response: the selection and its profile, every capability or null, and every sample
  in order with its own texts, value, states and time stamp. In particular no text a sample carries
  can break out of its JSON string.
\<close>

lemma web_response_parses:
  assumes "web_input metadata capabilities samples" and "capacity \<le> length out"
    and "serializeWebVehicleDataResponse metadata capabilities samples (Some out) capacity = (result, Some out')"
    and "wr_status result = WebResponse_Serialized"
  shows "parse_json (c_string out') = Some (response_document metadata capabilities samples)"
proof -
  define doc where "doc = response_document metadata capabilities samples"
  have ok: "json_ok doc" by (simp add: doc_def response_document_def web_document_ok)
  have "out' = render doc @ 0 # drop (length (render doc) + 1) out"
    using assms(3,4) serialize_exact [OF assms(1,2)]
    by (auto simp: exact_response_def doc_def split: if_splits)
  then have "c_string out' = render doc" using nul_free_render [OF ok] by simp
  then show ?thesis using parse_render [OF ok] by (simp add: doc_def)
qed

text \<open>A sample whose signal is named by a quotation mark.\<close>

lemma web_response_parses_witness:
  "let metadata = VehicleDataReadSnapshot_default\<lparr>rs_sampleCount := 1\<rparr>
   in parse_json (c_string (the (snd (serializeWebVehicleDataResponse metadata None
          (Some [flag_sample 34 5]) (Some (replicate 300 0)) 300)))) =
      Some (response_document metadata None (Some [flag_sample 34 5]))"
proof -
  let ?m = "VehicleDataReadSnapshot_default\<lparr>rs_sampleCount := 1\<rparr>"
  have s: "sample_inv (flag_sample 34 5)"
    by (rule flag_sample_inv) code_simp
  then have input: "web_input ?m None (Some [flag_sample 34 5])"
    by (simp add: web_input_def VehicleDataReadSnapshot_default_def buffer_holds_def front_def)
  have facts: "length (render (response_document ?m None (Some [flag_sample 34 5]))) < 300"
    "validateInput ?m None (Some [flag_sample 34 5])"
    by code_simp+
  then have "serializeWebVehicleDataResponse ?m None (Some [flag_sample 34 5]) (Some (replicate 300 0)) 300 =
      exact_response True (render (response_document ?m None (Some [flag_sample 34 5]))) (replicate 300 0) 300"
    using serialize_exact [OF input, of 300 "replicate 300 0"] by simp
  then show ?thesis
    using web_response_parses [OF input, of 300 "replicate 300 0"] facts
    by (simp add: exact_response_def size_max_def Let_def del: replicate_Suc)
qed

end
