(* ===== verification/Client_View.thy ===== *)
theory Client_View
  imports Web_Properties
begin

text \<open>
  What a web client sees: the path of the data from the producers through the store
  (\<open>core/vehicle_data_store.h\<close>), the active profile and its registry, the read model
  (\<open>application/vehicle_data_read_model.h\<close>) and the serialiser
  (\<open>application/web_vehicle_data_response.h\<close>) to a JSON reader.
\<close>

text \<open>The document of a profile, the registry of one profile, and the samples to show.\<close>

definition view_document ::
  "ActiveVehicleProfile \<Rightarrow> ProfileIdentity \<Rightarrow> FixedSignalRegistry \<Rightarrow> NormalizedVehicleSample list \<Rightarrow> json" where
  "view_document p registryProfile registry samples = JObject
     ([(ascii ''profileSelection'', jname (selectionStateName (avp_state p)))] @
      (case avp_active p of
         None \<Rightarrow> []
       | Some identity \<Rightarrow> [(ascii ''activeProfileId'', JNumber (decimal (unat (pi_value identity))))]) @
      [(ascii ''capabilities'',
        if avp_active p = Some registryProfile then JArray (map web_capability_document registry) else JNull),
       (ascii ''samples'', JArray (map web_sample_document samples))])"

definition publishable :: "NormalizedSignalDescriptor \<Rightarrow> bool" where
  "publishable c \<longleftrightarrow> descriptor_inv c \<and> validateCapability c"

definition web_view ::
  "VehicleDataReadModel \<Rightarrow> NormalizedVehicleSample list \<Rightarrow> NormalizedSignalDescriptor list \<Rightarrow> bytes \<Rightarrow>
   VehicleDataReadStatus \<times> WebResponseSerializationResult \<times> bytes option" where
  "web_view m sampleBuffer capabilityBuffer out =
     (let r = read_snapshot m (Some sampleBuffer) (length sampleBuffer) (Some capabilityBuffer)
            (length capabilityBuffer) VehicleDataReadSnapshot_default
      in (rr_status (ro_result r),
          serializeWebVehicleDataResponse (ro_metadata r) (ro_capabilities r) (ro_samples r) (Some out)
            (length out)))"

lemma front_put_front: "length xs \<le> length buf \<Longrightarrow> front (put_front xs (Some buf)) (length xs) = xs"
  by (simp add: front_def put_front_def)

lemma web_view_exact:
  assumes p: "profile_inv admitted p" and s: "store_inv s"
    and ok: "list_all validateSample (store_entries s)" "list_all publishable registry"
    and room: "vds_size s \<le> length sampleBuffer" "length registry \<le> length capabilityBuffer"
  shows "web_view (ReadModel_make_with p s registryProfile registry) sampleBuffer capabilityBuffer out =
    (ReadComplete,
     exact_response True (render (view_document p registryProfile registry (store_entries s))) out (length out))"
proof -
  define m where "m = ReadModel_make_with p s registryProfile registry"
  define shown where "shown = capabilities_shown m"
  define metadata where "metadata = \<lparr>rs_selectionState = avp_state p,
      rs_activeIdentity = (if avp_state p = Selection_Selected then avp_active p else None),
      rs_hasCapabilityRegistry = (visible_capabilities m \<noteq> None),
      rs_capabilityCount = length shown, rs_sampleCount = length (store_entries s)\<rparr>"
  have shown: "shown = (if avp_active p = Some registryProfile then registry else [])"
    "visible_capabilities m = (if avp_active p = Some registryProfile then Some registry else None)"
    using p by (auto simp: shown_def m_def capabilities_shown_def visible_capabilities_def
        ReadModel_make_with_def profile_inv_def split: ProfileSelectionState.split option.split)
  have small: "length (store_entries s) \<le> length sampleBuffer" "length shown \<le> length capabilityBuffer"
    using room length_store_entries [OF s] by (simp_all add: shown(1))
  define r where "r = read_snapshot m (Some sampleBuffer) (length sampleBuffer) (Some capabilityBuffer)
      (length capabilityBuffer) VehicleDataReadSnapshot_default"
  have r: "rr_status (ro_result r) = ReadComplete" "ro_metadata r = metadata"
    "ro_samples r = put_front (store_entries s) (Some sampleBuffer)"
    "ro_capabilities r = put_front shown (Some capabilityBuffer)"
    using read_snapshot_spec [of m "Some sampleBuffer" "length sampleBuffer" "Some capabilityBuffer"
        "length capabilityBuffer" VehicleDataReadSnapshot_default] s small
    by (simp_all add: r_def m_def ReadModel_make_with_def buffer_holds_def buffer_suffices_def Let_def
        metadata_def shown_def)
  have input: "web_input metadata (ro_capabilities r) (ro_samples r)"
    "front (ro_capabilities r) (rs_capabilityCount metadata) = shown"
    "front (ro_samples r) (rs_sampleCount metadata) = store_entries s"
    using front_put_front [OF small(1)] front_put_front [OF small(2)] s ok(2) small
    by (simp_all add: web_input_def r metadata_def shown(1) store_inv_def list_all_iff publishable_def
        buffer_holds_def put_front_def)
  have valid: "validateInput metadata (ro_capabilities r) (ro_samples r)"
    unfolding validateInput_front [OF input(1)] input(2,3)
    using p ok shown by (auto simp: metadata_def r put_front_def profile_inv_def list_all_iff publishable_def
        c_literal_def)
  have doc: "response_document metadata (ro_capabilities r) (ro_samples r) =
      view_document p registryProfile registry (store_entries s)"
    unfolding response_document_def input(2,3)
    using p shown by (auto simp: metadata_def web_document_def view_document_def profile_inv_def split: option.splits)
  show ?thesis
    using serialize_exact [OF input(1), of "length out" out]
    by (simp add: web_view_def m_def [symmetric] r_def [symmetric] Let_def r(1,2) valid doc)
qed

lemma response_parses:
  assumes "length (render doc) < length out" and "length (render doc) < size_max" and "json_ok doc"
  shows "case exact_response True (render doc) out (length out) of (result, buf) \<Rightarrow>
    wr_status result = WebResponse_Serialized \<and> parse_json (c_string (the buf)) = Some doc"
  using assms nul_free_render [OF assms(3)] parse_render [OF assms(3)] by (simp add: exact_response_def)

lemma view_document_ok: "json_ok (view_document p registryProfile registry samples)"
  using web_document_ok [of "\<lparr>rs_selectionState = avp_state p, rs_activeIdentity = avp_active p,
      rs_hasCapabilityRegistry = (avp_active p = Some registryProfile), rs_capabilityCount = 0,
      rs_sampleCount = 0\<rparr>" registry samples]
  by (simp add: view_document_def web_document_def)

section \<open>Properties\<close>

text \<open>
  C3: what a web client sees. Let any profile state be reached by selections and any samples be
  offered to an empty store, every one of them well-formed, with defined enumerations and finite
  numbers; let the buffers have room. Then the read is complete, the serialiser reports success, and
  the JSON text in the buffer parses to: the selection and the active profile, the capabilities of
  that profile's own registry or null, and for each of the first signal ids that fit, in order of
  appearance, the newest sample that was offered.
\<close>

theorem client_view:
  assumes "profile_reachable admitted p" and "list_all publishable registry"
    and "list_all sample_inv xs" and "list_all validateSample xs"
    and "Capacity \<le> length sampleBuffer" and "length registry \<le> length capabilityBuffer"
  shows "let s = upsert_all xs (VehicleDataStore_init Capacity);
             doc = view_document p registryProfile registry (history sample_key smp_timestampMs Capacity xs)
         in length (render doc) < length out \<and> length out \<le> size_max \<longrightarrow>
            (case web_view (ReadModel_make_with p s registryProfile registry) sampleBuffer capabilityBuffer out of
               (status, result, buf) \<Rightarrow>
                 status = ReadComplete \<and> wr_status result = WebResponse_Serialized \<and>
                 wr_requiredCapacity result = length (render doc) + 1 \<and>
                 parse_json (c_string (the buf)) = Some doc)"
proof -
  note spec = upsert_all_spec [OF assms(3), of Capacity]
  have valid: "list_all validateSample (store_entries (upsert_all xs (VehicleDataStore_init Capacity)))"
    using assms(4) history_subset [of sample_key smp_timestampMs Capacity xs]
    by (auto simp: spec(1) list_all_iff)
  have view: "web_view (ReadModel_make_with p (upsert_all xs (VehicleDataStore_init Capacity)) registryProfile registry)
      sampleBuffer capabilityBuffer out = (ReadComplete, exact_response True (render
        (view_document p registryProfile registry (history sample_key smp_timestampMs Capacity xs))) out (length out))"
    using web_view_exact [OF profile_reachable_inv [OF assms(1)] spec(2) valid assms(2)] assms(5,6) spec
    by simp
  show ?thesis
    using response_parses [OF _ _ view_document_ok, of p registryProfile registry
        "history sample_key smp_timestampMs Capacity xs" out]
    by (auto simp: Let_def view exact_response_def)
qed

text \<open>The Kamiq profile, its speed capability, and a flag offered twice.\<close>

lemma client_view_witness:
  "let p = snd (selectManually \<lparr>pi_value = 1\<rparr> (ActiveVehicleProfile_init kAdmittedProfileIdentities));
       registry = [kamiq_descriptor ''vehicle.speed'' ''km/h''];
       s = upsert_all [flag_sample 0x61 5, flag_sample 0x61 7] (VehicleDataStore_init 1)
   in case web_view (ReadModel_make_with p s \<lparr>pi_value = 1\<rparr> registry) [flag_sample 0x62 0] registry
          (replicate 600 0) of
        (status, result, buf) \<Rightarrow>
          parse_json (c_string (the buf)) =
            Some (view_document p \<lparr>pi_value = 1\<rparr> registry [flag_sample 0x61 7])"
proof -
  define p where "p = snd (selectManually \<lparr>pi_value = 1\<rparr> (ActiveVehicleProfile_init kAdmittedProfileIdentities))"
  define registry where "registry = [kamiq_descriptor ''vehicle.speed'' ''km/h'']"
  define xs where "xs = [flag_sample 0x61 5, flag_sample 0x61 7]"
  have reach: "profile_reachable kAdmittedProfileIdentities p"
    unfolding p_def by (rule reach_step [OF reach_init step_select])
  have reg: "list_all publishable registry" "length registry = 1"
    unfolding registry_def by code_simp+
  have inv: "list_all sample_inv xs" using flag_sample_inv letters_ok by (simp add: xs_def)
  have valid: "list_all validateSample xs"
    unfolding xs_def by code_simp
  have hist: "history sample_key smp_timestampMs 1 xs = [flag_sample 0x61 7]"
    by (simp add: xs_def history_def flag_sample_simps firsts_def newest_def)
  have len: "length (render (view_document p \<lparr>pi_value = 1\<rparr> registry [flag_sample 0x61 7])) < 600"
    unfolding p_def registry_def by code_simp
  have "length (replicate 600 (0 :: u8)) \<le> size_max" by (simp add: size_max_def)
  then show ?thesis
    using client_view [OF reach reg(1) inv valid, of 1 "[flag_sample 0x62 0]" registry "\<lparr>pi_value = 1\<rparr>"
        "replicate 600 0"] len
    unfolding p_def [symmetric] registry_def [symmetric] xs_def [symmetric] hist Let_def
    by (auto simp: reg(2) simp del: replicate_Suc)
qed

end
