(* ===== verification/Spec2Isabelle.thy ===== *)
theory Spec2Isabelle
  imports IsoTp_Properties Guarded_Bus Obd_Behaviour Uds_Behaviour Scheduler_Properties
    Read_Model Export_Properties Ble_Decoder Twai_Properties Client_View
begin

text \<open>
  A verification development for the ESP32 VAG data server: the C++ core of a read-only gateway that
  asks a car for diagnostic data and hands normalised samples to its clients. File names are under
  \<open>src/\<close> unless they begin with \<open>tests/\<close>.

  \<^bold>\<open>The program.\<close> Downwards, a service (OBD or UDS) makes a request through the read-only guard, which
  starts a send on a diagnostic transport; ISO-TP cuts the payload into CAN frames and gives them to
  a CAN back end, the TWAI driver on the device or a mock on the host. Answers come back the same
  way when the service is polled. A scheduler decides which job is due. Upwards, samples go into a
  store that keeps the newest of each signal; a read model combines the store with the manually
  selected profile and its signal registry; a read is serialised as JSON for the web, as binary
  records for BLE, or sample by sample as an export record. The firmware's entry points are still
  empty, so the composition of services, scheduler and store is the caller's.

  \<^bold>\<open>Theories and sources.\<close>

  \<^item> \<open>Prelude\<close>: machine integers (\<open>u8\<close> to \<open>u64\<close> as words), C++ arrays as lists with the block copy
    \<open>blit\<close>, C strings, facts about lists, options and words; \<open>Byte_Order\<close>: the bytes of a word;
    \<open>Bounded_Writer\<close>: the writer of the two response formats and what it means that a call emits bytes.
  \<^item> \<open>Can_Types\<close> (\<open>core/can_types.h\<close>, \<open>hal/can_hal.h\<close>, \<open>core/clock.h\<close>, \<open>config/hardware_config.h\<close>,
    \<open>board/board_profile.h\<close>): frames, statuses, settings; \<open>CanHal\<close> and \<open>Clock\<close> are records of functions
    over an arbitrary world. \<open>Mock_Platform\<close> (\<open>tests/host/mock_can.h\<close>, \<open>tests/host/fake_clock.h\<close>) and
    \<open>Esp32_Twai\<close> (\<open>esp32_twai_can.cpp\<close>, \<open>hal/esp32_twai_can.h\<close>) are the two back ends;
    \<open>Can_Backend\<close> states their common contract, \<open>Twai_Properties\<close> what holds for the device's.
  \<^item> \<open>IsoTp\<close> (\<open>protocol/isotp_transport.h\<close>, \<open>protocol/diagnostic_transport.h\<close>): the transport, every
    handler. \<open>IsoTp_Invariant\<close>, \<open>IsoTp_Segmentation\<close>, \<open>IsoTp_Sender\<close>, \<open>IsoTp_Receiver\<close>,
    \<open>IsoTp_Timing\<close>, \<open>IsoTp_Outcomes\<close>, \<open>IsoTp_Link\<close> and \<open>IsoTp_Properties\<close>: its invariant, what it
    sends and reassembles, its obedience to flow control, what the end of a transmission or a
    reassembly means for every continuation, and two transports talking to each other.
  \<^item> \<open>Read_Only_Guard\<close> (\<open>protocol/read_only_guard.h\<close>): the guard; \<open>Guarded_Bus\<close>: the policy down to the
    frames on the bus.
  \<^item> \<open>Diagnostic_Contract\<close>: what the services rely on in a transport. \<open>Obd_Service\<close>, \<open>Uds_Service\<close>
    (\<open>protocol/obd_service.h\<close>, \<open>protocol/uds_service.h\<close>): the services; \<open>Obd_Properties\<close>, \<open>Obd_Runs\<close>,
    \<open>Obd_Behaviour\<close> and the same for UDS: the specification of the answers, and runs of the services.
  \<^item> \<open>Scheduler\<close>, \<open>Scheduler_Properties\<close> (\<open>core/scheduler.h\<close>).
  \<^item> \<open>Bounded_Text\<close>, \<open>Vehicle_Data\<close> (\<open>core/vehicle_data.h\<close>): UTF-8 texts, values, samples and their
    factories; \<open>Vehicle_Data_Store\<close> (\<open>core/vehicle_data_store.h\<close>); \<open>Profiles\<close>
    (\<open>profiles/active_vehicle_profile.h\<close>, \<open>profiles/signal_registry.h\<close>, \<open>vag/profile_set.h\<close>,
    \<open>vag/kamiq_nw4_capabilities.h\<close>); \<open>Read_Model\<close> (\<open>application/vehicle_data_read_model.h\<close>).
  \<^item> \<open>Export_Record\<close>, \<open>Export_Properties\<close> (\<open>application/vehicle_data_export_record.h\<close>).
  \<^item> \<open>Ble_Payload\<close>, \<open>Ble_Properties\<close> (\<open>application/ble_vehicle_data_payload.h\<close>) and \<open>Ble_Decoder\<close>
    (\<open>tests/host/ble_payload_decoder.h\<close>, the client side).
  \<^item> \<open>Decimal_Text\<close>, \<open>Web_Response\<close>, \<open>Web_Properties\<close> (\<open>application/web_vehicle_data_response.h\<close>);
    \<open>Json\<close>: documents, their text and a reader, as the specification; \<open>Client_View\<close>: the whole path
    from the samples offered to the store to what a web client parses.

  \<^bold>\<open>How code becomes definitions.\<close> A class is a record of its members and an operation a function
  from the object (and the world it acts on) to its result and the new object. Enumerations with an
  underlying byte that may hold any byte have a last constructor for the other values. Fixed-width
  integers are words, so wrap-around is that of the code; \<open>size_t\<close> is \<open>nat\<close> with the target's bound
  \<open>size_max\<close> where it matters. A pointer that may be null is an option. A \<open>double\<close> is its IEEE 754 bit
  pattern. Errors are the status values of the code. Virtual classes and the ESP-IDF driver are
  parameters: records of functions, about which a property assumes only what it states.

  \<^bold>\<open>What the groups of lemmas show.\<close> Invariants hold in every run of the public operations, for any
  environment (transport, services, scheduler, profile, device back end). The transport delivers
  every payload byte for byte over the mock, its frames are always a prefix of the specified
  segmentation, and it keeps the block size, separation time, wait limit and deadlines. Whatever the
  callers and the bus do, only flow control and allowed read requests reach the bus. The services
  give the verdict of a specification function on every message and finish every request. The
  scheduler keeps periodic jobs on their grid and neither loses nor duplicates requests. The store
  is a bounded map of the newest samples, a read is all or nothing, and each of the three formats
  is read back exactly: the export record by the repository's own decoder, the BLE records by the
  reference decoder of its tests, the web response by the JSON reader.

  \<^bold>\<open>Interfaces.\<close> \<open>diagnostic_transport\<close> and \<open>timed_transport\<close> are what the services need; ISO-TP over
  any back end interprets them. \<open>reliable_can\<close> is a back end that accepts frames (the mock),
  \<open>can_backend\<close> the contract both back ends meet, \<open>newest_store\<close> a store of newest samples (the
  repository's), \<open>byte_writer\<close> an append operation (those of the BLE and the web writer).

  \<^bold>\<open>Bounds and fuel.\<close> An end-to-end transfer of \<open>n\<close> bytes takes \<open>n div 7\<close> rounds (none for a single
  frame): the first frame carries six bytes and every round one consecutive frame of seven. The search for the decimal exponent of a \<open>double\<close> takes at most 400
  steps; the smallest positive number needs 324. The JSON reader is given the length of its text as
  the bound of its recursion, which \<open>read_render\<close> shows to suffice. All other loops are structural or
  have a measure.

  \<^bold>\<open>Not modelled.\<close> \<open>src.ino\<close> has an empty \<open>setup\<close> and \<open>loop\<close>. The browser page under \<open>web/\<close> is another
  language and renders a fixed response. The test cases under \<open>tests/host\<close> are scenarios of
  operations that the properties cover for all inputs. The TWAI driver, its hardware and \<open>millis\<close>
  are parameters. Destruction of objects other than the device's back end does nothing. Concurrency
  does not occur: every component is polled by one caller.
\<close>

end
